theory Spec2Isabelle
  imports Complex_Main
begin

section \<open>The lattice-Boltzmann kernel of GridObj_ops_lbm.cpp\<close>

text \<open>
  This theory embeds the per-level kernel of the solver: collision, streaming,
  macroscopic recovery, explode, coalesce and the recursive multi-grid driver
  \<^verbatim>\<open>GridObj::LBM_multi\<close>.

  Conventions of the embedding.
  \<^item> A \<^verbatim>\<open>double\<close> is an exact real number: rounding, infinities and NaN are outside
    the model, and a division by zero is excluded by hypothesis wherever a result
    depends on it.
  \<^item> A lattice array (\<^verbatim>\<open>IVector<double>\<close> read through its flattening accessor
    \<^verbatim>\<open>(i,j,k,v,M_lim,K_lim,nVels)\<close>) is a function from the multi-index to the stored
    value; two different multi-indices are two different slots. The two-dimensional
    accessor \<^verbatim>\<open>(i,j,v,M_lim,nVels)\<close> is the slot with \<open>k = 0\<close>.
  \<^item> The preprocessor symbols of the build (\<^verbatim>\<open>definitions.h\<close>) and the global tables
    (\<^verbatim>\<open>globalvars.h\<close>) are fields of one configuration record; collaborators
    that live in other files (boundary passes, MPI layer tests, immersed-boundary
    calls) are function-valued fields of the same record.
\<close>

subsection \<open>Configuration and grid data\<close>

type_synonym site = "int \<times> int \<times> int"
type_synonym slot = "site \<times> nat"
type_synonym lattice = "slot \<Rightarrow> real"
type_synonym scalars = "site \<Rightarrow> real"

text \<open>
  The members of \<^verbatim>\<open>GridObj\<close> that the kernel reads or writes. \<open>level\<close> is the
  refinement depth (0 on the coarsest grid), \<open>t\<close> the tick counter, \<open>XPos\<close>,
  \<open>YPos\<close>, \<open>ZPos\<close> the site positions (their lengths are the loop limits),
  \<open>CoarseLimsX/Y/Z\<close> the first and last parent index covered by this grid.
  \<open>LatTyp\<close> is the site label: 0 solid, 1 fluid, 2 covered by a finer grid,
  3 transition layer receiving from the coarser grid (on the fine side),
  4 transition layer to the finer grid (on the coarse side), 5 the second solid
  label, 7 do-nothing inlet.
\<close>

record grid =
  level :: nat
  t :: int
  XPos :: "real list"
  YPos :: "real list"
  ZPos :: "real list"
  CoarseLimsX :: "int \<times> int"
  CoarseLimsY :: "int \<times> int"
  CoarseLimsZ :: "int \<times> int"
  omega :: real
  mrt_omega :: "nat \<Rightarrow> real"
  LatTyp :: "site \<Rightarrow> int"
  f :: lattice
  feq :: lattice
  force_i :: lattice
  force_xyz :: lattice
  rho :: scalars
  u :: lattice
  rho_timeav :: scalars
  ui_timeav :: lattice
  uiuj_timeav :: lattice

record config =
  dims :: nat
  nVels :: nat
  c :: "nat \<Rightarrow> nat \<Rightarrow> int"
  w :: "nat \<Rightarrow> real"
  cs :: real
  getOpposite :: "nat \<Rightarrow> nat"
  NumLev :: nat
  mMRT :: "nat \<Rightarrow> nat \<Rightarrow> real"
  mInvMRT :: "nat \<Rightarrow> nat \<Rightarrow> real"
  grav_direction :: nat
  grav_force :: real
  USE_MRT :: bool
  PERIODIC_BOUNDARIES :: bool
  BUILD_FOR_MPI :: bool
  INLET_ON :: bool
  INLET_DO_NOTHING :: bool
  INLET_REGULARISED :: bool
  OUTLET_ON :: bool
  SOLID_BLOCK_ON :: bool
  WALLS_ON :: bool
  BFL_ON :: bool
  IBM_ON :: bool
  GRAVITY_ON :: bool
  isOnRecvLayer :: "real \<Rightarrow> real \<Rightarrow> real \<Rightarrow> bool"
  isOnSenderLayer :: "real \<Rightarrow> real \<Rightarrow> real \<Rightarrow> bool"
  isOverlapPeriodic :: "int \<Rightarrow> int \<Rightarrow> int \<Rightarrow> grid \<Rightarrow> bool"
  LBM_boundary :: "nat \<Rightarrow> grid \<Rightarrow> grid"
  ibm_apply :: "grid \<Rightarrow> grid"
  ibm_move_bodies :: "grid \<Rightarrow> grid"
  mpi_communicate :: "grid \<Rightarrow> grid"

definition N_lim :: "grid \<Rightarrow> int" where
  "N_lim g = int (length (XPos g))"

definition M_lim :: "grid \<Rightarrow> int" where
  "M_lim g = int (length (YPos g))"

definition K_lim :: "grid \<Rightarrow> int" where
  "K_lim g = int (length (ZPos g))"

text \<open>The sites of a grid in the order of the triple loop over \<open>i\<close>, \<open>j\<close>, \<open>k\<close>.\<close>

definition sites :: "grid \<Rightarrow> site list" where
  "sites g = [(i, j, k). i \<leftarrow> [0..N_lim g - 1], j \<leftarrow> [0..M_lim g - 1], k \<leftarrow> [0..K_lim g - 1]]"

definition on_grid :: "grid \<Rightarrow> site \<Rightarrow> bool" where
  "on_grid g s = (case s of (i, j, k) \<Rightarrow>
     0 \<le> i \<and> i < N_lim g \<and> 0 \<le> j \<and> j < M_lim g \<and> 0 \<le> k \<and> k < K_lim g)"

subsection \<open>Equilibrium function\<close>

text \<open>
  The overload \<^verbatim>\<open>double GridObj::LBM_collide(int i, int j, int k, int v)\<close>: the
  terms \<open>A\<close> and \<open>B\<close> are written out for three dimensions when \<open>dims == 3\<close> and
  for two dimensions in every other build.
\<close>

definition LBM_collide_feq :: "config \<Rightarrow> grid \<Rightarrow> int \<Rightarrow> int \<Rightarrow> int \<Rightarrow> nat \<Rightarrow> real" where
  "LBM_collide_feq cfg g i j k v =
    (let u0 = u g ((i, j, k), 0); u1 = u g ((i, j, k), 1); u2 = u g ((i, j, k), 2);
         c0 = real_of_int (c cfg 0 v); c1 = real_of_int (c cfg 1 v);
         c2 = real_of_int (c cfg 2 v);
         A = (if dims cfg = 3 then c0 * u0 + c1 * u1 + c2 * u2 else c0 * u0 + c1 * u1);
         B = (if dims cfg = 3
              then (c0 ^ 2 - cs cfg ^ 2) * u0 ^ 2 + (c1 ^ 2 - cs cfg ^ 2) * u1 ^ 2
                 + (c2 ^ 2 - cs cfg ^ 2) * u2 ^ 2
                 + 2 * c0 * c1 * u0 * u1 + 2 * c0 * c2 * u0 * u2 + 2 * c1 * c2 * u1 * u2
              else (c0 ^ 2 - cs cfg ^ 2) * u0 ^ 2 + (c1 ^ 2 - cs cfg ^ 2) * u1 ^ 2
                 + 2 * c0 * c1 * u0 * u1)
     in rho g (i, j, k) * w cfg v * (1 + A / cs cfg ^ 2 + B / (2 * cs cfg ^ 4)))"

text \<open>
  The formula of the specification, with the sums over the spatial dimensions left as
  sums: \<open>A = c_v \<cdot> u\<close> and \<open>B = \<Sum>a b. (c_va c_vb - cs\<^sup>2 \<delta>_ab) u_a u_b\<close>.
\<close>

definition feq_A_spec :: "config \<Rightarrow> grid \<Rightarrow> site \<Rightarrow> nat \<Rightarrow> real" where
  "feq_A_spec cfg g s v = (\<Sum>a < dims cfg. real_of_int (c cfg a v) * u g (s, a))"

definition feq_B_spec :: "config \<Rightarrow> grid \<Rightarrow> site \<Rightarrow> nat \<Rightarrow> real" where
  "feq_B_spec cfg g s v =
     (\<Sum>a < dims cfg. \<Sum>b < dims cfg.
        (real_of_int (c cfg a v) * real_of_int (c cfg b v)
           - (if a = b then cs cfg ^ 2 else 0)) * u g (s, a) * u g (s, b))"

definition feq_spec :: "config \<Rightarrow> grid \<Rightarrow> site \<Rightarrow> nat \<Rightarrow> real" where
  "feq_spec cfg g s v =
     rho g s * w cfg v
       * (1 + feq_A_spec cfg g s v / cs cfg ^ 2 + feq_B_spec cfg g s v / (2 * cs cfg ^ 4))"

subsection \<open>Collision\<close>

text \<open>
  One pass of the direction loop of the BGK branch of \<^verbatim>\<open>GridObj::LBM_collide()\<close>. The
  state is the grid (whose member \<open>feq\<close> is assigned) and the local array \<open>f_new\<close>.
\<close>

definition collide_bgk_dir ::
  "config \<Rightarrow> int \<Rightarrow> int \<Rightarrow> int \<Rightarrow> grid \<times> lattice \<Rightarrow> nat \<Rightarrow> grid \<times> lattice" where
  "collide_bgk_dir cfg i j k gf v = (case gf of (g, f_new) \<Rightarrow>
     (let g' = g\<lparr>feq := (feq g)(((i, j, k), v) := LBM_collide_feq cfg g i j k v)\<rparr>
      in (g', f_new(((i, j, k), v) :=
            (- omega g' * (f g' ((i, j, k), v) - feq g' ((i, j, k), v)))
              + f g' ((i, j, k), v) + force_i g' ((i, j, k), v)))))"

text \<open>
  \<^verbatim>\<open>GridObj::LBM_mrt_collide\<close>: the equilibrium of every direction is stored, the
  populations and the equilibrium are taken to moment space by \<open>mMRT\<close>, each moment
  is relaxed at its own rate and the result is taken back by \<open>mInvMRT\<close>.
\<close>

definition LBM_mrt_collide ::
  "config \<Rightarrow> grid \<times> lattice \<Rightarrow> int \<Rightarrow> int \<Rightarrow> int \<Rightarrow> grid \<times> lattice" where
  "LBM_mrt_collide cfg gf i j k = (case gf of (g, f_new) \<Rightarrow>
     (let g1 = foldl (\<lambda>ga v. ga\<lparr>feq := (feq ga)(((i, j, k), v) := LBM_collide_feq cfg ga i j k v)\<rparr>)
                 g [0..<nVels cfg];
          m = (\<lambda>p. foldl (\<lambda>acc q. acc + mMRT cfg p q * f g1 ((i, j, k), q)) 0 [0..<nVels cfg]);
          meq = (\<lambda>p. foldl (\<lambda>acc q. acc + mMRT cfg p q * feq g1 ((i, j, k), q)) 0 [0..<nVels cfg]);
          m' = (\<lambda>q. m q - mrt_omega g1 q * (m q - meq q))
      in (g1, foldl (\<lambda>fn p. fn(((i, j, k), p) :=
                       foldl (\<lambda>ftmp q. ftmp + mInvMRT cfg p q * m' q) 0 [0..<nVels cfg]))
                f_new [0..<nVels cfg])))"

text \<open>The body of the triple loop of \<^verbatim>\<open>GridObj::LBM_collide()\<close> at one site.\<close>

definition collide_site :: "config \<Rightarrow> grid \<times> lattice \<Rightarrow> site \<Rightarrow> grid \<times> lattice" where
  "collide_site cfg gf s = (case s of (i, j, k) \<Rightarrow>
     if LatTyp (fst gf) (i, j, k) = 2 \<or> LatTyp (fst gf) (i, j, k) = 3 then gf
     else if USE_MRT cfg then LBM_mrt_collide cfg gf i j k
     else foldl (collide_bgk_dir cfg i j k) gf [0..<nVels cfg])"

text \<open>
  \<^verbatim>\<open>void GridObj::LBM_collide()\<close>: \<open>f_new\<close> starts as a copy of \<open>f\<close> and replaces
  it after the sweep.
\<close>

definition LBM_collide :: "config \<Rightarrow> grid \<Rightarrow> grid" where
  "LBM_collide cfg g =
     (case foldl (collide_site cfg) (g, f g) (sites g) of (g', f_new) \<Rightarrow> g'\<lparr>f := f_new\<rparr>)"

subsection \<open>Macroscopic quantities and time averages\<close>

text \<open>
  \<^verbatim>\<open>void GridObj::LBM_macro(int i, int j, int k)\<close>, the single-site overload. The sums
  over the directions start from zero and run in the order of the loop.
\<close>

definition LBM_macro_site :: "config \<Rightarrow> grid \<Rightarrow> int \<Rightarrow> int \<Rightarrow> int \<Rightarrow> grid" where
  "LBM_macro_site cfg g i j k =
    (let s = (i, j, k) in
     if LatTyp g s = 2 then
       g\<lparr>rho := (rho g)(s := 0),
         u := (if dims cfg = 3 then (u g)((s, 0) := 0, (s, 1) := 0, (s, 2) := 0)
               else (u g)((s, 0) := 0, (s, 1) := 0))\<rparr>
     else if LatTyp g s = 0 \<or> LatTyp g s = 5 then
       g\<lparr>rho := (rho g)(s := 1),
         u := (if dims cfg = 3 then (u g)((s, 0) := 0, (s, 1) := 0, (s, 2) := 0)
               else (u g)((s, 0) := 0, (s, 1) := 0))\<rparr>
     else
       (let fux_temp = foldl (\<lambda>acc v. acc + real_of_int (c cfg 0 v) * f g (s, v)) 0 [0..<nVels cfg];
            fuy_temp = foldl (\<lambda>acc v. acc + real_of_int (c cfg 1 v) * f g (s, v)) 0 [0..<nVels cfg];
            fuz_temp = foldl (\<lambda>acc v. acc + real_of_int (c cfg 2 v) * f g (s, v)) 0 [0..<nVels cfg];
            rho_temp = foldl (\<lambda>acc v. acc + f g (s, v)) 0 [0..<nVels cfg];
            fux = fux_temp + rho_temp * (1 / 2 ^ level g) * 0.5 * force_xyz g (s, 0);
            fuy = fuy_temp + rho_temp * (1 / 2 ^ level g) * 0.5 * force_xyz g (s, 1);
            fuz = (if dims cfg = 3
                   then fuz_temp + rho_temp * (1 / 2 ^ level g) * 0.5 * force_xyz g (s, 2)
                   else fuz_temp)
        in g\<lparr>rho := (rho g)(s := rho_temp),
             u := (if dims cfg = 3
                   then (u g)((s, 0) := fux / rho_temp, (s, 1) := fuy / rho_temp,
                              (s, 2) := fuz / rho_temp)
                   else (u g)((s, 0) := fux / rho_temp, (s, 1) := fuy / rho_temp))\<rparr>))"

text \<open>
  The three statements that update one running average: multiply by the completed
  ticks, add the new value, divide by the ticks plus one.
\<close>

definition timeav_update :: "real \<Rightarrow> int \<Rightarrow> real \<Rightarrow> real" where
  "timeav_update avg tt new = (avg * real_of_int tt + new) / real_of_int (tt + 1)"

text \<open>
  The loops over \<open>p\<close> and \<open>q \<ge> p\<close> that update the averages of the velocity components
  and of their products; the state carries the counter \<open>ta_count\<close>.
\<close>

definition timeav_q :: "site \<Rightarrow> nat \<Rightarrow> grid \<times> nat \<Rightarrow> nat \<Rightarrow> grid \<times> nat" where
  "timeav_q s p gn q = (case gn of (g, ta_count) \<Rightarrow>
     (g\<lparr>uiuj_timeav := (uiuj_timeav g)((s, ta_count) :=
          timeav_update (uiuj_timeav g (s, ta_count)) (t g) (u g (s, p) * u g (s, q)))\<rparr>,
      ta_count + 1))"

definition timeav_p :: "config \<Rightarrow> site \<Rightarrow> grid \<times> nat \<Rightarrow> nat \<Rightarrow> grid \<times> nat" where
  "timeav_p cfg s gn p = (case gn of (g, ta_count) \<Rightarrow>
     foldl (timeav_q s p)
       (g\<lparr>ui_timeav := (ui_timeav g)((s, p) :=
            timeav_update (ui_timeav g (s, p)) (t g) (u g (s, p)))\<rparr>, ta_count)
       [p..<dims cfg])"

definition macro_timeav :: "config \<Rightarrow> grid \<Rightarrow> site \<Rightarrow> grid" where
  "macro_timeav cfg g s =
     fst (foldl (timeav_p cfg s)
            (g\<lparr>rho_timeav := (rho_timeav g)(s :=
                 timeav_update (rho_timeav g s) (t g) (rho g s))\<rparr>, 0)
            [0..<dims cfg])"

text \<open>
  \<^verbatim>\<open>void GridObj::LBM_macro()\<close>. The first part of its loop body is the text of the
  single-site overload; the second part updates the averages of the site.
\<close>

definition macro_step :: "config \<Rightarrow> grid \<Rightarrow> site \<Rightarrow> grid" where
  "macro_step cfg g s = (case s of (i, j, k) \<Rightarrow> macro_timeav cfg (LBM_macro_site cfg g i j k) s)"

definition LBM_macro :: "config \<Rightarrow> grid \<Rightarrow> grid" where
  "LBM_macro cfg g = foldl (macro_step cfg) g (sites g)"

text \<open>
  The slot of the product \<open>u\<^sub>p u\<^sub>q\<close> (\<open>p \<le> q\<close>) in \<open>uiuj_timeav\<close>: its position when the
  pairs are listed row by row.
\<close>

definition uiuj_index :: "nat \<Rightarrow> nat \<Rightarrow> nat \<Rightarrow> nat" where
  "uiuj_index d p q = p * d - (p * (p - 1)) div 2 + (q - p)"

subsection \<open>Streaming\<close>

text \<open>The operator \<^verbatim>\<open>%\<close> on \<^verbatim>\<open>int\<close>: the remainder of the division that truncates.\<close>

definition cpp_rem :: "int \<Rightarrow> int \<Rightarrow> int" where
  "cpp_rem a b = a - b * (sgn a * sgn b * (\<bar>a\<bar> div \<bar>b\<bar>))"

text \<open>The destination \<open>(dest_x, dest_y, dest_z)\<close> computed without periodicity.\<close>

definition dest_site :: "config \<Rightarrow> site \<Rightarrow> nat \<Rightarrow> site" where
  "dest_site cfg s v = (case s of (i, j, k) \<Rightarrow> (i + c cfg 0 v, j + c cfg 1 v, k + c cfg 2 v))"

text \<open>The test \<^emph>\<open>if off-grid\<close>; the third coordinate is tested in a 3D build only.\<close>

definition off_grid :: "config \<Rightarrow> grid \<Rightarrow> site \<Rightarrow> bool" where
  "off_grid cfg g d = (case d of (dest_x, dest_y, dest_z) \<Rightarrow>
     (dest_x \<ge> N_lim g \<or> dest_x < 0) \<or> (dest_y \<ge> M_lim g \<or> dest_y < 0)
     \<or> (dims cfg = 3 \<and> (dest_z \<ge> K_lim g \<or> dest_z < 0)))"

text \<open>The destination computed \<^emph>\<open>using periodicity\<close>.\<close>

definition wrap_dest :: "config \<Rightarrow> grid \<Rightarrow> site \<Rightarrow> nat \<Rightarrow> site" where
  "wrap_dest cfg g s v = (case s of (i, j, k) \<Rightarrow>
     (cpp_rem (i + c cfg 0 v + N_lim g) (N_lim g),
      cpp_rem (j + c cfg 1 v + M_lim g) (M_lim g),
      cpp_rem (k + c cfg 2 v + K_lim g) (K_lim g)))"

text \<open>
  The three conditions of the MPI build under which an on-grid transfer is treated as a
  transfer across a periodic overlap: the source is on a receiver layer, the
  destination on a sender layer, and the overlap is periodic.
\<close>

definition mpi_overlap :: "config \<Rightarrow> grid \<Rightarrow> site \<Rightarrow> site \<Rightarrow> bool" where
  "mpi_overlap cfg g s d = (case s of (i, j, k) \<Rightarrow> case d of (dest_x, dest_y, dest_z) \<Rightarrow>
     isOnRecvLayer cfg (XPos g ! nat i) (YPos g ! nat j) (ZPos g ! nat k)
     \<and> isOnSenderLayer cfg (XPos g ! nat dest_x) (YPos g ! nat dest_y) (ZPos g ! nat dest_z)
     \<and> isOverlapPeriodic cfg i j k g)"

text \<open>
  One pass of the direction loop of \<^verbatim>\<open>GridObj::LBM_stream()\<close> for a source site that is
  not labelled 2. Every path through the loop body makes at most one assignment to
  \<open>f_new\<close> before its \<^verbatim>\<open>continue\<close>: the result is that assignment (slot and value), or
  \<open>None\<close> when the path assigns nothing.
\<close>

definition stream_write :: "config \<Rightarrow> grid \<Rightarrow> site \<Rightarrow> nat \<Rightarrow> (slot \<times> real) option" where
  "stream_write cfg g s v =
    (let v_opp = getOpposite cfg v; d = dest_site cfg s v; p = wrap_dest cfg g s v in
     if INLET_ON cfg \<and> INLET_DO_NOTHING cfg \<and> LatTyp g s = 7 then Some ((s, v), f g (s, v))
     else if off_grid cfg g d then
       (if PERIODIC_BOUNDARIES cfg \<and> \<not> BUILD_FOR_MPI cfg
           \<and> level g = 0 \<and> LatTyp g s = 1 \<and> LatTyp g p = 1
        then Some ((p, v), f g (s, v))
        else Some ((s, v_opp), f g (s, v_opp)))
     else if BUILD_FOR_MPI cfg \<and> mpi_overlap cfg g s d then
       (if PERIODIC_BOUNDARIES cfg \<and> LatTyp g s = 1 \<and> LatTyp g d = 1
        then Some ((d, v), f g (s, v))
        else Some ((d, v), f g (d, v)))
     else if LatTyp g s = 4 \<and> LatTyp g d = 4 then None
     else if INLET_ON cfg \<and> INLET_DO_NOTHING cfg \<and> LatTyp g d = 7 then None
     else Some ((d, v), f g (s, v)))"

definition stream_dir :: "config \<Rightarrow> grid \<Rightarrow> lattice \<Rightarrow> site \<Rightarrow> nat \<Rightarrow> lattice" where
  "stream_dir cfg g f_new s v =
     (case stream_write cfg g s v of None \<Rightarrow> f_new | Some (q, x) \<Rightarrow> f_new(q := x))"

text \<open>
  The direction loop at one site. A source labelled 2 leaves the loop by \<^verbatim>\<open>break\<close> at
  its first pass.
\<close>

fun stream_dirs :: "config \<Rightarrow> grid \<Rightarrow> lattice \<Rightarrow> site \<Rightarrow> nat list \<Rightarrow> lattice" where
  "stream_dirs cfg g f_new s [] = f_new"
| "stream_dirs cfg g f_new s (v # vs) =
     (if LatTyp g s = 2 then f_new
      else stream_dirs cfg g (stream_dir cfg g f_new s v) s vs)"

text \<open>
  \<^verbatim>\<open>void GridObj::LBM_stream()\<close>: the sweep writes into a new array of zeros, which
  replaces \<open>f\<close> at the end.
\<close>

definition LBM_stream :: "config \<Rightarrow> grid \<Rightarrow> grid" where
  "LBM_stream cfg g =
     g\<lparr>f := foldl (\<lambda>f_new s. stream_dirs cfg g f_new s [0..<nVels cfg]) (\<lambda>q. 0) (sites g)\<rparr>"

subsection \<open>Explode and coalesce\<close>

text \<open>
  Modelled from the spec: \<^verbatim>\<open>GridUtils::getFineIndices\<close> is not among the sources. The
  refinement ratio is two along every axis and the child grid starts at the first
  parent site of its region, so the parent site \<open>i\<close> maps to the fine index
  \<open>2 (i - x_start)\<close>, and likewise along the other axes.
\<close>

definition getFineIndices :: "int \<Rightarrow> int \<Rightarrow> int \<Rightarrow> int \<Rightarrow> int \<Rightarrow> int \<Rightarrow> site" where
  "getFineIndices coarse_i x_start coarse_j y_start coarse_k z_start =
     (2 * (coarse_i - x_start), 2 * (coarse_j - y_start), 2 * (coarse_k - z_start))"

text \<open>
  The parent sites visited by the loops of explode and coalesce, from the first to the
  last index of \<open>CoarseLims\<close> of the child grid, in loop order.
\<close>

definition region_sites :: "grid \<Rightarrow> site list" where
  "region_sites fGrid =
     [(i, j, k). i \<leftarrow> [fst (CoarseLimsX fGrid)..snd (CoarseLimsX fGrid)],
                 j \<leftarrow> [fst (CoarseLimsY fGrid)..snd (CoarseLimsY fGrid)],
                 k \<leftarrow> [fst (CoarseLimsZ fGrid)..snd (CoarseLimsZ fGrid)]]"

definition fine_base :: "grid \<Rightarrow> site \<Rightarrow> site" where
  "fine_base fGrid s = (case s of (i, j, k) \<Rightarrow>
     getFineIndices i (fst (CoarseLimsX fGrid)) j (fst (CoarseLimsY fGrid))
                    k (fst (CoarseLimsZ fGrid)))"

text \<open>
  The fine sites that both routines address from the fine indices, in the order of the
  source: the cube of eight in 3D, the square of four (two-dimensional accessor)
  otherwise.
\<close>

definition siblings :: "config \<Rightarrow> site \<Rightarrow> site list" where
  "siblings cfg b = (case b of (fi, fj, fk) \<Rightarrow>
     if dims cfg = 3
     then [(fi, fj, fk), (fi + 1, fj, fk), (fi, fj + 1, fk), (fi + 1, fj + 1, fk),
           (fi, fj, fk + 1), (fi + 1, fj, fk + 1), (fi, fj + 1, fk + 1),
           (fi + 1, fj + 1, fk + 1)]
     else [(fi, fj, 0), (fi + 1, fj, 0), (fi, fj + 1, 0), (fi + 1, fj + 1, 0)])"

text \<open>
  \<^verbatim>\<open>GridObj::LBM_explode\<close>, called on the parent \<open>p\<close>; \<open>fGrid\<close> is the child grid of
  the region, whose populations are written.
\<close>

definition explode_site :: "config \<Rightarrow> grid \<Rightarrow> grid \<Rightarrow> site \<Rightarrow> grid" where
  "explode_site cfg p fGrid s =
     (if LatTyp p s = 4 then
        (if LatTyp fGrid (fine_base fGrid s) = 3 then
           foldl (\<lambda>fg v.
                    (let coarse_f = f p (s, v) in
                     fg\<lparr>f := foldl (\<lambda>fn sb. fn((sb, v) := coarse_f)) (f fg)
                                (siblings cfg (fine_base fGrid s))\<rparr>))
             fGrid [0..<nVels cfg]
         else fGrid)
      else fGrid)"

definition LBM_explode :: "config \<Rightarrow> grid \<Rightarrow> grid \<Rightarrow> grid" where
  "LBM_explode cfg p fGrid = foldl (explode_site cfg p) fGrid (region_sites fGrid)"

text \<open>
  \<^verbatim>\<open>GridObj::LBM_coalesce\<close>, called on the parent \<open>p\<close>, whose populations are written;
  \<open>fGrid\<close> is the child grid of the region.
\<close>

definition coalesce_site :: "config \<Rightarrow> grid \<Rightarrow> grid \<Rightarrow> site \<Rightarrow> grid" where
  "coalesce_site cfg fGrid p s =
     (if LatTyp p s = 4 \<or> LatTyp p s = 5 then
        foldl (\<lambda>pg v.
                 if f pg (s, v) = 0
                 then pg\<lparr>f := (f pg)((s, v) :=
                        sum_list (map (\<lambda>sb. f fGrid (sb, v)) (siblings cfg (fine_base fGrid s)))
                          / 2 ^ dims cfg)\<rparr>
                 else pg)
          p [0..<nVels cfg]
      else p)"

definition LBM_coalesce :: "config \<Rightarrow> grid \<Rightarrow> grid \<Rightarrow> grid" where
  "LBM_coalesce cfg p fGrid = foldl (coalesce_site cfg fGrid) p (region_sites fGrid)"

subsection \<open>Forcing\<close>

text \<open>
  \<^verbatim>\<open>GridObj::LBM_forcegrid\<close>. With the reset flag both force arrays are filled with
  zeros. Otherwise every site adds gravity to its Cartesian force (in a build with
  \<^verbatim>\<open>GRAVITY_ON\<close>) and, unless it is labelled 0, accumulates and scales the lattice force
  of every direction.
\<close>

definition forcegrid_dir :: "config \<Rightarrow> site \<Rightarrow> grid \<Rightarrow> nat \<Rightarrow> grid" where
  "forcegrid_dir cfg s g v =
     (if LatTyp g s \<noteq> 0 then
        (let lambda_v = (1 - 0.5 * omega g) * (w cfg v / cs cfg ^ 2);
             beta_v = foldl (\<lambda>b d. b + real_of_int (c cfg d v) * u g (s, d)) 0 [0..<dims cfg]
                        * (1 / cs cfg ^ 2);
             acc = foldl (\<lambda>a d. a + force_xyz g (s, d)
                                  * (real_of_int (c cfg d v) * (1 + beta_v) - u g (s, d)))
                     (force_i g (s, v)) [0..<dims cfg]
         in g\<lparr>force_i := (force_i g)((s, v) := acc * lambda_v)\<rparr>)
      else g)"

definition forcegrid_site :: "config \<Rightarrow> grid \<Rightarrow> site \<Rightarrow> grid" where
  "forcegrid_site cfg g s =
     foldl (forcegrid_dir cfg s)
       (if GRAVITY_ON cfg
        then g\<lparr>force_xyz := (force_xyz g)((s, grav_direction cfg) :=
                 force_xyz g (s, grav_direction cfg) + rho g s * grav_force cfg)\<rparr>
        else g)
       [0..<nVels cfg]"

definition LBM_forcegrid :: "config \<Rightarrow> bool \<Rightarrow> grid \<Rightarrow> grid" where
  "LBM_forcegrid cfg reset_flag g =
     (if reset_flag then g\<lparr>force_i := (\<lambda>q. 0), force_xyz := (\<lambda>q. 0)\<rparr>
      else foldl (forcegrid_site cfg) g (sites g))"

subsection \<open>The multi-grid driver\<close>

text \<open>
  A grid object with its member \<open>subGrid\<close>, the vector of the grids that refine it.

  Modelled from the spec: \<^verbatim>\<open>GridUtils::getGrid\<close> is not among the sources. Explode and
  coalesce ask it for the grid of the next level with the given region number; the
  model takes the element of \<open>subGrid\<close> at that index, the grid on which the driver
  calls itself for the same region.
\<close>

datatype GridObj = GridObj (fields: grid) (subGrid: "GridObj list")

text \<open>The hierarchy without the data of its grids.\<close>

datatype shape = Shape "shape list"

fun shape_of :: "GridObj \<Rightarrow> shape" where
  "shape_of (GridObj s subs) = Shape (map shape_of subs)"

text \<open>The boundary passes of the driver, each compiled in under its own condition.\<close>

definition bc_regularised :: "config \<Rightarrow> grid \<Rightarrow> grid" where
  "bc_regularised cfg g =
     (if INLET_ON cfg \<and> INLET_REGULARISED cfg \<and> \<not> INLET_DO_NOTHING cfg
      then LBM_boundary cfg 2 g else g)"

definition bc_pre_stream :: "config \<Rightarrow> grid \<Rightarrow> grid" where
  "bc_pre_stream cfg g =
     (let g1 = (if (INLET_ON cfg \<or> OUTLET_ON cfg)
                   \<and> (\<not> INLET_DO_NOTHING cfg \<and> \<not> INLET_REGULARISED cfg)
                then LBM_boundary cfg 2 g else g)
      in if SOLID_BLOCK_ON cfg \<or> WALLS_ON cfg then LBM_boundary cfg 1 g1 else g1)"

definition bc_bfl :: "config \<Rightarrow> grid \<Rightarrow> grid" where
  "bc_bfl cfg g = (if BFL_ON cfg then LBM_boundary cfg 5 g else g)"

definition bc_outlet :: "config \<Rightarrow> grid \<Rightarrow> grid" where
  "bc_outlet cfg g = (if OUTLET_ON cfg then LBM_boundary cfg 3 g else g)"

definition mpi_step :: "config \<Rightarrow> grid \<Rightarrow> grid" where
  "mpi_step cfg g = (if BUILD_FOR_MPI cfg then mpi_communicate cfg g else g)"

text \<open>The loop \<^verbatim>\<open>for (reg = 0; reg < regions; reg++) LBM_coalesce(reg)\<close>.\<close>

definition coalesce_regions :: "config \<Rightarrow> grid \<Rightarrow> GridObj list \<Rightarrow> grid" where
  "coalesce_regions cfg p subs =
     foldl (\<lambda>pg reg. LBM_coalesce cfg pg (fields (subs ! reg))) p [0..<length subs]"

text \<open>The statement \<^verbatim>\<open>t++\<close>.\<close>

definition tick :: "grid \<Rightarrow> grid" where
  "tick g = g\<lparr>t := t g + 1\<rparr>"

text \<open>
  The start of \<^verbatim>\<open>GridObj::LBM_multi\<close>: a build without \<^verbatim>\<open>IBM_ON\<close> resets the force
  arrays; a build with it does so only in the predictor call on level 0 (where it also
  keeps copies of \<open>f\<close>, \<open>u\<close> and \<open>rho\<close>, which are the members of the grid \<open>s\<close> handed
  to \<open>ibm_restore\<close> below).
\<close>

definition ibm_pre :: "config \<Rightarrow> bool \<Rightarrow> grid \<Rightarrow> grid" where
  "ibm_pre cfg IBM_flag s =
     (if IBM_ON cfg
      then (if level s = 0 \<and> IBM_flag then LBM_forcegrid cfg True s else s)
      else LBM_forcegrid cfg True s)"

text \<open>
  The statements of the predictor call between the kernel and the relaunch: reset the
  forces, apply the immersed-boundary forcing, restore the stored \<open>f\<close>, \<open>u\<close>, \<open>rho\<close> of
  the grid \<open>s\<close> at entry, and take back one tick.
\<close>

definition ibm_restore :: "config \<Rightarrow> grid \<Rightarrow> grid \<Rightarrow> grid" where
  "ibm_restore cfg s s3 =
     (let s4 = ibm_apply cfg (LBM_forcegrid cfg True s3);
          s5 = s4\<lparr>f := f s, u := u s, rho := rho s\<rparr>
      in s5\<lparr>t := t s5 - 1\<rparr>)"

text \<open>
  \<^verbatim>\<open>GridObj::LBM_multi\<close>. \<open>LBM_regions\<close> is the loop over the regions that explodes into
  a child and calls the driver on it; \<open>LBM_kernel\<close> is one pass of the body of the
  \<^verbatim>\<open>do ... while (count < 3)\<close> loop, up to the update of the macroscopic quantities;
  \<open>LBM_multi\<close> is the routine itself: a first pass; on every level but 0 the counter
  \<open>t\<close> is advanced and a second pass follows; the counter is advanced and the loop is
  left; then comes the predictor-corrector relaunch of the immersed-boundary build
  and the MPI communication. The timing statistics and the log output are not part
  of the model, and neither is the copy \<open>f_prestream\<close> kept by the object manager in a
  build with \<^verbatim>\<open>BFL_ON\<close>.
\<close>

function LBM_multi :: "config \<Rightarrow> bool \<Rightarrow> GridObj \<Rightarrow> GridObj"
  and LBM_kernel :: "config \<Rightarrow> bool \<Rightarrow> grid \<Rightarrow> GridObj list \<Rightarrow> grid \<times> GridObj list"
  and LBM_regions :: "config \<Rightarrow> bool \<Rightarrow> grid \<Rightarrow> GridObj list \<Rightarrow> GridObj list"
where
  "LBM_multi cfg IBM_flag (GridObj s subs) =
     (case LBM_kernel cfg IBM_flag (ibm_pre cfg IBM_flag s) subs of
        (s1, subs1) \<Rightarrow>
          (case (if level s1 = 0 then (s1, subs1)
                 else LBM_kernel cfg IBM_flag (tick s1) subs1) of
             (s2, subs2) \<Rightarrow>
               if IBM_ON cfg \<and> level (tick s2) = 0 \<and> IBM_flag
               then (case LBM_multi cfg False (GridObj (ibm_restore cfg s (tick s2)) subs2) of
                       GridObj s6 subs6 \<Rightarrow>
                         GridObj (mpi_step cfg (ibm_move_bodies cfg s6)) subs6)
               else GridObj (mpi_step cfg (tick s2)) subs2))"
| "LBM_kernel cfg IBM_flag s subs =
     (let s1 = LBM_collide cfg (LBM_forcegrid cfg False (bc_regularised cfg s))
      in if NumLev cfg > level s1
         then (let subs1 = LBM_regions cfg IBM_flag s1 subs
               in (LBM_macro cfg (bc_outlet cfg
                     (coalesce_regions cfg
                        (bc_bfl cfg (LBM_stream cfg (bc_pre_stream cfg s1))) subs1)),
                   subs1))
         else (LBM_macro cfg (bc_outlet cfg (bc_bfl cfg (LBM_stream cfg (bc_pre_stream cfg s1)))),
               subs))"
| "LBM_regions cfg IBM_flag p [] = []"
| "LBM_regions cfg IBM_flag p (ch # chs) =
     LBM_multi cfg IBM_flag (GridObj (LBM_explode cfg p (fields ch)) (subGrid ch))
       # LBM_regions cfg IBM_flag p chs"
  by pat_completeness auto

text \<open>
  The driver runs its second pass, and the corrector, on the children that the first
  pass returns. It terminates because no call changes the shape of the hierarchy: this
  is first shown for the arguments on which the driver is defined.
\<close>

lemma driver_shape_partial:
  "LBM_multi_LBM_kernel_LBM_regions_dom (Inl (cfg, flag, g)) \<Longrightarrow>
     shape_of (LBM_multi cfg flag g) = shape_of g"
  "LBM_multi_LBM_kernel_LBM_regions_dom (Inr (Inl (cfg, flag, s, subs))) \<Longrightarrow>
     map shape_of (snd (LBM_kernel cfg flag s subs)) = map shape_of subs"
  "LBM_multi_LBM_kernel_LBM_regions_dom (Inr (Inr (cfg, flag, p, chs))) \<Longrightarrow>
     map shape_of (LBM_regions cfg flag p chs) = map shape_of chs"
proof (induct rule: LBM_multi_LBM_kernel_LBM_regions.pinduct)
  case (1 cfg IBM_flag s subs)
  obtain s1 subs1 where k1: "LBM_kernel cfg IBM_flag (ibm_pre cfg IBM_flag s) subs = (s1, subs1)"
    by (metis surj_pair)
  have sh1: "map shape_of subs1 = map shape_of subs" using 1(2) k1 by simp
  obtain s2 subs2 where k2: "(if level s1 = 0 then (s1, subs1)
                 else LBM_kernel cfg IBM_flag (tick s1) subs1) = (s2, subs2)"
    by (metis surj_pair)
  have sh2: "map shape_of subs2 = map shape_of subs1"
  proof (cases "level s1 = 0")
    case True
    then show ?thesis using k2 by simp
  next
    case False
    then show ?thesis using 1(3)[OF k1[symmetric] False] k2 by simp
  qed
  show ?case
  proof (cases "IBM_ON cfg \<and> level (tick s2) = 0 \<and> IBM_flag")
    case True
    obtain s6 subs6 where
      m: "LBM_multi cfg False (GridObj (ibm_restore cfg s (tick s2)) subs2) = GridObj s6 subs6"
      by (metis GridObj.exhaust)
    have "map shape_of subs6 = map shape_of subs2"
      using 1(4)[OF k1[symmetric] k2[symmetric] True] m by simp
    moreover have "LBM_multi cfg IBM_flag (GridObj s subs) =
        GridObj (mpi_step cfg (ibm_move_bodies cfg s6)) subs6"
      unfolding LBM_multi.psimps[OF 1(1)] k1 prod.case k2 using True m by simp
    ultimately show ?thesis using sh1 sh2 by simp
  next
    case False
    then show ?thesis using k1 k2 sh1 sh2 by (auto simp add: LBM_multi.psimps[OF 1(1)])
  qed
next
  case (2 cfg IBM_flag s subs)
  show ?case
    using 2(2) by (auto simp add: LBM_kernel.psimps[OF 2(1)] Let_def)
next
  case (3 cfg IBM_flag p)
  then show ?case by (simp add: LBM_regions.psimps)
next
  case (4 cfg IBM_flag p ch chs)
  have "shape_of (LBM_multi cfg IBM_flag (GridObj (LBM_explode cfg p (fields ch)) (subGrid ch)))
      = shape_of ch" using 4(2) by (cases ch) simp
  then show ?case
    using 4(3) by (simp add: LBM_regions.psimps(2)[OF 4(1)])
qed

lemma shape_size_eq: "map shape_of xs = map shape_of ys \<Longrightarrow>
    size_list (size \<circ> shape_of) xs = size_list (size \<circ> shape_of) ys"
  by (metis size_list_map)

termination LBM_multi
proof (relation "inv_image (less_than <*lex*> less_than)
     (\<lambda>x. case x of
         Inl (cfg, flag, g) \<Rightarrow> (size (shape_of g), if flag then 3 else 2)
       | Inr (Inl (cfg, flag, s, subs)) \<Rightarrow> (Suc (size_list size (map shape_of subs)), 1::nat)
       | Inr (Inr (cfg, flag, p, chs)) \<Rightarrow> (size_list size (map shape_of chs), 4))",
    goal_cases)
  case 1
  show ?case by (intro wf_inv_image wf_lex_prod wf_less_than)
next
  case (2 cfg IBM_flag s subs)
  show ?case by simp
next
  case (3 cfg IBM_flag s subs x y)
  have "map shape_of y = map shape_of subs"
    using driver_shape_partial(2)[OF 3(3)] 3(1)[symmetric] by simp
  then show ?case using shape_size_eq[of y subs] by simp
next
  case (4 cfg IBM_flag s subs x y xa ya)
  have a: "map shape_of y = map shape_of subs"
    using driver_shape_partial(2)[OF 4(5)] 4(1)[symmetric] by simp
  have b: "map shape_of ya = map shape_of y"
  proof (cases "level x = 0")
    case True
    then show ?thesis using 4(2) by simp
  next
    case False
    then show ?thesis
      using driver_shape_partial(2)[OF 4(4)[OF False]] 4(2)[symmetric] by simp
  qed
  have e: "size_list (size \<circ> shape_of) ya = size_list (size \<circ> shape_of) subs"
    using a b shape_size_eq[of ya subs] by simp
  have fl: "IBM_flag" using 4(3) by simp
  have "size (shape_of (GridObj (ibm_restore cfg s (tick xa)) ya)) = size (shape_of (GridObj s subs))"
    using e by (simp add: comp_def)
  then show ?case using fl by simp
next
  case (5 cfg IBM_flag s subs x)
  show ?case by simp
next
  case (6 cfg IBM_flag p ch chs)
  show ?case by (cases ch) simp
next
  case (7 cfg IBM_flag p ch chs)
  show ?case by (simp add: comp_def)
qed

declare LBM_multi.simps [simp del] LBM_kernel.simps [simp del]

subsection \<open>The schedule of one driver call\<close>

text \<open>
  The steps of the driver as the description names them: the reset of the forces at
  the start of a call, the boundary pass before the collision, the forcing, the
  collision, the explode into the child of a region, the boundary passes before the
  streaming, the streaming, the boundary pass after it, the coalesce from the child of
  a region, the outlet pass, the macroscopic update, the advance of the counter \<open>t\<close>
  and the MPI communication.
\<close>

datatype op =
    OpReset | OpBoundaryIn | OpForce | OpCollide | OpExplode nat
  | OpBoundaryPre | OpStream | OpBoundaryBfl | OpCoalesce nat
  | OpBoundaryOut | OpMacro | OpTick | OpMpi

text \<open>
  A step together with the grid that performs it: the path of region numbers that
  leads to the grid from the grid on which the driver is called.
\<close>

type_synonym event = "nat list \<times> op"

text \<open>The function \<open>h\<close> applied to the grid at the end of a path.\<close>

fun apply_at :: "nat list \<Rightarrow> (GridObj \<Rightarrow> GridObj) \<Rightarrow> GridObj \<Rightarrow> GridObj" where
  "apply_at [] h g = h g"
| "apply_at (r # path) h (GridObj s subs) = GridObj s (subs[r := apply_at path h (subs ! r)])"

text \<open>
  What a step does to the grid that performs it: the routine of the kernel with that
  name. Explode writes the child of the region, coalesce reads it.
\<close>

fun exec_op :: "config \<Rightarrow> bool \<Rightarrow> op \<Rightarrow> GridObj \<Rightarrow> GridObj" where
  "exec_op cfg IBM_flag OpReset (GridObj s subs) = GridObj (ibm_pre cfg IBM_flag s) subs"
| "exec_op cfg IBM_flag OpBoundaryIn (GridObj s subs) = GridObj (bc_regularised cfg s) subs"
| "exec_op cfg IBM_flag OpForce (GridObj s subs) = GridObj (LBM_forcegrid cfg False s) subs"
| "exec_op cfg IBM_flag OpCollide (GridObj s subs) = GridObj (LBM_collide cfg s) subs"
| "exec_op cfg IBM_flag (OpExplode reg) (GridObj s subs) =
     GridObj s (subs[reg := GridObj (LBM_explode cfg s (fields (subs ! reg)))
                               (subGrid (subs ! reg))])"
| "exec_op cfg IBM_flag OpBoundaryPre (GridObj s subs) = GridObj (bc_pre_stream cfg s) subs"
| "exec_op cfg IBM_flag OpStream (GridObj s subs) = GridObj (LBM_stream cfg s) subs"
| "exec_op cfg IBM_flag OpBoundaryBfl (GridObj s subs) = GridObj (bc_bfl cfg s) subs"
| "exec_op cfg IBM_flag (OpCoalesce reg) (GridObj s subs) =
     GridObj (LBM_coalesce cfg s (fields (subs ! reg))) subs"
| "exec_op cfg IBM_flag OpBoundaryOut (GridObj s subs) = GridObj (bc_outlet cfg s) subs"
| "exec_op cfg IBM_flag OpMacro (GridObj s subs) = GridObj (LBM_macro cfg s) subs"
| "exec_op cfg IBM_flag OpTick (GridObj s subs) = GridObj (tick s) subs"
| "exec_op cfg IBM_flag OpMpi (GridObj s subs) = GridObj (mpi_step cfg s) subs"

text \<open>A list of steps performed one after the other on a hierarchy.\<close>

definition exec :: "config \<Rightarrow> bool \<Rightarrow> GridObj \<Rightarrow> event \<Rightarrow> GridObj" where
  "exec cfg IBM_flag g ev = apply_at (fst ev) (exec_op cfg IBM_flag (snd ev)) g"

definition run_sched :: "config \<Rightarrow> bool \<Rightarrow> event list \<Rightarrow> GridObj \<Rightarrow> GridObj" where
  "run_sched cfg IBM_flag evs g = foldl (exec cfg IBM_flag) g evs"

text \<open>A step of the child of the region \<open>reg\<close>, seen from the parent.\<close>

definition below :: "nat \<Rightarrow> event \<Rightarrow> event" where
  "below reg ev = (reg # fst ev, snd ev)"

text \<open>
  The order of the steps, as the description tells it with the streaming moved to its
  place in the code. One pass of the body on level \<open>L\<close> is: boundary pass, forcing and
  collision; then for each region in turn the explode and one call of the driver on
  the child; then the boundary passes, the streaming of the level and the boundary
  pass after it; then the coalesce of each region in turn; then the outlet pass and
  the macroscopic update. A call of the driver resets the forces, runs one pass on
  level 0 and two passes with an advance of \<open>t\<close> between them on any other level,
  advances \<open>t\<close> and communicates.
\<close>

fun body_sched :: "nat \<Rightarrow> shape \<Rightarrow> event list"
  and regions_sched :: "nat \<Rightarrow> nat \<Rightarrow> shape list \<Rightarrow> event list"
  and call_sched :: "nat \<Rightarrow> shape \<Rightarrow> event list" where
  "body_sched L (Shape shs) =
     [([], OpBoundaryIn), ([], OpForce), ([], OpCollide)]
     @ regions_sched L 0 shs
     @ [([], OpBoundaryPre), ([], OpStream), ([], OpBoundaryBfl)]
     @ map (\<lambda>reg. ([], OpCoalesce reg)) [0..<length shs]
     @ [([], OpBoundaryOut), ([], OpMacro)]"
| "regions_sched L reg [] = []"
| "regions_sched L reg (sh # shs) =
     ([], OpExplode reg) # map (below reg) (call_sched (Suc L) sh)
     @ regions_sched L (Suc reg) shs"
| "call_sched L sh =
     ([], OpReset) # body_sched L sh
     @ (if L = 0 then [] else ([], OpTick) # body_sched L sh)
     @ [([], OpTick), ([], OpMpi)]"

declare body_sched.simps [simp del] call_sched.simps [simp del]

text \<open>
  The order as the description has it: in one pass of the body the coalesce of every
  region comes before the boundary passes and the streaming of the level. Everything
  else is as in \<open>body_sched\<close>.
\<close>

fun spec_body_sched :: "nat \<Rightarrow> shape \<Rightarrow> event list"
  and spec_regions_sched :: "nat \<Rightarrow> nat \<Rightarrow> shape list \<Rightarrow> event list"
  and spec_call_sched :: "nat \<Rightarrow> shape \<Rightarrow> event list" where
  "spec_body_sched L (Shape shs) =
     [([], OpBoundaryIn), ([], OpForce), ([], OpCollide)]
     @ spec_regions_sched L 0 shs
     @ map (\<lambda>reg. ([], OpCoalesce reg)) [0..<length shs]
     @ [([], OpBoundaryPre), ([], OpStream), ([], OpBoundaryBfl)]
     @ [([], OpBoundaryOut), ([], OpMacro)]"
| "spec_regions_sched L reg [] = []"
| "spec_regions_sched L reg (sh # shs) =
     ([], OpExplode reg) # map (below reg) (spec_call_sched (Suc L) sh)
     @ spec_regions_sched L (Suc reg) shs"
| "spec_call_sched L sh =
     ([], OpReset) # spec_body_sched L sh
     @ (if L = 0 then [] else ([], OpTick) # spec_body_sched L sh)
     @ [([], OpTick), ([], OpMpi)]"

text \<open>
  A call of the driver on level \<open>L\<close>. The predictor call of a build with \<^verbatim>\<open>IBM_ON\<close>
  (level 0 with the flag set) runs the pass once and advances \<open>t\<close>, restores the
  populations and takes back the tick (\<open>ibm_restore\<close>), performs a whole call without
  the flag as corrector, moves the bodies and communicates. Every other call performs
  the steps of \<open>call_sched\<close>.
\<close>

definition driver_call :: "config \<Rightarrow> bool \<Rightarrow> nat \<Rightarrow> GridObj \<Rightarrow> GridObj" where
  "driver_call cfg IBM_flag L g =
     (if IBM_ON cfg \<and> IBM_flag \<and> L = 0
      then (let g1 = run_sched cfg True
                       (([], OpReset) # body_sched 0 (shape_of g) @ [([], OpTick)]) g;
                g2 = run_sched cfg False (call_sched 0 (shape_of g))
                       (GridObj (ibm_restore cfg (fields g) (fields g1)) (subGrid g1))
            in GridObj (mpi_step cfg (ibm_move_bodies cfg (fields g2))) (subGrid g2))
      else run_sched cfg IBM_flag (call_sched L (shape_of g)) g)"

text \<open>
  A hierarchy as the grid construction leaves it: the root has the level given, every
  child has the level of its parent plus one, and only a level below \<open>NumLev\<close> has
  children.
\<close>

fun levels_ok :: "config \<Rightarrow> nat \<Rightarrow> GridObj \<Rightarrow> bool" where
  "levels_ok cfg L (GridObj s subs) =
     (level s = L \<and> (subs \<noteq> [] \<longrightarrow> L < NumLev cfg)
      \<and> (\<forall>ch \<in> set subs. levels_ok cfg (Suc L) ch))"

text \<open>
  What the driver expects of the collaborators it calls between the kernel operations:
  a boundary pass, the MPI communication and the two immersed-boundary calls change
  neither the level nor the tick counter of the grid.
\<close>

definition hooks_ok :: "config \<Rightarrow> bool" where
  "hooks_ok cfg =
     ((\<forall>n g. level (LBM_boundary cfg n g) = level g \<and> t (LBM_boundary cfg n g) = t g)
      \<and> (\<forall>g. level (mpi_communicate cfg g) = level g \<and> t (mpi_communicate cfg g) = t g)
      \<and> (\<forall>g. level (ibm_apply cfg g) = level g \<and> t (ibm_apply cfg g) = t g)
      \<and> (\<forall>g. level (ibm_move_bodies cfg g) = level g \<and> t (ibm_move_bodies cfg g) = t g))"


subsection \<open>A concrete configuration and grid\<close>

definition d2q9_c :: "nat \<Rightarrow> nat \<Rightarrow> int" where
  "d2q9_c d v = [[1, -1, 0, 0, 1, -1, -1, 1, 0], [0, 0, 1, -1, 1, -1, 1, -1, 0],
                 [0, 0, 0, 0, 0, 0, 0, 0, 0]] ! d ! v"

definition d2q9_w :: "nat \<Rightarrow> real" where
  "d2q9_w v = (if v < 4 then 1 / 9 else if v < 8 then 1 / 36 else 4 / 9)"

definition d2q9_opp :: "nat \<Rightarrow> nat" where
  "d2q9_opp v = [1, 0, 3, 2, 5, 4, 7, 6, 8] ! v"

definition demo_cfg :: config where
  "demo_cfg = \<lparr> dims = 2, nVels = 9, c = d2q9_c, w = d2q9_w, cs = 1 / sqrt 3,
     getOpposite = d2q9_opp, NumLev = 0,
     mMRT = (\<lambda>p q. if p = q then 1 else 0), mInvMRT = (\<lambda>p q. if p = q then 1 else 0),
     grav_direction = 0, grav_force = 0,
     USE_MRT = False, PERIODIC_BOUNDARIES = True, BUILD_FOR_MPI = False,
     INLET_ON = False, INLET_DO_NOTHING = False, INLET_REGULARISED = False,
     OUTLET_ON = False, SOLID_BLOCK_ON = False, WALLS_ON = False, BFL_ON = False,
     IBM_ON = False, GRAVITY_ON = False,
     isOnRecvLayer = (\<lambda>x y z. False), isOnSenderLayer = (\<lambda>x y z. False),
     isOverlapPeriodic = (\<lambda>i j k g. False),
     LBM_boundary = (\<lambda>n g. g), ibm_apply = (\<lambda>g. g), ibm_move_bodies = (\<lambda>g. g),
     mpi_communicate = (\<lambda>g. g) \<rparr>"

definition demo_grid :: grid where
  "demo_grid = \<lparr> level = 0, t = 0, XPos = [0, 1], YPos = [0, 1], ZPos = [0],
     CoarseLimsX = (0, 0), CoarseLimsY = (0, 0), CoarseLimsZ = (0, 0),
     omega = 1, mrt_omega = (\<lambda>q. 1),
     LatTyp = (\<lambda>s. if s = (1, 1, 0) then 0 else if s = (0, 1, 0) then 4 else 1),
     f = (\<lambda>p. d2q9_w (snd p)), feq = (\<lambda>p. 0), force_i = (\<lambda>p. 0), force_xyz = (\<lambda>p. 0),
     rho = (\<lambda>s. 1), u = (\<lambda>p. 0),
     rho_timeav = (\<lambda>s. 0), ui_timeav = (\<lambda>p. 0), uiuj_timeav = (\<lambda>p. 0) \<rparr>"

text \<open>
  A child grid of the example grid: it refines the parent site \<open>(0, 1, 0)\<close>; its first
  site is on the receiving transition layer, the other three are fluid.
\<close>

definition demo_child :: grid where
  "demo_child = \<lparr> level = 1, t = 0, XPos = [0, 1 / 2], YPos = [1, 3 / 2], ZPos = [0],
     CoarseLimsX = (0, 0), CoarseLimsY = (1, 1), CoarseLimsZ = (0, 0),
     omega = 1, mrt_omega = (\<lambda>q. 1), LatTyp = (\<lambda>s. if s = (0, 0, 0) then 3 else 1),
     f = (\<lambda>p. 7), feq = (\<lambda>p. 0), force_i = (\<lambda>p. 0), force_xyz = (\<lambda>p. 0),
     rho = (\<lambda>s. 1), u = (\<lambda>p. 0),
     rho_timeav = (\<lambda>s. 0), ui_timeav = (\<lambda>p. 0), uiuj_timeav = (\<lambda>p. 0) \<rparr>"

text \<open>
  The same configuration built for MPI, the example grid with one marked population,
  and the example grid with every site on the transition layer to the finer grid.
\<close>

definition demo_cfg_mpi :: config where
  "demo_cfg_mpi = demo_cfg\<lparr>BUILD_FOR_MPI := True\<rparr>"

definition demo_marked :: grid where
  "demo_marked = demo_grid\<lparr>f := (\<lambda>q. if q = ((1, 0, 0), 0) then 5 else 1 / 9)\<rparr>"

definition demo_tl :: grid where
  "demo_tl = demo_grid\<lparr>LatTyp := (\<lambda>s. 4)\<rparr>"

text \<open>One refined level.\<close>

definition demo_cfg1 :: config where
  "demo_cfg1 = demo_cfg\<lparr>NumLev := 1\<rparr>"

text \<open>
  The example hierarchy: the example grid with every population at 5, and one child
  that refines its site \<open>(0, 1, 0)\<close> and has its four sites on the transition layer to
  the coarser grid.
\<close>

definition demo_coarse :: grid where
  "demo_coarse = demo_grid\<lparr>f := (\<lambda>q. 5)\<rparr>"

definition demo_fine :: grid where
  "demo_fine = demo_child\<lparr>LatTyp := (\<lambda>s. 3)\<rparr>"

definition demo_tree :: GridObj where
  "demo_tree = GridObj demo_coarse [GridObj demo_fine []]"

text \<open>
  One pass of the body, with the advance of \<open>t\<close>, on a grid without children in a build
  without boundary passes; and the child of the example after the explode from the
  collided root, the reset of its forces and its two passes.
\<close>

definition leaf_pass :: "config \<Rightarrow> grid \<Rightarrow> grid" where
  "leaf_pass cfg g =
     tick (LBM_macro cfg (LBM_stream cfg (LBM_collide cfg (LBM_forcegrid cfg False g))))"

definition demo_fine_final :: grid where
  "demo_fine_final =
     leaf_pass demo_cfg1 (leaf_pass demo_cfg1 (LBM_forcegrid demo_cfg1 True
       (LBM_explode demo_cfg1 (LBM_collide demo_cfg1 demo_coarse) demo_fine)))"


subsection \<open>Relations between grid states used in the proofs\<close>

text \<open>The second grid is the first one with another \<open>feq\<close>.\<close>

definition only_feq :: "grid \<Rightarrow> grid \<Rightarrow> bool" where
  "only_feq g g' = (\<exists>fe. g' = g\<lparr>feq := fe\<rparr>)"

text \<open>
  Two grids that the macroscopic sweep cannot tell apart at the site \<open>s\<close>: the members
  the sweep only reads are equal, and the members it writes agree at \<open>s\<close>.
\<close>

definition same_at :: "site \<Rightarrow> grid \<Rightarrow> grid \<Rightarrow> bool" where
  "same_at s a b =
     (f a = f b \<and> force_xyz a = force_xyz b \<and> LatTyp a = LatTyp b \<and> t a = t b
      \<and> level a = level b \<and> rho a s = rho b s \<and> (\<forall>d. u a (s, d) = u b (s, d))
      \<and> rho_timeav a s = rho_timeav b s \<and> (\<forall>d. ui_timeav a (s, d) = ui_timeav b (s, d))
      \<and> (\<forall>n. uiuj_timeav a (s, n) = uiuj_timeav b (s, n)))"

text \<open>
  What the kernel expects of the velocity set: \<open>getOpposite\<close> pairs the directions, the
  velocity of the opposite direction is the negated velocity, every component is
  \<open>-1\<close>, \<open>0\<close> or \<open>1\<close>, and a two-dimensional set has no third component.
\<close>

definition vel_ok :: "config \<Rightarrow> bool" where
  "vel_ok cfg = (\<forall>v < nVels cfg.
       getOpposite cfg v < nVels cfg \<and> getOpposite cfg (getOpposite cfg v) = v
     \<and> (\<forall>d < 3. c cfg d (getOpposite cfg v) = - c cfg d v \<and> \<bar>c cfg d v\<bar> \<le> 1)
     \<and> (dims cfg \<noteq> 3 \<longrightarrow> c cfg 2 v = 0))"

text \<open>The condition under which an off-grid transfer is streamed periodically.\<close>

definition periodic_ok :: "config \<Rightarrow> grid \<Rightarrow> site \<Rightarrow> nat \<Rightarrow> bool" where
  "periodic_ok cfg g s v =
     (PERIODIC_BOUNDARIES cfg \<and> \<not> BUILD_FOR_MPI cfg \<and> level g = 0
      \<and> LatTyp g s = 1 \<and> LatTyp g (wrap_dest cfg g s v) = 1)"

text \<open>The members of the child grid that explode reads and never writes.\<close>

definition explode_frame :: "grid \<Rightarrow> grid \<Rightarrow> bool" where
  "explode_frame g0 a = (LatTyp a = LatTyp g0 \<and> CoarseLimsX a = CoarseLimsX g0
     \<and> CoarseLimsY a = CoarseLimsY g0 \<and> CoarseLimsZ a = CoarseLimsZ g0)"


text \<open>Two grids with the same level and the same tick counter.\<close>

definition same_clock :: "grid \<Rightarrow> grid \<Rightarrow> bool" where
  "same_clock a b = (level a = level b \<and> t a = t b)"

text \<open>
  Two grids with the same level, positions, labels and region limits; and two such grids
  with the same populations as well.
\<close>

definition same_geom :: "grid \<Rightarrow> grid \<Rightarrow> bool" where
  "same_geom a b =
     (level a = level b \<and> XPos a = XPos b \<and> YPos a = YPos b \<and> ZPos a = ZPos b
      \<and> LatTyp a = LatTyp b \<and> CoarseLimsX a = CoarseLimsX b
      \<and> CoarseLimsY a = CoarseLimsY b \<and> CoarseLimsZ a = CoarseLimsZ b)"

definition same_pop :: "grid \<Rightarrow> grid \<Rightarrow> bool" where
  "same_pop a b = (same_geom a b \<and> f a = f b)"


section \<open>Properties\<close>

lemma set_sites: "set (sites g) = {s. on_grid g s}"
  by (force simp: sites_def on_grid_def)

lemma only_feq_refl: "only_feq g g"
  unfolding only_feq_def by (rule exI[of _ "feq g"]) simp

lemma only_feq_upd: "only_feq g g' \<Longrightarrow> only_feq g (g'\<lparr>feq := x\<rparr>)"
  unfolding only_feq_def by auto

lemma only_feq_sel:
  assumes "only_feq g g'"
  shows "f g' = f g" "rho g' = rho g" "u g' = u g" "omega g' = omega g"
    "force_i g' = force_i g" "LatTyp g' = LatTyp g" "mrt_omega g' = mrt_omega g"
  using assms unfolding only_feq_def by auto

lemma only_feq_eq: "only_feq g g' \<Longrightarrow> g' = g\<lparr>feq := feq g'\<rparr>"
  unfolding only_feq_def by auto

lemma only_feq_feq:
  "only_feq g g' \<Longrightarrow> LBM_collide_feq cfg g' i j k v = LBM_collide_feq cfg g i j k v"
  by (simp add: LBM_collide_feq_def only_feq_sel)

lemma foldl_invariant:
  assumes "P a" and "\<And>a x. P a \<Longrightarrow> P (step a x)"
  shows "P (foldl step a xs)"
  using assms(1) by (induction xs arbitrary: a) (simp_all add: assms(2))

lemma bgk_dir_only_feq:
  "only_feq g (fst gf) \<Longrightarrow> only_feq g (fst (collide_bgk_dir cfg i j k gf v))"
  by (cases gf) (simp add: collide_bgk_dir_def Let_def only_feq_upd)

lemma bgk_fold_only_feq:
  "only_feq g (fst gf) \<Longrightarrow> only_feq g (fst (foldl (collide_bgk_dir cfg i j k) gf vs))"
  by (rule foldl_invariant[where P = "\<lambda>gf. only_feq g (fst gf)"]) (simp_all add: bgk_dir_only_feq)

lemma mrt_only_feq:
  "only_feq g (fst gf) \<Longrightarrow> only_feq g (fst (LBM_mrt_collide cfg gf i j k))"
proof -
  assume a: "only_feq g (fst gf)"
  obtain g' fn where gf: "gf = (g', fn)" by (cases gf)
  have "only_feq g (foldl (\<lambda>ga v. ga\<lparr>feq := (feq ga)(((i, j, k), v) := LBM_collide_feq cfg ga i j k v)\<rparr>) g' vs)" for vs
    by (rule foldl_invariant[where P = "only_feq g"]) (use a gf in \<open>simp_all add: only_feq_upd\<close>)
  then show ?thesis by (simp add: gf LBM_mrt_collide_def Let_def)
qed

lemma collide_site_only_feq:
  "only_feq g (fst gf) \<Longrightarrow> only_feq g (fst (collide_site cfg gf s))"
  by (cases s) (simp add: collide_site_def bgk_fold_only_feq mrt_only_feq)

lemma collide_fold_only_feq:
  "only_feq g (fst gf) \<Longrightarrow> only_feq g (fst (foldl (collide_site cfg) gf xs))"
  by (rule foldl_invariant[where P = "\<lambda>gf. only_feq g (fst gf)"]) (simp_all add: collide_site_only_feq)

lemma LBM_collide_frame:
  "LBM_collide cfg g = g\<lparr>f := f (LBM_collide cfg g), feq := feq (LBM_collide cfg g)\<rparr>"
proof -
  obtain g' fn where r: "foldl (collide_site cfg) (g, f g) (sites g) = (g', fn)"
    by (cases "foldl (collide_site cfg) (g, f g) (sites g)")
  have "only_feq g (fst (foldl (collide_site cfg) (g, f g) (sites g)))"
    by (rule collide_fold_only_feq) (simp add: only_feq_refl)
  then have "g' = g\<lparr>feq := feq g'\<rparr>" using r by (simp add: only_feq_eq)
  then have "g'\<lparr>f := fn\<rparr> = g\<lparr>f := fn, feq := feq g'\<rparr>"
    by (metis grid.update_convs(12) grid.update_convs(13) grid.surjective)
  then show ?thesis by (simp add: LBM_collide_def r)
qed

lemma bgk_fold_value:
  assumes "only_feq g (fst gf)"
  shows "snd (foldl (collide_bgk_dir cfg i j k) gf [0..<n]) (s, v) =
    (if s = (i, j, k) \<and> v < n
     then (- omega g * (f g (s, v) - LBM_collide_feq cfg g i j k v)) + f g (s, v) + force_i g (s, v)
     else snd gf (s, v))"
proof (induction n)
  case 0
  then show ?case by simp
next
  case (Suc n)
  obtain g' fn where r: "foldl (collide_bgk_dir cfg i j k) gf [0..<n] = (g', fn)"
    by (cases "foldl (collide_bgk_dir cfg i j k) gf [0..<n]")
  have o: "only_feq g g'"
    using bgk_fold_only_feq[OF assms, of cfg i j k "[0..<n]"] r by simp
  have ih: "fn (s, v) =
    (if s = (i, j, k) \<and> v < n
     then (- omega g * (f g (s, v) - LBM_collide_feq cfg g i j k v)) + f g (s, v) + force_i g (s, v)
     else snd gf (s, v))"
    using Suc r by simp
  have step: "foldl (collide_bgk_dir cfg i j k) gf [0..<Suc n] = collide_bgk_dir cfg i j k (g', fn) n"
    by (simp add: r)
  show ?case
    unfolding step using ih
    by (auto simp add: collide_bgk_dir_def Let_def only_feq_sel[OF o] only_feq_feq[OF o] less_Suc_eq)
qed

lemma mrt_other_site:
  assumes "s \<noteq> (i, j, k)"
  shows "snd (LBM_mrt_collide cfg gf i j k) (s, v) = snd gf (s, v)"
proof -
  have "foldl (\<lambda>fn p. fn(((i, j, k), p) := val p)) fn0 ps (s, v) = fn0 (s, v)" for val fn0 ps
    by (rule foldl_invariant[where P = "\<lambda>fn. fn (s, v) = fn0 (s, v)"]) (use assms in auto)
  then show ?thesis by (cases gf) (simp add: LBM_mrt_collide_def Let_def)
qed

lemma collide_site_skip:
  assumes "only_feq g (fst gf)" "LatTyp g s = 2 \<or> LatTyp g s = 3"
  shows "snd (collide_site cfg gf s0) (s, v) = snd gf (s, v)"
proof (cases "s0 = s")
  case True
  then show ?thesis using assms by (cases s) (auto simp: collide_site_def only_feq_sel)
next
  case False
  then show ?thesis using assms(1)
    by (cases s0) (auto simp: collide_site_def mrt_other_site bgk_fold_value)
qed

lemma collide_fold_skip:
  assumes "only_feq g (fst gf)" "LatTyp g s = 2 \<or> LatTyp g s = 3"
  shows "snd (foldl (collide_site cfg) gf xs) (s, v) = snd gf (s, v)"
  using assms(1)
proof (induction xs arbitrary: gf)
  case Nil
  then show ?case by simp
next
  case (Cons x xs)
  have "only_feq g (fst (collide_site cfg gf x))"
    by (rule collide_site_only_feq) (rule Cons.prems)
  from Cons.IH[OF this] show ?case
    by (simp add: collide_site_skip[OF Cons.prems assms(2)])
qed

lemma collide_site_bgk_value:
  assumes "only_feq g (fst gf)" "\<not> USE_MRT cfg"
  shows "snd (collide_site cfg gf s0) (s, v) =
    (if s = s0 \<and> LatTyp g s \<noteq> 2 \<and> LatTyp g s \<noteq> 3 \<and> v < nVels cfg
     then (- omega g * (f g (s, v) - LBM_collide_feq cfg g (fst s) (fst (snd s)) (snd (snd s)) v))
            + f g (s, v) + force_i g (s, v)
     else snd gf (s, v))"
  using assms
  by (cases s0) (auto simp: collide_site_def bgk_fold_value only_feq_sel)

lemma collide_fold_bgk_value:
  assumes "only_feq g (fst gf)" "\<not> USE_MRT cfg"
  shows "snd (foldl (collide_site cfg) gf xs) (s, v) =
    (if s \<in> set xs \<and> LatTyp g s \<noteq> 2 \<and> LatTyp g s \<noteq> 3 \<and> v < nVels cfg
     then (- omega g * (f g (s, v) - LBM_collide_feq cfg g (fst s) (fst (snd s)) (snd (snd s)) v))
            + f g (s, v) + force_i g (s, v)
     else snd gf (s, v))"
  using assms(1)
proof (induction xs arbitrary: gf)
  case Nil
  then show ?case by simp
next
  case (Cons x xs)
  have "only_feq g (fst (collide_site cfg gf x))"
    by (rule collide_site_only_feq) (rule Cons.prems)
  from Cons.IH[OF this] show ?case
    by (auto simp add: collide_site_bgk_value[OF Cons.prems assms(2)])
qed

lemma only_feq_init: "only_feq g (fst (g, x))"
  by (simp add: only_feq_refl)

lemma f_LBM_collide: "f (LBM_collide cfg g) = snd (foldl (collide_site cfg) (g, f g) (sites g))"
  by (simp add: LBM_collide_def split: prod.splits)


lemma bgk_fold_feq:
  assumes "only_feq g (fst gf)"
  shows "feq (fst (foldl (collide_bgk_dir cfg i j k) gf [0..<n])) (s, v) =
    (if s = (i, j, k) \<and> v < n then LBM_collide_feq cfg g i j k v else feq (fst gf) (s, v))"
proof (induction n)
  case 0
  then show ?case by simp
next
  case (Suc n)
  obtain g' fn where r: "foldl (collide_bgk_dir cfg i j k) gf [0..<n] = (g', fn)"
    by (cases "foldl (collide_bgk_dir cfg i j k) gf [0..<n]")
  have o: "only_feq g g'"
    using bgk_fold_only_feq[OF assms, of cfg i j k "[0..<n]"] r by simp
  have ih: "feq g' (s, v) =
    (if s = (i, j, k) \<and> v < n then LBM_collide_feq cfg g i j k v else feq (fst gf) (s, v))"
    using Suc r by simp
  have step: "foldl (collide_bgk_dir cfg i j k) gf [0..<Suc n] = collide_bgk_dir cfg i j k (g', fn) n"
    by (simp add: r)
  show ?case
    unfolding step using ih
    by (auto simp add: collide_bgk_dir_def Let_def only_feq_feq[OF o] less_Suc_eq)
qed

lemma collide_site_bgk_feq:
  assumes "only_feq g (fst gf)" "\<not> USE_MRT cfg"
  shows "feq (fst (collide_site cfg gf s0)) (s, v) =
    (if s = s0 \<and> LatTyp g s \<noteq> 2 \<and> LatTyp g s \<noteq> 3 \<and> v < nVels cfg
     then LBM_collide_feq cfg g (fst s) (fst (snd s)) (snd (snd s)) v
     else feq (fst gf) (s, v))"
  using assms
  by (cases s0) (auto simp: collide_site_def bgk_fold_feq only_feq_sel)

lemma collide_fold_bgk_feq:
  assumes "only_feq g (fst gf)" "\<not> USE_MRT cfg"
  shows "feq (fst (foldl (collide_site cfg) gf xs)) (s, v) =
    (if s \<in> set xs \<and> LatTyp g s \<noteq> 2 \<and> LatTyp g s \<noteq> 3 \<and> v < nVels cfg
     then LBM_collide_feq cfg g (fst s) (fst (snd s)) (snd (snd s)) v
     else feq (fst gf) (s, v))"
  using assms(1)
proof (induction xs arbitrary: gf)
  case Nil
  then show ?case by simp
next
  case (Cons x xs)
  have "only_feq g (fst (collide_site cfg gf x))"
    by (rule collide_site_only_feq) (rule Cons.prems)
  from Cons.IH[OF this] show ?case
    by (auto simp add: collide_site_bgk_feq[OF Cons.prems assms(2)])
qed

lemma feq_LBM_collide: "feq (LBM_collide cfg g) = feq (fst (foldl (collide_site cfg) (g, f g) (sites g)))"
  by (simp add: LBM_collide_def split: prod.splits)

lemma feq_LBM_collide_bgk:
  assumes "\<not> USE_MRT cfg" "on_grid g (i, j, k)" "v < nVels cfg"
    "LatTyp g (i, j, k) \<noteq> 2" "LatTyp g (i, j, k) \<noteq> 3"
  shows "feq (LBM_collide cfg g) ((i, j, k), v) = LBM_collide_feq cfg g i j k v"
  using assms(2-)
  by (simp add: feq_LBM_collide collide_fold_bgk_feq[OF only_feq_init assms(1)] set_sites)

lemma demo_on_grid: "on_grid demo_grid (0, 0, 0)"
  by (simp add: on_grid_def demo_grid_def N_lim_def M_lim_def K_lim_def)

lemma demo_feq_0: "LBM_collide_feq demo_cfg demo_grid 0 0 0 0 = 1 / 9"
  by (simp add: LBM_collide_feq_def demo_cfg_def demo_grid_def d2q9_w_def)

lemma feq_A_3: "dims cfg = 3 \<Longrightarrow> feq_A_spec cfg g s v =
   real_of_int (c cfg 0 v) * u g (s, 0) + real_of_int (c cfg 1 v) * u g (s, 1) + real_of_int (c cfg 2 v) * u g (s, 2)"
  by (simp add: feq_A_spec_def eval_nat_numeral lessThan_Suc)

lemma feq_B_3: "dims cfg = 3 \<Longrightarrow> feq_B_spec cfg g s v =
     (real_of_int (c cfg 0 v) ^ 2 - cs cfg ^ 2) * u g (s, 0) ^ 2
   + (real_of_int (c cfg 1 v) ^ 2 - cs cfg ^ 2) * u g (s, 1) ^ 2
   + (real_of_int (c cfg 2 v) ^ 2 - cs cfg ^ 2) * u g (s, 2) ^ 2
   + 2 * real_of_int (c cfg 0 v) * real_of_int (c cfg 1 v) * u g (s, 0) * u g (s, 1)
   + 2 * real_of_int (c cfg 0 v) * real_of_int (c cfg 2 v) * u g (s, 0) * u g (s, 2)
   + 2 * real_of_int (c cfg 1 v) * real_of_int (c cfg 2 v) * u g (s, 1) * u g (s, 2)"
  by (simp add: feq_B_spec_def eval_nat_numeral lessThan_Suc algebra_simps)

lemma feq_A_2: "dims cfg = 2 \<Longrightarrow> feq_A_spec cfg g s v =
   real_of_int (c cfg 0 v) * u g (s, 0) + real_of_int (c cfg 1 v) * u g (s, 1)"
  by (simp add: feq_A_spec_def eval_nat_numeral lessThan_Suc)

lemma feq_B_2: "dims cfg = 2 \<Longrightarrow> feq_B_spec cfg g s v =
     (real_of_int (c cfg 0 v) ^ 2 - cs cfg ^ 2) * u g (s, 0) ^ 2
   + (real_of_int (c cfg 1 v) ^ 2 - cs cfg ^ 2) * u g (s, 1) ^ 2
   + 2 * real_of_int (c cfg 0 v) * real_of_int (c cfg 1 v) * u g (s, 0) * u g (s, 1)"
  by (simp add: feq_B_spec_def eval_nat_numeral lessThan_Suc algebra_simps)

text \<open>
  Claim C6. In a two- or three-dimensional build with a non-zero lattice sound speed,
  the equilibrium overload returns \<open>\<rho> w\<^sub>v (1 + A / cs\<^sup>2 + B / (2 cs\<^sup>4))\<close> with
  \<open>A = c\<^sub>v \<cdot> u\<close> and \<open>B = \<Sum>a b. (c\<^sub>v\<^sub>a c\<^sub>v\<^sub>b - cs\<^sup>2 \<delta>\<^sub>a\<^sub>b) u\<^sub>a u\<^sub>b\<close>, and when every velocity
  component of the site is zero it returns exactly \<open>\<rho> w\<^sub>v\<close>, for every density.
\<close>

theorem C6_equilibrium:
  assumes "dims cfg = 2 \<or> dims cfg = 3" and "cs cfg \<noteq> 0"
  shows "LBM_collide_feq cfg g i j k v = feq_spec cfg g (i, j, k) v
       \<and> ((\<forall>a < dims cfg. u g ((i, j, k), a) = 0) \<longrightarrow>
            LBM_collide_feq cfg g i j k v = rho g (i, j, k) * w cfg v)"
proof -
  have spec: "LBM_collide_feq cfg g i j k v = feq_spec cfg g (i, j, k) v"
  proof (cases "dims cfg = 3")
    case True
    then show ?thesis
      by (simp add: LBM_collide_feq_def feq_spec_def feq_A_3 feq_B_3 Let_def)
  next
    case False
    with assms(1) have "dims cfg = 2" by simp
    then show ?thesis
      by (simp add: LBM_collide_feq_def feq_spec_def feq_A_2 feq_B_2 Let_def)
  qed
  have rest: "LBM_collide_feq cfg g i j k v = rho g (i, j, k) * w cfg v"
    if "\<forall>a < dims cfg. u g ((i, j, k), a) = 0"
    using assms that by (auto simp add: LBM_collide_feq_def Let_def)
  show ?thesis using spec rest by blast
qed

text \<open>The hypotheses of C6 hold for the D2Q9 configuration at a site at rest.\<close>

theorem C6_equilibrium_witness:
  "(dims demo_cfg = 2 \<or> dims demo_cfg = 3) \<and> cs demo_cfg \<noteq> 0
   \<and> u demo_grid ((0, 0, 0), 0) = 0 \<and> u demo_grid ((0, 0, 0), 1) = 0
   \<and> LBM_collide_feq demo_cfg demo_grid 0 0 0 4 = feq_spec demo_cfg demo_grid (0, 0, 0) 4
   \<and> LBM_collide_feq demo_cfg demo_grid 0 0 0 4 = 1 / 36"
  using C6_equilibrium[of demo_cfg demo_grid 0 0 0 4]
  by (simp add: demo_cfg_def demo_grid_def d2q9_w_def)


text \<open>
  Claim C9, amended. A collision sweep (BGK or MRT) changes two members of the grid and
  no other: the populations \<open>f\<close> and the stored equilibrium \<open>feq\<close>. Density,
  velocity, both force arrays, the labels, the averages and every other member are
  the same before and after.
\<close>

theorem C9_collision_frame:
  "LBM_collide cfg g = g\<lparr>f := f (LBM_collide cfg g), feq := feq (LBM_collide cfg g)\<rparr>"
  by (rule LBM_collide_frame)

text \<open>
  Claim C9 as stated fails: on the example grid the sweep leaves a grid that differs
  from the old one in more than \<open>f\<close>, because \<open>feq\<close> has been assigned.
\<close>

theorem C9_feq_changes:
  "LBM_collide demo_cfg demo_grid \<noteq> demo_grid\<lparr>f := f (LBM_collide demo_cfg demo_grid)\<rparr>"
proof
  assume "LBM_collide demo_cfg demo_grid = demo_grid\<lparr>f := f (LBM_collide demo_cfg demo_grid)\<rparr>"
  then have "feq (LBM_collide demo_cfg demo_grid) = feq (demo_grid\<lparr>f := f (LBM_collide demo_cfg demo_grid)\<rparr>)"
    by simp
  then have "feq (LBM_collide demo_cfg demo_grid) ((0, 0, 0), 0) = feq demo_grid ((0, 0, 0), 0)"
    by simp
  moreover have "feq (LBM_collide demo_cfg demo_grid) ((0, 0, 0), 0) = 1 / 9"
    using feq_LBM_collide_bgk[of demo_cfg demo_grid 0 0 0 0] demo_on_grid demo_feq_0
    by (simp add: demo_cfg_def demo_grid_def)
  ultimately show False by (simp add: demo_grid_def)
qed

lemma sites_product:
  "sites g = List.product [0..N_lim g - 1] (List.product [0..M_lim g - 1] [0..K_lim g - 1])"
  by (simp add: sites_def product_concat_map map_concat comp_def)

lemma distinct_sites: "distinct (sites g)"
  by (simp add: sites_product distinct_product)

lemma same_at_refl: "same_at s a a"
  by (simp add: same_at_def)

lemma same_at_trans: "same_at s a b \<Longrightarrow> same_at s b d \<Longrightarrow> same_at s a d"
  by (simp add: same_at_def)

lemma foldl_lockstep:
  assumes "R a b" and "\<And>a b x. R a b \<Longrightarrow> R (step a x) (step b x)"
  shows "R (foldl step a xs) (foldl step b xs)"
  using assms(1) by (induction xs arbitrary: a b) (simp_all add: assms(2))

lemma macro_site_same_at:
  "same_at (i, j, k) a b \<Longrightarrow> same_at (i, j, k) (LBM_macro_site cfg a i j k) (LBM_macro_site cfg b i j k)"
  by (simp add: same_at_def LBM_macro_site_def Let_def)

lemma macro_site_other:
  "s \<noteq> (i, j, k) \<Longrightarrow> same_at s (LBM_macro_site cfg a i j k) a"
  by (simp add: same_at_def LBM_macro_site_def Let_def)

lemma timeav_q_same_at:
  assumes "same_at s (fst x) (fst y) \<and> snd x = snd y"
  shows "same_at s (fst (timeav_q s p x q)) (fst (timeav_q s p y q)) \<and> snd (timeav_q s p x q) = snd (timeav_q s p y q)"
  using assms by (cases x; cases y) (simp add: timeav_q_def same_at_def)

lemma timeav_p_same_at:
  assumes "same_at s (fst x) (fst y) \<and> snd x = snd y"
  shows "same_at s (fst (timeav_p cfg s x p)) (fst (timeav_p cfg s y p)) \<and> snd (timeav_p cfg s x p) = snd (timeav_p cfg s y p)"
proof -
  obtain a n b m where xy: "x = (a, n)" "y = (b, m)" by (cases x; cases y)
  have "same_at s (fst (a\<lparr>ui_timeav := (ui_timeav a)((s, p) := timeav_update (ui_timeav a (s, p)) (t a) (u a (s, p)))\<rparr>, n))
     (fst (b\<lparr>ui_timeav := (ui_timeav b)((s, p) := timeav_update (ui_timeav b (s, p)) (t b) (u b (s, p)))\<rparr>, m))
    \<and> snd (a\<lparr>ui_timeav := (ui_timeav a)((s, p) := timeav_update (ui_timeav a (s, p)) (t a) (u a (s, p)))\<rparr>, n)
      = snd (b\<lparr>ui_timeav := (ui_timeav b)((s, p) := timeav_update (ui_timeav b (s, p)) (t b) (u b (s, p)))\<rparr>, m)"
    using assms by (simp add: xy same_at_def)
  then show ?thesis
    unfolding xy timeav_p_def prod.case
    by (rule foldl_lockstep[where R = "\<lambda>x y. same_at s (fst x) (fst y) \<and> snd x = snd y"])
       (rule timeav_q_same_at)
qed

lemma macro_timeav_same_at:
  assumes "same_at s a b"
  shows "same_at s (macro_timeav cfg a s) (macro_timeav cfg b s)"
proof -
  have "same_at s (fst (a\<lparr>rho_timeav := (rho_timeav a)(s := timeav_update (rho_timeav a s) (t a) (rho a s))\<rparr>, 0::nat))
     (fst (b\<lparr>rho_timeav := (rho_timeav b)(s := timeav_update (rho_timeav b s) (t b) (rho b s))\<rparr>, 0::nat))
    \<and> snd (a\<lparr>rho_timeav := (rho_timeav a)(s := timeav_update (rho_timeav a s) (t a) (rho a s))\<rparr>, 0::nat)
      = snd (b\<lparr>rho_timeav := (rho_timeav b)(s := timeav_update (rho_timeav b s) (t b) (rho b s))\<rparr>, 0::nat)"
    using assms by (simp add: same_at_def)
  then have "same_at s (fst (foldl (timeav_p cfg s) (a\<lparr>rho_timeav := (rho_timeav a)(s := timeav_update (rho_timeav a s) (t a) (rho a s))\<rparr>, 0) [0..<dims cfg]))
     (fst (foldl (timeav_p cfg s) (b\<lparr>rho_timeav := (rho_timeav b)(s := timeav_update (rho_timeav b s) (t b) (rho b s))\<rparr>, 0) [0..<dims cfg]))
    \<and> snd (foldl (timeav_p cfg s) (a\<lparr>rho_timeav := (rho_timeav a)(s := timeav_update (rho_timeav a s) (t a) (rho a s))\<rparr>, 0) [0..<dims cfg])
      = snd (foldl (timeav_p cfg s) (b\<lparr>rho_timeav := (rho_timeav b)(s := timeav_update (rho_timeav b s) (t b) (rho b s))\<rparr>, 0) [0..<dims cfg])"
    by (rule foldl_lockstep[where R = "\<lambda>x y. same_at s (fst x) (fst y) \<and> snd x = snd y"])
       (rule timeav_p_same_at)
  then show ?thesis by (simp add: macro_timeav_def)
qed

lemma timeav_q_other:
  assumes "s \<noteq> x" "same_at s (fst gn) a"
  shows "same_at s (fst (timeav_q x p gn q)) a"
  using assms by (cases gn) (simp add: timeav_q_def same_at_def)

lemma timeav_p_other:
  assumes "s \<noteq> x" "same_at s (fst gn) a"
  shows "same_at s (fst (timeav_p cfg x gn p)) a"
proof -
  obtain b n where gn: "gn = (b, n)" by (cases gn)
  have "same_at s (fst (b\<lparr>ui_timeav := (ui_timeav b)((x, p) := timeav_update (ui_timeav b (x, p)) (t b) (u b (x, p)))\<rparr>, n)) a"
    using assms by (simp add: gn same_at_def)
  then show ?thesis
    unfolding gn timeav_p_def prod.case
    by (rule foldl_invariant[where P = "\<lambda>gn. same_at s (fst gn) a"])
       (rule timeav_q_other[OF assms(1)])
qed

lemma macro_timeav_other:
  assumes "s \<noteq> x" "same_at s b a"
  shows "same_at s (macro_timeav cfg b x) a"
proof -
  have "same_at s (fst (b\<lparr>rho_timeav := (rho_timeav b)(x := timeav_update (rho_timeav b x) (t b) (rho b x))\<rparr>, 0::nat)) a"
    using assms by (simp add: same_at_def)
  then have "same_at s (fst (foldl (timeav_p cfg x) (b\<lparr>rho_timeav := (rho_timeav b)(x := timeav_update (rho_timeav b x) (t b) (rho b x))\<rparr>, 0) [0..<dims cfg])) a"
    by (rule foldl_invariant[where P = "\<lambda>gn. same_at s (fst gn) a"])
       (rule timeav_p_other[OF assms(1)])
  then show ?thesis by (simp add: macro_timeav_def)
qed

lemma macro_step_same_at:
  "same_at s a b \<Longrightarrow> same_at s (macro_step cfg a s) (macro_step cfg b s)"
  by (cases s) (simp add: macro_step_def macro_timeav_same_at macro_site_same_at)

lemma macro_step_other:
  "s \<noteq> x \<Longrightarrow> same_at s (macro_step cfg a x) a"
  by (cases x) (simp add: macro_step_def macro_timeav_other macro_site_other)

lemma macro_fold_other:
  assumes "s \<notin> set xs" "same_at s a b"
  shows "same_at s (foldl (macro_step cfg) a xs) b"
  using assms
proof (induction xs arbitrary: a)
  case Nil
  then show ?case by simp
next
  case (Cons x xs)
  then have "s \<noteq> x" by auto
  then have "same_at s (macro_step cfg a x) a" by (rule macro_step_other)
  then have "same_at s (macro_step cfg a x) b" using Cons.prems(2) same_at_trans by blast
  with Cons show ?case by simp
qed

lemma macro_fold_same_at:
  assumes "distinct xs" "s \<in> set xs" "same_at s a g"
  shows "same_at s (foldl (macro_step cfg) a xs) (macro_step cfg g s)"
  using assms
proof (induction xs arbitrary: a)
  case Nil
  then show ?case by simp
next
  case (Cons x xs)
  show ?case
  proof (cases "x = s")
    case True
    have "same_at s (macro_step cfg a s) (macro_step cfg g s)"
      by (rule macro_step_same_at) (rule Cons.prems)
    moreover have "s \<notin> set xs" using Cons.prems(1) True by simp
    ultimately show ?thesis using True by (simp add: macro_fold_other)
  next
    case False
    then have "same_at s (macro_step cfg a x) a" by (simp add: macro_step_other)
    then have "same_at s (macro_step cfg a x) g" using Cons.prems(3) same_at_trans by blast
    from Cons.IH[OF _ _ this] Cons.prems(1,2) False show ?thesis by simp
  qed
qed

lemma LBM_macro_same_at:
  assumes "on_grid g s"
  shows "same_at s (LBM_macro cfg g) (macro_step cfg g s)"
  unfolding LBM_macro_def
  by (rule macro_fold_same_at) (simp_all add: distinct_sites set_sites assms same_at_refl)

lemma timeav_inv:
  "rho (fst (timeav_q s p gn q)) = rho (fst gn) \<and> u (fst (timeav_q s p gn q)) = u (fst gn)"
  by (cases gn) (simp add: timeav_q_def)

lemma timeav_p_inv:
  "rho (fst (timeav_p cfg s gn p)) = rho (fst gn) \<and> u (fst (timeav_p cfg s gn p)) = u (fst gn)"
proof -
  obtain b n where gn: "gn = (b, n)" by (cases gn)
  show ?thesis
    unfolding gn timeav_p_def prod.case
    by (rule foldl_invariant[where P = "\<lambda>x. rho (fst x) = rho (fst (b, n)) \<and> u (fst x) = u (fst (b, n))"])
       (simp_all add: timeav_inv)
qed

lemma macro_timeav_inv:
  "rho (macro_timeav cfg g s) = rho g \<and> u (macro_timeav cfg g s) = u g"
  unfolding macro_timeav_def
  by (rule foldl_invariant[where P = "\<lambda>x. rho (fst x) = rho g \<and> u (fst x) = u g"])
     (simp_all add: timeav_p_inv)

lemma macro_timeav_2d:
  assumes "dims cfg = 2"
  shows "rho_timeav (macro_timeav cfg g s) s = timeav_update (rho_timeav g s) (t g) (rho g s)"
    "ui_timeav (macro_timeav cfg g s) (s, 0) = timeav_update (ui_timeav g (s, 0)) (t g) (u g (s, 0))"
    "ui_timeav (macro_timeav cfg g s) (s, 1) = timeav_update (ui_timeav g (s, 1)) (t g) (u g (s, 1))"
    "uiuj_timeav (macro_timeav cfg g s) (s, 0) = timeav_update (uiuj_timeav g (s, 0)) (t g) (u g (s, 0) * u g (s, 0))"
    "uiuj_timeav (macro_timeav cfg g s) (s, 1) = timeav_update (uiuj_timeav g (s, 1)) (t g) (u g (s, 0) * u g (s, 1))"
    "uiuj_timeav (macro_timeav cfg g s) (s, 2) = timeav_update (uiuj_timeav g (s, 2)) (t g) (u g (s, 1) * u g (s, 1))"
  using assms
  by (simp_all add: macro_timeav_def timeav_p_def timeav_q_def eval_nat_numeral upt_rec)

lemma macro_timeav_3d:
  assumes "dims cfg = 3"
  shows "rho_timeav (macro_timeav cfg g s) s = timeav_update (rho_timeav g s) (t g) (rho g s)"
    "ui_timeav (macro_timeav cfg g s) (s, 0) = timeav_update (ui_timeav g (s, 0)) (t g) (u g (s, 0))"
    "ui_timeav (macro_timeav cfg g s) (s, 1) = timeav_update (ui_timeav g (s, 1)) (t g) (u g (s, 1))"
    "ui_timeav (macro_timeav cfg g s) (s, 2) = timeav_update (ui_timeav g (s, 2)) (t g) (u g (s, 2))"
    "uiuj_timeav (macro_timeav cfg g s) (s, 0) = timeav_update (uiuj_timeav g (s, 0)) (t g) (u g (s, 0) * u g (s, 0))"
    "uiuj_timeav (macro_timeav cfg g s) (s, 1) = timeav_update (uiuj_timeav g (s, 1)) (t g) (u g (s, 0) * u g (s, 1))"
    "uiuj_timeav (macro_timeav cfg g s) (s, 2) = timeav_update (uiuj_timeav g (s, 2)) (t g) (u g (s, 0) * u g (s, 2))"
    "uiuj_timeav (macro_timeav cfg g s) (s, 3) = timeav_update (uiuj_timeav g (s, 3)) (t g) (u g (s, 1) * u g (s, 1))"
    "uiuj_timeav (macro_timeav cfg g s) (s, 4) = timeav_update (uiuj_timeav g (s, 4)) (t g) (u g (s, 1) * u g (s, 2))"
    "uiuj_timeav (macro_timeav cfg g s) (s, 5) = timeav_update (uiuj_timeav g (s, 5)) (t g) (u g (s, 2) * u g (s, 2))"
  using assms
  by (simp_all add: macro_timeav_def timeav_p_def timeav_q_def eval_nat_numeral upt_rec)

lemma macro_timeav_ui:
  assumes "dims cfg = 2 \<or> dims cfg = 3" "p < dims cfg"
  shows "ui_timeav (macro_timeav cfg g s) (s, p) = timeav_update (ui_timeav g (s, p)) (t g) (u g (s, p))"
proof (cases "dims cfg = 3")
  case True
  with assms(2) have "p = 0 \<or> p = 1 \<or> p = 2" by auto
  then show ?thesis using macro_timeav_3d(2,3,4)[OF True, of g s] by auto
next
  case False
  with assms(1) have d: "dims cfg = 2" by simp
  with assms(2) have "p = 0 \<or> p = 1" by auto
  then show ?thesis using macro_timeav_2d(2,3)[OF d, of g s] by auto
qed

lemma uiuj_index_vals:
  "uiuj_index 2 0 0 = 0" "uiuj_index 2 0 1 = 1" "uiuj_index 2 1 1 = 2"
  "uiuj_index 3 0 0 = 0" "uiuj_index 3 0 1 = 1" "uiuj_index 3 0 2 = 2"
  "uiuj_index 3 1 1 = 3" "uiuj_index 3 1 2 = 4" "uiuj_index 3 2 2 = 5"
  "uiuj_index 2 0 (Suc 0) = Suc 0" "uiuj_index 2 (Suc 0) (Suc 0) = 2"
  "uiuj_index 3 0 (Suc 0) = Suc 0" "uiuj_index 3 (Suc 0) (Suc 0) = 3" "uiuj_index 3 (Suc 0) 2 = 4"
  by (simp_all add: uiuj_index_def)

lemma macro_timeav_uiuj:
  assumes "dims cfg = 2 \<or> dims cfg = 3" "p \<le> q" "q < dims cfg"
  shows "uiuj_timeav (macro_timeav cfg g s) (s, uiuj_index (dims cfg) p q) =
    timeav_update (uiuj_timeav g (s, uiuj_index (dims cfg) p q)) (t g) (u g (s, p) * u g (s, q))"
proof (cases "dims cfg = 3")
  case True
  with assms(2,3) have "(p = 0 \<and> q = 0) \<or> (p = 0 \<and> q = 1) \<or> (p = 0 \<and> q = 2)
      \<or> (p = 1 \<and> q = 1) \<or> (p = 1 \<and> q = 2) \<or> (p = 2 \<and> q = 2)" by auto
  then show ?thesis using macro_timeav_3d(5-)[OF True, of g s] True
    by (auto simp add: uiuj_index_vals)
next
  case False
  with assms(1) have d: "dims cfg = 2" by simp
  with assms(2,3) have "(p = 0 \<and> q = 0) \<or> (p = 0 \<and> q = 1) \<or> (p = 1 \<and> q = 1)" by auto
  then show ?thesis using macro_timeav_2d(4-)[OF d, of g s] d
    by (auto simp add: uiuj_index_vals)
qed

lemma macro_site_unchanged:
  "rho_timeav (LBM_macro_site cfg g i j k) = rho_timeav g"
  "ui_timeav (LBM_macro_site cfg g i j k) = ui_timeav g"
  "uiuj_timeav (LBM_macro_site cfg g i j k) = uiuj_timeav g"
  "t (LBM_macro_site cfg g i j k) = t g"
  by (simp_all add: LBM_macro_site_def Let_def)

lemma LBM_macro_rho_u:
  assumes "on_grid g (i, j, k)"
  shows "rho (LBM_macro cfg g) (i, j, k) = rho (LBM_macro_site cfg g i j k) (i, j, k)"
    and "u (LBM_macro cfg g) ((i, j, k), d) = u (LBM_macro_site cfg g i j k) ((i, j, k), d)"
  using LBM_macro_same_at[OF assms, of cfg]
  by (simp_all add: same_at_def macro_step_def macro_timeav_inv)

lemma LBM_macro_timeav:
  assumes "on_grid g s"
  shows "rho_timeav (LBM_macro cfg g) s = rho_timeav (macro_step cfg g s) s"
    and "ui_timeav (LBM_macro cfg g) (s, d) = ui_timeav (macro_step cfg g s) (s, d)"
    and "uiuj_timeav (LBM_macro cfg g) (s, n) = uiuj_timeav (macro_step cfg g s) (s, n)"
  using LBM_macro_same_at[OF assms, of cfg]
  by (simp_all add: same_at_def)

lemma macro_site_solid:
  assumes "dims cfg = 2 \<or> dims cfg = 3" and "LatTyp g (i, j, k) = 0 \<or> LatTyp g (i, j, k) = 5"
  shows "rho (LBM_macro_site cfg g i j k) (i, j, k) = 1"
    and "d < dims cfg \<Longrightarrow> u (LBM_macro_site cfg g i j k) ((i, j, k), d) = 0"
proof -
  show "rho (LBM_macro_site cfg g i j k) (i, j, k) = 1"
    using assms(2) by (auto simp add: LBM_macro_site_def Let_def)
  assume "d < dims cfg"
  with assms(1) have "(dims cfg = 3 \<and> (d = 0 \<or> d = 1 \<or> d = 2)) \<or> (dims cfg = 2 \<and> (d = 0 \<or> d = 1))"
    by auto
  then show "u (LBM_macro_site cfg g i j k) ((i, j, k), d) = 0"
    using assms(2) by (auto simp add: LBM_macro_site_def Let_def)
qed

text \<open>
  Claim C7. At a site labelled 0 or 5 (the two solid labels) the macroscopic recovery
  sets the density to 1 and every velocity component to 0, whatever the populations
  are: this holds for the single-site overload and, at every site of the grid, for
  the full sweep.
\<close>

theorem C7_solid_macro:
  assumes "dims cfg = 2 \<or> dims cfg = 3"
    and "LatTyp g (i, j, k) = 0 \<or> LatTyp g (i, j, k) = 5"
  shows "rho (LBM_macro_site cfg g i j k) (i, j, k) = 1
       \<and> (\<forall>d < dims cfg. u (LBM_macro_site cfg g i j k) ((i, j, k), d) = 0)
       \<and> (on_grid g (i, j, k) \<longrightarrow>
            rho (LBM_macro cfg g) (i, j, k) = 1
          \<and> (\<forall>d < dims cfg. u (LBM_macro cfg g) ((i, j, k), d) = 0))"
  using macro_site_solid[OF assms]
  by (simp add: LBM_macro_rho_u)

lemma demo_on_grid_110: "on_grid demo_grid (1, 1, 0)"
  by (simp add: on_grid_def demo_grid_def N_lim_def M_lim_def K_lim_def)

text \<open>The hypotheses of C7 hold at the solid site of the example grid.\<close>

theorem C7_solid_macro_witness:
  "(dims demo_cfg = 2 \<or> dims demo_cfg = 3) \<and> LatTyp demo_grid (1, 1, 0) = 0
   \<and> on_grid demo_grid (1, 1, 0)
   \<and> rho (LBM_macro_site demo_cfg demo_grid 1 1 0) (1, 1, 0) = 1
   \<and> u (LBM_macro_site demo_cfg demo_grid 1 1 0) ((1, 1, 0), 0) = 0
   \<and> u (LBM_macro_site demo_cfg demo_grid 1 1 0) ((1, 1, 0), 1) = 0
   \<and> rho (LBM_macro demo_cfg demo_grid) (1, 1, 0) = 1
   \<and> u (LBM_macro demo_cfg demo_grid) ((1, 1, 0), 0) = 0
   \<and> u (LBM_macro demo_cfg demo_grid) ((1, 1, 0), 1) = 0"
proof -
  have d: "dims demo_cfg = 2 \<or> dims demo_cfg = 3" by (simp add: demo_cfg_def)
  have l: "LatTyp demo_grid (1, 1, 0) = 0 \<or> LatTyp demo_grid (1, 1, 0) = 5"
    by (simp add: demo_grid_def)
  show ?thesis
    using C7_solid_macro[OF d l] demo_on_grid_110
    by (simp add: demo_cfg_def demo_grid_def)
qed

lemma timeav_update_const: "0 \<le> tt \<Longrightarrow> timeav_update v tt v = v"
proof -
  assume "0 \<le> tt"
  then have nz: "real_of_int tt + 1 \<noteq> 0" by linarith
  have "v * real_of_int tt + v = v * (real_of_int tt + 1)" by (simp add: algebra_simps)
  then show ?thesis using nz by (simp add: timeav_update_def)
qed

lemma timeav_run_const:
  "0 \<le> t0 \<Longrightarrow> foldl (\<lambda>avg tt. timeav_update avg tt v) v (map (\<lambda>m. t0 + int m) [0..<n]) = v"
  by (induction n) (simp_all add: timeav_update_const)

text \<open>
  Claim C8. After the sweep, each running average of a site of the grid is
  \<open>(avg \<cdot> t + new) / (t + 1)\<close>, where \<open>new\<close> is the value the same sweep has just
  recovered: the density, each velocity component, and each product \<open>u\<^sub>p u\<^sub>q\<close> with
  \<open>p \<le> q\<close>. An average that already equals the new value is left equal to it, and
  feeding a constant value from tick \<open>t\<close> on, for any number of ticks, leaves the
  average at that value.
\<close>

theorem C8_time_average:
  assumes "dims cfg = 2 \<or> dims cfg = 3" and "on_grid g (i, j, k)" and "0 \<le> t g"
  shows "rho_timeav (LBM_macro cfg g) (i, j, k) =
           (rho_timeav g (i, j, k) * real_of_int (t g) + rho (LBM_macro cfg g) (i, j, k)) / real_of_int (t g + 1)
       \<and> (\<forall>p < dims cfg. ui_timeav (LBM_macro cfg g) ((i, j, k), p) =
           (ui_timeav g ((i, j, k), p) * real_of_int (t g) + u (LBM_macro cfg g) ((i, j, k), p)) / real_of_int (t g + 1))
       \<and> (\<forall>p q. p \<le> q \<and> q < dims cfg \<longrightarrow>
           uiuj_timeav (LBM_macro cfg g) ((i, j, k), uiuj_index (dims cfg) p q) =
             (uiuj_timeav g ((i, j, k), uiuj_index (dims cfg) p q) * real_of_int (t g)
                + u (LBM_macro cfg g) ((i, j, k), p) * u (LBM_macro cfg g) ((i, j, k), q)) / real_of_int (t g + 1))
       \<and> (rho_timeav g (i, j, k) = rho (LBM_macro cfg g) (i, j, k) \<longrightarrow>
            rho_timeav (LBM_macro cfg g) (i, j, k) = rho_timeav g (i, j, k))
       \<and> (\<forall>p < dims cfg. ui_timeav g ((i, j, k), p) = u (LBM_macro cfg g) ((i, j, k), p) \<longrightarrow>
            ui_timeav (LBM_macro cfg g) ((i, j, k), p) = ui_timeav g ((i, j, k), p))
       \<and> (\<forall>p q. p \<le> q \<and> q < dims cfg
              \<and> uiuj_timeav g ((i, j, k), uiuj_index (dims cfg) p q)
                  = u (LBM_macro cfg g) ((i, j, k), p) * u (LBM_macro cfg g) ((i, j, k), q) \<longrightarrow>
            uiuj_timeav (LBM_macro cfg g) ((i, j, k), uiuj_index (dims cfg) p q)
              = uiuj_timeav g ((i, j, k), uiuj_index (dims cfg) p q))
       \<and> (\<forall>v n. foldl (\<lambda>avg tt. timeav_update avg tt v) v (map (\<lambda>m. t g + int m) [0..<n]) = v)"
proof -
  let ?s = "(i, j, k)"
  let ?g1 = "LBM_macro_site cfg g i j k"
  let ?G = "LBM_macro cfg g"
  have r: "rho ?g1 ?s = rho ?G ?s" and v: "\<And>d. u ?g1 (?s, d) = u ?G (?s, d)"
    using LBM_macro_rho_u[of g i j k cfg] assms(2) by simp_all
  have "rho_timeav (macro_timeav cfg ?g1 ?s) ?s = timeav_update (rho_timeav ?g1 ?s) (t ?g1) (rho ?g1 ?s)"
    using assms(1) macro_timeav_2d(1)[of cfg ?g1 ?s] macro_timeav_3d(1)[of cfg ?g1 ?s] by blast
  then have a1: "rho_timeav ?G ?s = timeav_update (rho_timeav g ?s) (t g) (rho ?G ?s)"
    using LBM_macro_timeav(1)[OF assms(2), of cfg]
    by (simp add: r macro_step_def macro_site_unchanged)
  have a2: "ui_timeav ?G (?s, p) = timeav_update (ui_timeav g (?s, p)) (t g) (u ?G (?s, p))"
    if "p < dims cfg" for p
    using LBM_macro_timeav(2)[OF assms(2), of cfg p] macro_timeav_ui[OF assms(1) that, of ?g1 ?s]
    by (simp add: v macro_step_def macro_site_unchanged)
  have a3: "uiuj_timeav ?G (?s, uiuj_index (dims cfg) p q) =
      timeav_update (uiuj_timeav g (?s, uiuj_index (dims cfg) p q)) (t g)
        (u ?G (?s, p) * u ?G (?s, q))"
    if "p \<le> q" "q < dims cfg" for p q
    using LBM_macro_timeav(3)[OF assms(2), of cfg "uiuj_index (dims cfg) p q"]
      macro_timeav_uiuj[OF assms(1) that, of ?g1 ?s]
    by (simp add: v macro_step_def macro_site_unchanged)
  have c: "timeav_update x (t g) x = x" for x
    by (rule timeav_update_const) (rule assms(3))
  have e: "timeav_update x (t g) y = (x * real_of_int (t g) + y) / real_of_int (t g + 1)" for x y
    by (simp add: timeav_update_def)
  have part1: "rho_timeav ?G ?s =
           (rho_timeav g ?s * real_of_int (t g) + rho ?G ?s) / real_of_int (t g + 1)"
    using a1 e by simp
  have part2: "\<forall>p < dims cfg. ui_timeav ?G (?s, p) =
           (ui_timeav g (?s, p) * real_of_int (t g) + u ?G (?s, p)) / real_of_int (t g + 1)"
    using a2 e by simp
  have part3: "\<forall>p q. p \<le> q \<and> q < dims cfg \<longrightarrow>
           uiuj_timeav ?G (?s, uiuj_index (dims cfg) p q) =
             (uiuj_timeav g (?s, uiuj_index (dims cfg) p q) * real_of_int (t g)
                + u ?G (?s, p) * u ?G (?s, q)) / real_of_int (t g + 1)"
    using a3 e by simp
  have part4: "rho_timeav g ?s = rho ?G ?s \<longrightarrow> rho_timeav ?G ?s = rho_timeav g ?s"
    using a1 c by metis
  have part5: "\<forall>p < dims cfg. ui_timeav g (?s, p) = u ?G (?s, p) \<longrightarrow>
            ui_timeav ?G (?s, p) = ui_timeav g (?s, p)"
    using a2 c by metis
  have part6: "\<forall>p q. p \<le> q \<and> q < dims cfg
              \<and> uiuj_timeav g (?s, uiuj_index (dims cfg) p q) = u ?G (?s, p) * u ?G (?s, q) \<longrightarrow>
            uiuj_timeav ?G (?s, uiuj_index (dims cfg) p q)
              = uiuj_timeav g (?s, uiuj_index (dims cfg) p q)"
    using a3 c by metis
  have part7: "\<forall>v n. foldl (\<lambda>avg tt. timeav_update avg tt v) v (map (\<lambda>m. t g + int m) [0..<n]) = v"
    using timeav_run_const[OF assms(3)] by simp
  show ?thesis using part1 part2 part3 part4 part5 part6 part7 by blast
qed

lemma demo_macro_rho: "rho (LBM_macro demo_cfg demo_grid) (0, 0, 0) = 1"
proof -
  have "rho (LBM_macro_site demo_cfg demo_grid 0 0 0) (0, 0, 0) = 1"
    by (simp add: LBM_macro_site_def demo_cfg_def demo_grid_def d2q9_w_def Let_def eval_nat_numeral upt_rec)
  then show ?thesis using LBM_macro_rho_u(1)[OF demo_on_grid, of demo_cfg] by simp
qed

text \<open>The hypotheses of C8 hold at the first site of the example grid.\<close>

theorem C8_time_average_witness:
  "(dims demo_cfg = 2 \<or> dims demo_cfg = 3) \<and> on_grid demo_grid (0, 0, 0) \<and> 0 \<le> t demo_grid
   \<and> rho_timeav demo_grid (0, 0, 0) = 0
   \<and> rho (LBM_macro demo_cfg demo_grid) (0, 0, 0) = 1
   \<and> rho_timeav (LBM_macro demo_cfg demo_grid) (0, 0, 0) = 1"
proof -
  have d: "dims demo_cfg = 2 \<or> dims demo_cfg = 3" by (simp add: demo_cfg_def)
  have z: "0 \<le> t demo_grid" by (simp add: demo_grid_def)
  show ?thesis
    using C8_time_average[OF d demo_on_grid z] demo_on_grid demo_macro_rho
    by (simp add: demo_cfg_def demo_grid_def)
qed

lemma stream_dir_keep:
  assumes "fn q = x" and "\<And>x'. stream_write cfg g s v = Some (q, x') \<Longrightarrow> x' = x"
  shows "stream_dir cfg g fn s v q = x"
proof (cases "stream_write cfg g s v")
  case None
  then show ?thesis using assms(1) by (simp add: stream_dir_def)
next
  case (Some a)
  obtain q' x' where a: "a = (q', x')" by (cases a)
  show ?thesis
  proof (cases "q' = q")
    case True
    then have "x' = x" using assms(2) Some a by simp
    then show ?thesis using Some a True by (simp add: stream_dir_def)
  next
    case False
    then show ?thesis using Some a assms(1) by (simp add: stream_dir_def)
  qed
qed

lemma stream_dirs_keep:
  assumes "fn q = x"
    and "\<forall>v \<in> set vs. \<forall>x'. LatTyp g s \<noteq> 2 \<longrightarrow> stream_write cfg g s v = Some (q, x') \<longrightarrow> x' = x"
  shows "stream_dirs cfg g fn s vs q = x"
  using assms
proof (induction vs arbitrary: fn)
  case Nil
  then show ?case by simp
next
  case (Cons v vs)
  show ?case
  proof (cases "LatTyp g s = 2")
    case True
    then show ?thesis using Cons.prems(1) by simp
  next
    case False
    have "\<And>x'. stream_write cfg g s v = Some (q, x') \<Longrightarrow> x' = x"
      using Cons.prems(2) False by simp
    then have "stream_dir cfg g fn s v q = x"
      using stream_dir_keep[of fn q x cfg g s v] Cons.prems(1) by blast
    moreover have "\<forall>v \<in> set vs. \<forall>x'. LatTyp g s \<noteq> 2 \<longrightarrow> stream_write cfg g s v = Some (q, x') \<longrightarrow> x' = x"
      using Cons.prems(2) by simp
    ultimately have "stream_dirs cfg g (stream_dir cfg g fn s v) s vs q = x"
      by (rule Cons.IH)
    then show ?thesis using False by simp
  qed
qed

lemma stream_dirs_hit:
  assumes "v \<in> set vs" and "LatTyp g s \<noteq> 2" and "stream_write cfg g s v = Some (q, x)"
    and "\<forall>v' \<in> set vs. \<forall>x'. stream_write cfg g s v' = Some (q, x') \<longrightarrow> x' = x"
  shows "stream_dirs cfg g fn s vs q = x"
  using assms(1,4)
proof (induction vs arbitrary: fn)
  case Nil
  then show ?case by simp
next
  case (Cons v0 vs)
  have rest: "\<forall>v \<in> set vs. \<forall>x'. LatTyp g s \<noteq> 2 \<longrightarrow> stream_write cfg g s v = Some (q, x') \<longrightarrow> x' = x"
    using Cons.prems(2) by simp
  have rest': "\<forall>v' \<in> set vs. \<forall>x'. stream_write cfg g s v' = Some (q, x') \<longrightarrow> x' = x"
    using Cons.prems(2) by simp
  show ?case
  proof (cases "v0 = v")
    case True
    have "stream_dir cfg g fn s v q = x"
      using assms(3) by (simp add: stream_dir_def)
    then have "stream_dirs cfg g (stream_dir cfg g fn s v) s vs q = x"
      using rest by (rule stream_dirs_keep)
    then show ?thesis using True assms(2) by simp
  next
    case False
    then have "v \<in> set vs" using Cons.prems(1) by simp
    then have "stream_dirs cfg g (stream_dir cfg g fn s v0) s vs q = x"
      using rest' by (rule Cons.IH)
    then show ?thesis using assms(2) by simp
  qed
qed

lemma stream_sweep_keep:
  assumes "fn q = x"
    and "\<forall>s \<in> set xs. \<forall>v x'. v < nVels cfg \<longrightarrow> LatTyp g s \<noteq> 2 \<longrightarrow>
           stream_write cfg g s v = Some (q, x') \<longrightarrow> x' = x"
  shows "foldl (\<lambda>f_new s. stream_dirs cfg g f_new s [0..<nVels cfg]) fn xs q = x"
  using assms
proof (induction xs arbitrary: fn)
  case Nil
  then show ?case by simp
next
  case (Cons s xs)
  have "\<forall>v \<in> set [0..<nVels cfg]. \<forall>x'. LatTyp g s \<noteq> 2 \<longrightarrow> stream_write cfg g s v = Some (q, x') \<longrightarrow> x' = x"
    using Cons.prems(2) by simp
  with Cons.prems(1) have "stream_dirs cfg g fn s [0..<nVels cfg] q = x"
    by (rule stream_dirs_keep)
  moreover have "\<forall>s \<in> set xs. \<forall>v x'. v < nVels cfg \<longrightarrow> LatTyp g s \<noteq> 2 \<longrightarrow>
           stream_write cfg g s v = Some (q, x') \<longrightarrow> x' = x"
    using Cons.prems(2) by simp
  ultimately have "foldl (\<lambda>f_new s. stream_dirs cfg g f_new s [0..<nVels cfg])
       (stream_dirs cfg g fn s [0..<nVels cfg]) xs q = x"
    by (rule Cons.IH)
  then show ?case by simp
qed

lemma stream_sweep_hit:
  assumes "s \<in> set xs" and "v < nVels cfg" and "LatTyp g s \<noteq> 2"
    and "stream_write cfg g s v = Some (q, x)"
    and "\<forall>s' \<in> set xs. \<forall>v' x'. v' < nVels cfg \<longrightarrow> LatTyp g s' \<noteq> 2 \<longrightarrow>
           stream_write cfg g s' v' = Some (q, x') \<longrightarrow> x' = x"
  shows "foldl (\<lambda>f_new s. stream_dirs cfg g f_new s [0..<nVels cfg]) fn xs q = x"
  using assms(1,5)
proof (induction xs arbitrary: fn)
  case Nil
  then show ?case by simp
next
  case (Cons s0 xs)
  have rest: "\<forall>s' \<in> set xs. \<forall>v' x'. v' < nVels cfg \<longrightarrow> LatTyp g s' \<noteq> 2 \<longrightarrow>
           stream_write cfg g s' v' = Some (q, x') \<longrightarrow> x' = x"
    using Cons.prems(2) by simp
  show ?case
  proof (cases "s0 = s")
    case True
    have "v \<in> set [0..<nVels cfg]" using assms(2) by simp
    moreover have "\<forall>v' \<in> set [0..<nVels cfg]. \<forall>x'. stream_write cfg g s v' = Some (q, x') \<longrightarrow> x' = x"
      using Cons.prems(2) True assms(3) by simp
    ultimately have "stream_dirs cfg g fn s [0..<nVels cfg] q = x"
      using assms(3,4) stream_dirs_hit by blast
    then have "foldl (\<lambda>f_new s. stream_dirs cfg g f_new s [0..<nVels cfg])
         (stream_dirs cfg g fn s [0..<nVels cfg]) xs q = x"
      using rest by (rule stream_sweep_keep)
    then show ?thesis using True by simp
  next
    case False
    then have "s \<in> set xs" using Cons.prems(1) by simp
    then have "foldl (\<lambda>f_new s. stream_dirs cfg g f_new s [0..<nVels cfg])
         (stream_dirs cfg g fn s0 [0..<nVels cfg]) xs q = x"
      using rest by (rule Cons.IH)
    then show ?thesis by simp
  qed
qed

lemma stream_zero:
  assumes "\<forall>s v x'. on_grid g s \<longrightarrow> v < nVels cfg \<longrightarrow> LatTyp g s \<noteq> 2 \<longrightarrow>
             stream_write cfg g s v \<noteq> Some (q, x')"
  shows "f (LBM_stream cfg g) q = 0"
proof -
  have "\<forall>s \<in> set (sites g). \<forall>v x'. v < nVels cfg \<longrightarrow> LatTyp g s \<noteq> 2 \<longrightarrow>
           stream_write cfg g s v = Some (q, x') \<longrightarrow> x' = 0"
    using assms by (simp add: set_sites)
  then have "foldl (\<lambda>f_new s. stream_dirs cfg g f_new s [0..<nVels cfg]) (\<lambda>q. 0) (sites g) q = 0"
    by (rule stream_sweep_keep[rotated]) simp
  then show ?thesis by (simp add: LBM_stream_def)
qed

lemma stream_value:
  assumes "on_grid g s" and "v < nVels cfg" and "LatTyp g s \<noteq> 2"
    and "stream_write cfg g s v = Some (q, x)"
    and "\<forall>s' v' x'. on_grid g s' \<longrightarrow> v' < nVels cfg \<longrightarrow> LatTyp g s' \<noteq> 2 \<longrightarrow>
           stream_write cfg g s' v' = Some (q, x') \<longrightarrow> x' = x"
  shows "f (LBM_stream cfg g) q = x"
proof -
  have "s \<in> set (sites g)" using assms(1) by (simp add: set_sites)
  moreover have "\<forall>s' \<in> set (sites g). \<forall>v' x'. v' < nVels cfg \<longrightarrow> LatTyp g s' \<noteq> 2 \<longrightarrow>
           stream_write cfg g s' v' = Some (q, x') \<longrightarrow> x' = x"
    using assms(5) by (simp add: set_sites)
  ultimately have "foldl (\<lambda>f_new s. stream_dirs cfg g f_new s [0..<nVels cfg]) (\<lambda>q. 0) (sites g) q = x"
    using assms(2,3,4) stream_sweep_hit by blast
  then show ?thesis by (simp add: LBM_stream_def)
qed

lemma cpp_rem_nonneg: "0 \<le> a \<Longrightarrow> 0 < b \<Longrightarrow> cpp_rem a b = a mod b"
proof -
  assume a: "0 \<le> a" and b: "0 < b"
  show ?thesis
  proof (cases "a = 0")
    case True
    then show ?thesis by (simp add: cpp_rem_def)
  next
    case False
    with a have "0 < a" by simp
    then have "cpp_rem a b = a - b * (a div b)" using b by (simp add: cpp_rem_def)
    then show ?thesis by (simp add: minus_mult_div_eq_mod)
  qed
qed

lemma wrap1:
  assumes "0 \<le> i" "i < n" "\<bar>e\<bar> \<le> 1"
  shows "cpp_rem (i + e + n) n = (if i + e < 0 then n - 1 else if i + e \<ge> n then 0 else i + e)"
proof -
  have n: "0 < n" using assms by linarith
  have nn: "0 \<le> i + e + n" using assms by linarith
  have r: "cpp_rem (i + e + n) n = (i + e) mod n"
    using cpp_rem_nonneg[OF nn n] by simp
  consider "i + e = -1" | "i + e = n" | "0 \<le> i + e \<and> i + e < n" using assms by linarith
  then show ?thesis
  proof cases
    case 1
    have "(- 1) mod n = n - 1" using n by (simp add: zmod_minus1)
    then show ?thesis using 1 r by simp
  next
    case 2
    then show ?thesis using r n by simp
  next
    case 3
    then show ?thesis using r by simp
  qed
qed

lemma vel_okD:
  assumes "vel_ok cfg" "v < nVels cfg"
  shows "getOpposite cfg v < nVels cfg" "getOpposite cfg (getOpposite cfg v) = v"
    "c cfg 0 (getOpposite cfg v) = - c cfg 0 v" "c cfg 1 (getOpposite cfg v) = - c cfg 1 v"
    "c cfg 2 (getOpposite cfg v) = - c cfg 2 v"
    "\<bar>c cfg 0 v\<bar> \<le> 1" "\<bar>c cfg 1 v\<bar> \<le> 1" "\<bar>c cfg 2 v\<bar> \<le> 1"
    "dims cfg \<noteq> 3 \<Longrightarrow> c cfg 2 v = 0"
  using assms unfolding vel_ok_def by (auto simp add: eval_nat_numeral)

lemma wrap_dest_eq:
  assumes "vel_ok cfg" "v < nVels cfg" "on_grid g (i, j, k)"
  shows "wrap_dest cfg g (i, j, k) v =
    ((if i + c cfg 0 v < 0 then N_lim g - 1 else if i + c cfg 0 v \<ge> N_lim g then 0 else i + c cfg 0 v),
     (if j + c cfg 1 v < 0 then M_lim g - 1 else if j + c cfg 1 v \<ge> M_lim g then 0 else j + c cfg 1 v),
     (if k + c cfg 2 v < 0 then K_lim g - 1 else if k + c cfg 2 v \<ge> K_lim g then 0 else k + c cfg 2 v))"
  using assms(3) vel_okD(6,7,8)[OF assms(1,2)]
  by (simp add: wrap_dest_def on_grid_def wrap1)

lemma on_grid_not_off: "on_grid g d \<Longrightarrow> \<not> off_grid cfg g d"
  by (cases d) (auto simp add: on_grid_def off_grid_def)

lemma wrap_on_grid:
  assumes "vel_ok cfg" "v < nVels cfg" "on_grid g s"
  shows "on_grid g (wrap_dest cfg g s v)"
proof -
  obtain i j k where s: "s = (i, j, k)" by (cases s)
  show ?thesis
    using assms(3) vel_okD(6,7,8)[OF assms(1,2)]
    unfolding s wrap_dest_eq[OF assms(1,2) assms(3)[unfolded s]]
    by (simp add: on_grid_def)
qed

lemma wrap_back_off:
  assumes "vel_ok cfg" "v < nVels cfg" "on_grid g s" "off_grid cfg g (dest_site cfg s v)"
  shows "off_grid cfg g (dest_site cfg (wrap_dest cfg g s v) (getOpposite cfg v))"
proof -
  obtain i j k where s: "s = (i, j, k)" by (cases s)
  show ?thesis
    using assms(3,4) vel_okD(3-)[OF assms(1,2)]
    unfolding s wrap_dest_eq[OF assms(1,2) assms(3)[unfolded s]]
    by (auto simp add: on_grid_def off_grid_def dest_site_def)
qed

lemma wrap_back:
  assumes "vel_ok cfg" "v < nVels cfg" "on_grid g s"
  shows "wrap_dest cfg g (wrap_dest cfg g s v) (getOpposite cfg v) = s"
proof -
  obtain i j k where s: "s = (i, j, k)" by (cases s)
  obtain a b e where ws: "wrap_dest cfg g s v = (a, b, e)" by (cases "wrap_dest cfg g s v")
  have og: "on_grid g (a, b, e)" using wrap_on_grid[OF assms] ws by simp
  have ov: "getOpposite cfg v < nVels cfg" by (rule vel_okD(1)[OF assms(1,2)])
  have "wrap_dest cfg g (a, b, e) (getOpposite cfg v) = (i, j, k)"
    unfolding wrap_dest_eq[OF assms(1) ov og]
    using ws[unfolded s wrap_dest_eq[OF assms(1,2) assms(3)[unfolded s]]]
      assms(3)[unfolded s] vel_okD(3-)[OF assms(1,2)]
    by (auto simp add: on_grid_def split: if_splits)
  then show ?thesis using ws s by simp
qed

lemma dest_back:
  assumes "vel_ok cfg" "v < nVels cfg"
  shows "dest_site cfg (dest_site cfg s v) (getOpposite cfg v) = s"
  using vel_okD(3,4,5)[OF assms] by (cases s) (simp add: dest_site_def)

lemma dest_on_grid:
  assumes "vel_ok cfg" "v < nVels cfg" "on_grid g s" "\<not> off_grid cfg g (dest_site cfg s v)"
  shows "on_grid g (dest_site cfg s v)"
  using assms(3,4) vel_okD(9)[OF assms(1,2)]
  by (cases s) (auto simp add: on_grid_def off_grid_def dest_site_def)

lemma stream_write_elim:
  assumes "stream_write cfg g s v = Some ((ts, tv), x)"
  obtains (inlet) "INLET_ON cfg" "INLET_DO_NOTHING cfg" "LatTyp g s = 7" "ts = s" "tv = v"
      "x = f g (s, v)"
    | (per) "off_grid cfg g (dest_site cfg s v)" "periodic_ok cfg g s v"
      "ts = wrap_dest cfg g s v" "tv = v" "x = f g (s, v)"
    | (ret) "off_grid cfg g (dest_site cfg s v)" "\<not> periodic_ok cfg g s v"
      "ts = s" "tv = getOpposite cfg v" "x = f g (s, getOpposite cfg v)"
    | (mpi) "\<not> off_grid cfg g (dest_site cfg s v)" "ts = dest_site cfg s v" "tv = v"
      "BUILD_FOR_MPI cfg" "mpi_overlap cfg g s ts"
      "(LatTyp g s = 1 \<and> LatTyp g ts = 1 \<and> x = f g (s, v)) \<or> x = f g (ts, v)"
    | (plain) "\<not> off_grid cfg g (dest_site cfg s v)" "ts = dest_site cfg s v" "tv = v"
      "\<not> (BUILD_FOR_MPI cfg \<and> mpi_overlap cfg g s ts)"
      "\<not> (LatTyp g s = 4 \<and> LatTyp g ts = 4)" "x = f g (s, v)"
proof (cases "INLET_ON cfg \<and> INLET_DO_NOTHING cfg \<and> LatTyp g s = 7")
  case True
  then have "stream_write cfg g s v = Some ((s, v), f g (s, v))"
    by (simp add: stream_write_def Let_def)
  with assms have "ts = s" "tv = v" "x = f g (s, v)" by auto
  then show ?thesis using True inlet by simp
next
  case ni: False
  show ?thesis
  proof (cases "off_grid cfg g (dest_site cfg s v)")
    case og: True
    show ?thesis
    proof (cases "periodic_ok cfg g s v")
      case True
      then have "stream_write cfg g s v = Some ((wrap_dest cfg g s v, v), f g (s, v))"
        using ni og by (auto simp add: stream_write_def periodic_ok_def Let_def)
      with assms have "ts = wrap_dest cfg g s v" "tv = v" "x = f g (s, v)" by auto
      then show ?thesis using og True per by simp
    next
      case False
      then have "stream_write cfg g s v = Some ((s, getOpposite cfg v), f g (s, getOpposite cfg v))"
        using ni og by (auto simp add: stream_write_def periodic_ok_def Let_def)
      with assms have "ts = s" "tv = getOpposite cfg v" "x = f g (s, getOpposite cfg v)" by auto
      then show ?thesis using og False ret by simp
    qed
  next
    case og: False
    show ?thesis
    proof (cases "BUILD_FOR_MPI cfg \<and> mpi_overlap cfg g s (dest_site cfg s v)")
      case True
      then have "stream_write cfg g s v =
         (if PERIODIC_BOUNDARIES cfg \<and> LatTyp g s = 1 \<and> LatTyp g (dest_site cfg s v) = 1
          then Some ((dest_site cfg s v, v), f g (s, v))
          else Some ((dest_site cfg s v, v), f g (dest_site cfg s v, v)))"
        using ni og by (auto simp add: stream_write_def Let_def)
      with assms have "ts = dest_site cfg s v" "tv = v"
        "(LatTyp g s = 1 \<and> LatTyp g ts = 1 \<and> x = f g (s, v)) \<or> x = f g (ts, v)"
        by (auto split: if_splits)
      then show ?thesis using og True mpi by simp
    next
      case nm: False
      have notl: "\<not> (LatTyp g s = 4 \<and> LatTyp g (dest_site cfg s v) = 4)"
        using assms ni og nm by (auto simp add: stream_write_def Let_def split: if_splits)
      have "stream_write cfg g s v = Some ((dest_site cfg s v, v), f g (s, v))"
        using assms ni og nm notl by (auto simp add: stream_write_def Let_def split: if_splits)
      with assms have "ts = dest_site cfg s v" "tv = v" "x = f g (s, v)" by auto
      then show ?thesis using og nm notl plain by simp
    qed
  qed
qed


lemma periodic_ok_sym:
  assumes "vel_ok cfg" "v < nVels cfg" "on_grid g s"
  shows "periodic_ok cfg g (wrap_dest cfg g s v) (getOpposite cfg v) = periodic_ok cfg g s v"
  unfolding periodic_ok_def wrap_back[OF assms] by blast

lemma stream_periodic:
  assumes "vel_ok cfg" and "on_grid g s" and "v < nVels cfg"
    and "off_grid cfg g (dest_site cfg s v)" and "periodic_ok cfg g s v"
  shows "f (LBM_stream cfg g) (wrap_dest cfg g s v, v) = f g (s, v)"
proof -
  let ?d = "wrap_dest cfg g s v"
  have l1: "LatTyp g s = 1" and ld: "LatTyp g ?d = 1" and nompi: "\<not> BUILD_FOR_MPI cfg"
    using assms(5) by (simp_all add: periodic_ok_def)
  have w: "stream_write cfg g s v = Some ((?d, v), f g (s, v))"
    using assms(4,5) l1 by (simp add: stream_write_def periodic_ok_def Let_def)
  have agree: "x' = f g (s, v)"
    if h: "on_grid g s'" "v' < nVels cfg" "stream_write cfg g s' v' = Some ((?d, v), x')"
    for s' v' x'
    using h(3)
  proof (cases rule: stream_write_elim)
    case inlet
    then show ?thesis using ld by simp
  next
    case per
    have "s' = wrap_dest cfg g (wrap_dest cfg g s' v) (getOpposite cfg v)"
      using wrap_back[OF assms(1,3) h(1)] by simp
    also have "\<dots> = s" using per wrap_back[OF assms(1,3,2)] by simp
    finally show ?thesis using per by simp
  next
    case ret
    have "getOpposite cfg v = v'" using ret(4) vel_okD(2)[OF assms(1) h(2)] by simp
    then have "periodic_ok cfg g s' v'"
      using periodic_ok_sym[OF assms(1,3,2)] assms(5) ret(3) by simp
    then show ?thesis using ret(2) by simp
  next
    case mpi
    then show ?thesis using nompi by simp
  next
    case plain
    have "dest_site cfg ?d (getOpposite cfg v) = s'"
      using dest_back[OF assms(1,3), of s'] plain by simp
    then have "off_grid cfg g s'"
      using wrap_back_off[OF assms(1,3,2,4)] by simp
    then show ?thesis using on_grid_not_off[OF h(1)] by simp
  qed
  have "LatTyp g s \<noteq> 2" using l1 by simp
  moreover have "\<forall>s' v' x'. on_grid g s' \<longrightarrow> v' < nVels cfg \<longrightarrow> LatTyp g s' \<noteq> 2 \<longrightarrow>
           stream_write cfg g s' v' = Some ((?d, v), x') \<longrightarrow> x' = f g (s, v)"
    using agree by blast
  ultimately show ?thesis
    using stream_value[OF assms(2,3) _ w] by blast
qed

lemma stream_retain:
  assumes "vel_ok cfg" and "on_grid g s" and "v < nVels cfg" and "LatTyp g s \<noteq> 2"
    and "off_grid cfg g (dest_site cfg s v)" and "\<not> periodic_ok cfg g s v"
  shows "f (LBM_stream cfg g) (s, getOpposite cfg v) = f g (s, getOpposite cfg v)"
proof -
  let ?o = "getOpposite cfg v"
  have ov: "?o < nVels cfg" and oo: "getOpposite cfg ?o = v"
    using vel_okD(1,2)[OF assms(1,3)] by simp_all
  have agree: "x' = f g (s, ?o)"
    if h: "on_grid g s'" "v' < nVels cfg" "stream_write cfg g s' v' = Some ((s, ?o), x')"
    for s' v' x'
    using h(3)
  proof (cases rule: stream_write_elim)
    case inlet
    then show ?thesis by simp
  next
    case per
    have "periodic_ok cfg g (wrap_dest cfg g s' v') (getOpposite cfg v') = periodic_ok cfg g s' v'"
      by (rule periodic_ok_sym[OF assms(1) h(2,1)])
    then have "periodic_ok cfg g s v" using per oo by simp
    then show ?thesis using assms(6) by simp
  next
    case ret
    then show ?thesis by simp
  next
    case mpi
    have "dest_site cfg s (getOpposite cfg v') = s'"
      using dest_back[OF assms(1) h(2), of s'] mpi by simp
    then have "off_grid cfg g s'" using assms(5) mpi(3) oo by simp
    then show ?thesis using on_grid_not_off[OF h(1)] by simp
  next
    case plain
    have "dest_site cfg s (getOpposite cfg v') = s'"
      using dest_back[OF assms(1) h(2), of s'] plain by simp
    then have "off_grid cfg g s'" using assms(5) plain(3) oo by simp
    then show ?thesis using on_grid_not_off[OF h(1)] by simp
  qed
  have all: "\<forall>s' v' x'. on_grid g s' \<longrightarrow> v' < nVels cfg \<longrightarrow> LatTyp g s' \<noteq> 2 \<longrightarrow>
           stream_write cfg g s' v' = Some ((s, ?o), x') \<longrightarrow> x' = f g (s, ?o)"
    using agree by blast
  show ?thesis
  proof (cases "INLET_ON cfg \<and> INLET_DO_NOTHING cfg \<and> LatTyp g s = 7")
    case True
    then have "stream_write cfg g s ?o = Some ((s, ?o), f g (s, ?o))"
      by (simp add: stream_write_def Let_def)
    then show ?thesis using stream_value[OF assms(2) ov assms(4) _ all] by blast
  next
    case False
    then have "stream_write cfg g s v = Some ((s, ?o), f g (s, ?o))"
      using assms(5,6) by (auto simp add: stream_write_def periodic_ok_def Let_def)
    then show ?thesis using stream_value[OF assms(2,3,4) _ all] by blast
  qed
qed

lemma stream_tl_nowrite:
  assumes "vel_ok cfg" and "on_grid g s" and "v < nVels cfg"
    and "LatTyp g s = 4" and "\<not> off_grid cfg g (dest_site cfg s v)"
    and "LatTyp g (dest_site cfg s v) = 4"
    and "\<not> (BUILD_FOR_MPI cfg \<and> mpi_overlap cfg g s (dest_site cfg s v))"
    and h: "on_grid g s'" "v' < nVels cfg"
  shows "stream_write cfg g s' v' \<noteq> Some ((dest_site cfg s v, v), x')"
proof
  let ?d = "dest_site cfg s v"
  have bk: "dest_site cfg ?d (getOpposite cfg v) = s" by (rule dest_back[OF assms(1,3)])
  assume "stream_write cfg g s' v' = Some ((?d, v), x')"
  then show False
  proof (cases rule: stream_write_elim)
    case inlet
    then show ?thesis using assms(6) by simp
  next
    case per
    then show ?thesis using assms(6) by (simp add: periodic_ok_def)
  next
    case ret
    have "v' = getOpposite cfg v" using ret(4) vel_okD(2)[OF assms(1) h(2)] by simp
    then have "dest_site cfg s' v' = s" using bk ret(3) by simp
    then show ?thesis using ret(1) on_grid_not_off[OF assms(2)] by simp
  next
    case mpi
    have "s' = s" using dest_back[OF assms(1,3), of s'] bk mpi(2,3) by simp
    then show ?thesis using mpi assms(7) by simp
  next
    case plain
    have "s' = s" using dest_back[OF assms(1,3), of s'] bk plain(2,3) by simp
    then show ?thesis using plain(5) assms(4,6) by simp
  qed
qed

lemma stream_tl_zero:
  assumes "vel_ok cfg" and "on_grid g s" and "v < nVels cfg"
    and "LatTyp g s = 4" and "\<not> off_grid cfg g (dest_site cfg s v)"
    and "LatTyp g (dest_site cfg s v) = 4"
    and "\<not> (BUILD_FOR_MPI cfg \<and> mpi_overlap cfg g s (dest_site cfg s v))"
  shows "f (LBM_stream cfg g) (dest_site cfg s v, v) = 0"
proof -
  have "\<forall>s' v' x'. on_grid g s' \<longrightarrow> v' < nVels cfg \<longrightarrow> LatTyp g s' \<noteq> 2 \<longrightarrow>
             stream_write cfg g s' v' \<noteq> Some ((dest_site cfg s v, v), x')"
    using stream_tl_nowrite[OF assms] by blast
  then show ?thesis by (rule stream_zero)
qed

lemma set_region_sites:
  "set (region_sites fGrid) =
     {(i, j, k). fst (CoarseLimsX fGrid) \<le> i \<and> i \<le> snd (CoarseLimsX fGrid)
               \<and> fst (CoarseLimsY fGrid) \<le> j \<and> j \<le> snd (CoarseLimsY fGrid)
               \<and> fst (CoarseLimsZ fGrid) \<le> k \<and> k \<le> snd (CoarseLimsZ fGrid)}"
  by (force simp: region_sites_def)

lemma region_sites_product:
  "region_sites fGrid =
     List.product [fst (CoarseLimsX fGrid)..snd (CoarseLimsX fGrid)]
       (List.product [fst (CoarseLimsY fGrid)..snd (CoarseLimsY fGrid)]
                     [fst (CoarseLimsZ fGrid)..snd (CoarseLimsZ fGrid)])"
  by (simp add: region_sites_def product_concat_map map_concat comp_def)

lemma distinct_region_sites: "distinct (region_sites fGrid)"
  by (simp add: region_sites_product distinct_product)

lemma coalesce_dirs:
  "LatTyp (foldl (\<lambda>pg v.
                 if f pg (s, v) = 0
                 then pg\<lparr>f := (f pg)((s, v) := val v)\<rparr>
                 else pg) p [0..<n]) = LatTyp p
   \<and> f (foldl (\<lambda>pg v.
                 if f pg (s, v) = 0
                 then pg\<lparr>f := (f pg)((s, v) := val v)\<rparr>
                 else pg) p [0..<n]) (s', v') =
      (if s' = s \<and> v' < n \<and> f p (s, v') = 0 then val v' else f p (s', v'))"
  by (induction n) (auto simp add: less_Suc_eq)

lemma coalesce_site_value:
  "LatTyp (coalesce_site cfg fGrid p s) = LatTyp p
   \<and> f (coalesce_site cfg fGrid p s) (s', v') =
      (if s' = s \<and> (LatTyp p s = 4 \<or> LatTyp p s = 5) \<and> v' < nVels cfg \<and> f p (s, v') = 0
       then sum_list (map (\<lambda>sb. f fGrid (sb, v')) (siblings cfg (fine_base fGrid s))) / 2 ^ dims cfg
       else f p (s', v'))"
  unfolding coalesce_site_def
  using coalesce_dirs[of s "\<lambda>v. sum_list (map (\<lambda>sb. f fGrid (sb, v)) (siblings cfg (fine_base fGrid s))) / 2 ^ dims cfg" p "nVels cfg" s' v']
  by auto

lemma coalesce_fold_value:
  "LatTyp (foldl (coalesce_site cfg fGrid) p xs) = LatTyp p
   \<and> f (foldl (coalesce_site cfg fGrid) p xs) (s, v) =
      (if s \<in> set xs \<and> (LatTyp p s = 4 \<or> LatTyp p s = 5) \<and> v < nVels cfg \<and> f p (s, v) = 0
       then sum_list (map (\<lambda>sb. f fGrid (sb, v)) (siblings cfg (fine_base fGrid s))) / 2 ^ dims cfg
       else f p (s, v))"
proof (induction xs arbitrary: p)
  case Nil
  then show ?case by simp
next
  case (Cons x xs)
  show ?case
    using Cons.IH[of "coalesce_site cfg fGrid p x"] coalesce_site_value[of cfg fGrid p x s v]
    by auto
qed

lemma LBM_coalesce_value:
  "f (LBM_coalesce cfg p fGrid) (s, v) =
      (if s \<in> set (region_sites fGrid) \<and> (LatTyp p s = 4 \<or> LatTyp p s = 5)
          \<and> v < nVels cfg \<and> f p (s, v) = 0
       then sum_list (map (\<lambda>sb. f fGrid (sb, v)) (siblings cfg (fine_base fGrid s))) / 2 ^ dims cfg
       else f p (s, v))"
  unfolding LBM_coalesce_def using coalesce_fold_value[of cfg fGrid p "region_sites fGrid" s v]
  by simp

lemma length_siblings: "dims cfg = 2 \<or> dims cfg = 3 \<Longrightarrow> length (siblings cfg b) = 2 ^ dims cfg"
  by (cases b) (auto simp add: siblings_def)

lemma mem_siblings:
  "(x, y, z) \<in> set (siblings cfg (fi, fj, fk)) =
     ((x = fi \<or> x = fi + 1) \<and> (y = fj \<or> y = fj + 1)
      \<and> (if dims cfg = 3 then z = fk \<or> z = fk + 1 else z = 0))"
  by (auto simp add: siblings_def)

lemma siblings_disjoint:
  assumes "s \<noteq> s2"
    and "dims cfg = 3 \<or> snd (snd s) = snd (snd s2)"
    and "sb \<in> set (siblings cfg (fine_base g s))"
  shows "sb \<notin> set (siblings cfg (fine_base g s2))"
proof -
  obtain i j k where s: "s = (i, j, k)" by (cases s)
  obtain i2 j2 k2 where s2: "s2 = (i2, j2, k2)" by (cases s2)
  obtain x y z where sb: "sb = (x, y, z)" by (cases sb)
  show ?thesis
    using assms unfolding s s2 sb fine_base_def getFineIndices_def prod.case mem_siblings
    by (auto split: if_splits)
qed

lemma write_siblings:
  "foldl (\<lambda>fn sb. fn((sb, v) := x)) fn0 sbs (s', v') =
     (if s' \<in> set sbs \<and> v' = v then x else fn0 (s', v'))"
  by (induction sbs arbitrary: fn0) auto

lemma explode_dirs:
  "explode_frame a (foldl (\<lambda>fg v. (let coarse_f = val v in
                     fg\<lparr>f := foldl (\<lambda>fn sb. fn((sb, v) := coarse_f)) (f fg) sbs\<rparr>)) a [0..<n])
   \<and> f (foldl (\<lambda>fg v. (let coarse_f = val v in
                     fg\<lparr>f := foldl (\<lambda>fn sb. fn((sb, v) := coarse_f)) (f fg) sbs\<rparr>)) a [0..<n]) (s', v') =
       (if s' \<in> set sbs \<and> v' < n then val v' else f a (s', v'))"
proof -
  define step where "step = (\<lambda>(fg::grid) (v::nat). (let coarse_f = val v in
                     fg\<lparr>f := foldl (\<lambda>fn sb. fn((sb, v) := coarse_f)) (f fg) sbs\<rparr>))"
  have st: "explode_frame a (step fg v) = explode_frame a fg
      \<and> f (step fg v) (s', v') = (if s' \<in> set sbs \<and> v' = v then val v else f fg (s', v'))"
    for fg v
    unfolding step_def Let_def by (simp add: explode_frame_def write_siblings)
  have "explode_frame a (foldl step a [0..<n])
     \<and> f (foldl step a [0..<n]) (s', v') = (if s' \<in> set sbs \<and> v' < n then val v' else f a (s', v'))"
  proof (induction n)
    case 0
    then show ?case by (simp add: explode_frame_def)
  next
    case (Suc n)
    then show ?case by (auto simp add: st less_Suc_eq)
  qed
  then show ?thesis unfolding step_def .
qed

lemma fine_base_frame: "explode_frame g0 a \<Longrightarrow> fine_base a s = fine_base g0 s"
  by (simp add: explode_frame_def fine_base_def)

lemma explode_site_value:
  assumes "explode_frame g0 a"
  shows "explode_frame g0 (explode_site cfg p a s)
   \<and> f (explode_site cfg p a s) (s', v') =
       (if LatTyp p s = 4 \<and> LatTyp g0 (fine_base g0 s) = 3
           \<and> s' \<in> set (siblings cfg (fine_base g0 s)) \<and> v' < nVels cfg
        then f p (s, v') else f a (s', v'))"
proof -
  have fb: "fine_base a s = fine_base g0 s" by (rule fine_base_frame[OF assms])
  have lt: "LatTyp a = LatTyp g0" using assms by (simp add: explode_frame_def)
  show ?thesis
    unfolding explode_site_def fb lt
    using explode_dirs[of a "\<lambda>v. f p (s, v)" "siblings cfg (fine_base g0 s)" "nVels cfg" s' v'] assms
    by (auto simp add: explode_frame_def)
qed

lemma explode_fold_frame:
  "explode_frame g0 a \<Longrightarrow> explode_frame g0 (foldl (explode_site cfg p) a xs)"
  by (rule foldl_invariant[where P = "explode_frame g0"]) (simp_all add: explode_site_value)

lemma explode_fold_keep:
  assumes "explode_frame g0 a"
    and "\<forall>s \<in> set xs. \<not> (LatTyp p s = 4 \<and> LatTyp g0 (fine_base g0 s) = 3
           \<and> s' \<in> set (siblings cfg (fine_base g0 s)))"
  shows "f (foldl (explode_site cfg p) a xs) (s', v') = f a (s', v')"
  using assms
proof (induction xs arbitrary: a)
  case Nil
  then show ?case by simp
next
  case (Cons x xs)
  have fr: "explode_frame g0 (explode_site cfg p a x)"
    using explode_site_value[OF Cons.prems(1)] by simp
  have "f (explode_site cfg p a x) (s', v') = f a (s', v')"
    using explode_site_value[OF Cons.prems(1), of cfg p x s' v'] Cons.prems(2) by auto
  moreover have "f (foldl (explode_site cfg p) (explode_site cfg p a x) xs) (s', v')
      = f (explode_site cfg p a x) (s', v')"
    by (rule Cons.IH[OF fr]) (use Cons.prems(2) in simp)
  ultimately show ?case by simp
qed

lemma explode_fold_hit:
  assumes "explode_frame g0 a"
    and "LatTyp p s = 4" "LatTyp g0 (fine_base g0 s) = 3"
    and "s' \<in> set (siblings cfg (fine_base g0 s))" "v' < nVels cfg"
    and "\<forall>s2 \<in> set xs. s2 \<noteq> s \<longrightarrow> s' \<notin> set (siblings cfg (fine_base g0 s2))"
  shows "f (foldl (explode_site cfg p) a xs) (s', v') =
           (if s \<in> set xs then f p (s, v') else f a (s', v'))"
  using assms(1,6)
proof (induction xs arbitrary: a)
  case Nil
  then show ?case by simp
next
  case (Cons x xs)
  have fr: "explode_frame g0 (explode_site cfg p a x)"
    using explode_site_value[OF Cons.prems(1)] by simp
  have rest: "\<forall>s2 \<in> set xs. s2 \<noteq> s \<longrightarrow> s' \<notin> set (siblings cfg (fine_base g0 s2))"
    using Cons.prems(2) by simp
  have ih: "f (foldl (explode_site cfg p) (explode_site cfg p a x) xs) (s', v') =
           (if s \<in> set xs then f p (s, v') else f (explode_site cfg p a x) (s', v'))"
    by (rule Cons.IH[OF fr rest])
  show ?case
  proof (cases "x = s")
    case True
    have "f (explode_site cfg p a s) (s', v') = f p (s, v')"
      using explode_site_value[OF Cons.prems(1), of cfg p s s' v'] assms(2-5) by simp
    then show ?thesis using ih True by simp
  next
    case False
    then have "s' \<notin> set (siblings cfg (fine_base g0 x))" using Cons.prems(2) by simp
    then have "f (explode_site cfg p a x) (s', v') = f a (s', v')"
      using explode_site_value[OF Cons.prems(1), of cfg p x s' v'] by simp
    then show ?thesis using ih False by simp
  qed
qed


lemma demo_vel_ok: "vel_ok demo_cfg"
  unfolding vel_ok_def
  by (simp add: demo_cfg_def d2q9_c_def d2q9_opp_def eval_nat_numeral All_less_Suc)

lemma demo_vel_ok_mpi: "vel_ok (demo_cfg\<lparr>BUILD_FOR_MPI := True\<rparr>)"
  using demo_vel_ok unfolding vel_ok_def by simp


lemma demo_region: "(0, 1, 0) \<in> set (region_sites demo_child)"
  by (simp add: set_region_sites demo_child_def)


lemma region_k_same:
  assumes "fst (CoarseLimsZ fGrid) = snd (CoarseLimsZ fGrid)"
    and "s \<in> set (region_sites fGrid)" "s2 \<in> set (region_sites fGrid)"
  shows "snd (snd s) = snd (snd s2)"
  using assms by (cases s; cases s2) (simp add: set_region_sites)

lemma LBM_explode_hit:
  assumes "dims cfg = 3 \<or> fst (CoarseLimsZ fGrid) = snd (CoarseLimsZ fGrid)"
    and "s \<in> set (region_sites fGrid)" and "LatTyp p s = 4"
    and "LatTyp fGrid (fine_base fGrid s) = 3"
    and "sb \<in> set (siblings cfg (fine_base fGrid s))" and "v < nVels cfg"
  shows "f (LBM_explode cfg p fGrid) (sb, v) = f p (s, v)"
proof -
  have fr: "explode_frame fGrid fGrid" by (simp add: explode_frame_def)
  have dj: "\<forall>s2 \<in> set (region_sites fGrid). s2 \<noteq> s \<longrightarrow> sb \<notin> set (siblings cfg (fine_base fGrid s2))"
  proof (intro ballI impI)
    fix s2 assume a: "s2 \<in> set (region_sites fGrid)" "s2 \<noteq> s"
    have "dims cfg = 3 \<or> snd (snd s) = snd (snd s2)"
      using assms(1) region_k_same[OF _ assms(2) a(1)] by blast
    then show "sb \<notin> set (siblings cfg (fine_base fGrid s2))"
      using siblings_disjoint[of s s2 cfg sb fGrid] a(2) assms(5) by blast
  qed
  show ?thesis
    unfolding LBM_explode_def
    using explode_fold_hit[OF fr assms(3,4,5,6) dj] assms(2) by simp
qed

lemma LBM_explode_miss:
  assumes "dims cfg = 3 \<or> fst (CoarseLimsZ fGrid) = snd (CoarseLimsZ fGrid)"
    and "s \<in> set (region_sites fGrid)"
    and "LatTyp fGrid (fine_base fGrid s) \<noteq> 3"
    and "sb \<in> set (siblings cfg (fine_base fGrid s))"
  shows "f (LBM_explode cfg p fGrid) (sb, v) = f fGrid (sb, v)"
proof -
  have fr: "explode_frame fGrid fGrid" by (simp add: explode_frame_def)
  have "\<forall>s2 \<in> set (region_sites fGrid). \<not> (LatTyp p s2 = 4 \<and> LatTyp fGrid (fine_base fGrid s2) = 3
           \<and> sb \<in> set (siblings cfg (fine_base fGrid s2)))"
  proof (intro ballI)
    fix s2 assume a: "s2 \<in> set (region_sites fGrid)"
    show "\<not> (LatTyp p s2 = 4 \<and> LatTyp fGrid (fine_base fGrid s2) = 3
           \<and> sb \<in> set (siblings cfg (fine_base fGrid s2)))"
    proof (cases "s2 = s")
      case True
      then show ?thesis using assms(3) by simp
    next
      case False
      have "dims cfg = 3 \<or> snd (snd s) = snd (snd s2)"
        using assms(1) region_k_same[OF _ assms(2) a] by blast
      then have "sb \<notin> set (siblings cfg (fine_base fGrid s2))"
        using siblings_disjoint[of s s2 cfg sb fGrid] False assms(4) by blast
      then show ?thesis by simp
    qed
  qed
  then show ?thesis
    unfolding LBM_explode_def by (rule explode_fold_keep[OF fr])
qed

text \<open>
  Claim C2, amended. For a parent site labelled 4 inside the region, explode tests the
  label of one fine site only, the one at the fine indices. When that label is 3 every
  population component of the parent site is copied unchanged into all \<open>2 ^ dims\<close> covered
  fine sites, whatever their own labels; when it is not 3 none of them is written. (In a
  2D build the region is one layer of parent sites.)
\<close>

theorem C2_explode:
  assumes "dims cfg = 2 \<or> dims cfg = 3"
    and "dims cfg = 3 \<or> fst (CoarseLimsZ fGrid) = snd (CoarseLimsZ fGrid)"
    and "s \<in> set (region_sites fGrid)" and "LatTyp p s = 4"
    and "sb \<in> set (siblings cfg (fine_base fGrid s))"
  shows "(LatTyp fGrid (fine_base fGrid s) = 3 \<longrightarrow>
            (\<forall>v < nVels cfg. f (LBM_explode cfg p fGrid) (sb, v) = f p (s, v)))
       \<and> (LatTyp fGrid (fine_base fGrid s) \<noteq> 3 \<longrightarrow>
            (\<forall>v. f (LBM_explode cfg p fGrid) (sb, v) = f fGrid (sb, v)))
       \<and> length (siblings cfg (fine_base fGrid s)) = 2 ^ dims cfg"
  using LBM_explode_hit[OF assms(2,3,4) _ assms(5)] LBM_explode_miss[OF assms(2,3) _ assms(5)]
    length_siblings[OF assms(1)]
  by blast

lemma demo_sibling: "(1, 0, 0) \<in> set (siblings demo_cfg (fine_base demo_child (0, 1, 0)))"
  by (simp add: siblings_def fine_base_def getFineIndices_def demo_cfg_def demo_child_def)

lemma demo_base_tag: "LatTyp demo_child (fine_base demo_child (0, 1, 0)) = 3"
  by (simp add: fine_base_def getFineIndices_def demo_child_def)

lemma demo_dims: "dims demo_cfg = 3 \<or> fst (CoarseLimsZ demo_child) = snd (CoarseLimsZ demo_child)"
  by (simp add: demo_child_def)

lemma demo_tag4: "LatTyp demo_grid (0, 1, 0) = 4"
  by (simp add: demo_grid_def)

text \<open>The hypotheses of C2 (amended) hold for the example parent and child.\<close>

theorem C2_explode_witness:
  "(dims demo_cfg = 2 \<or> dims demo_cfg = 3)
   \<and> (dims demo_cfg = 3 \<or> fst (CoarseLimsZ demo_child) = snd (CoarseLimsZ demo_child))
   \<and> (0, 1, 0) \<in> set (region_sites demo_child) \<and> LatTyp demo_grid (0, 1, 0) = 4
   \<and> (1, 0, 0) \<in> set (siblings demo_cfg (fine_base demo_child (0, 1, 0)))
   \<and> LatTyp demo_child (fine_base demo_child (0, 1, 0)) = 3
   \<and> f (LBM_explode demo_cfg demo_grid demo_child) ((1, 0, 0), 0) = 1 / 9"
proof -
  have d: "dims demo_cfg = 2 \<or> dims demo_cfg = 3" by (simp add: demo_cfg_def)
  show ?thesis
    using C2_explode[OF d demo_dims demo_region demo_tag4 demo_sibling]
      demo_dims demo_region demo_tag4 demo_sibling demo_base_tag
    by (simp add: demo_cfg_def demo_grid_def d2q9_w_def)
qed

text \<open>
  Claim C2 as stated fails: the fine site \<open>(1, 0, 0)\<close> of the example child is covered
  by a parent site labelled 4, its own label is not 3, and explode overwrites it.
\<close>

theorem C2_sibling_clobbered:
  "(0, 1, 0) \<in> set (region_sites demo_child) \<and> LatTyp demo_grid (0, 1, 0) = 4
   \<and> (1, 0, 0) \<in> set (siblings demo_cfg (fine_base demo_child (0, 1, 0)))
   \<and> LatTyp demo_child (1, 0, 0) \<noteq> 3
   \<and> f (LBM_explode demo_cfg demo_grid demo_child) ((1, 0, 0), 0) \<noteq> f demo_child ((1, 0, 0), 0)"
proof -
  have n: "0 < nVels demo_cfg" by (simp add: demo_cfg_def)
  have "f (LBM_explode demo_cfg demo_grid demo_child) ((1, 0, 0), 0) = f demo_grid ((0, 1, 0), 0)"
    by (rule LBM_explode_hit[OF demo_dims demo_region demo_tag4 demo_base_tag demo_sibling n])
  then show ?thesis
    using demo_region demo_tag4 demo_sibling
    by (simp add: demo_grid_def demo_child_def d2q9_w_def)
qed

lemma stream_write_periodic:
  assumes "\<not> (INLET_ON cfg \<and> INLET_DO_NOTHING cfg \<and> LatTyp g s = 7)"
    and "off_grid cfg g (dest_site cfg s v)"
  shows "stream_write cfg g s v =
    (if periodic_ok cfg g s v then Some ((wrap_dest cfg g s v, v), f g (s, v))
     else Some ((s, getOpposite cfg v), f g (s, getOpposite cfg v)))"
  using assms by (auto simp add: stream_write_def periodic_ok_def Let_def)

lemma stream_wrapped_kept:
  assumes "vel_ok cfg" and "on_grid g s" and "v < nVels cfg"
    and "off_grid cfg g (dest_site cfg s v)" and "\<not> periodic_ok cfg g s v"
    and "LatTyp g (wrap_dest cfg g s v) \<noteq> 2"
  shows "f (LBM_stream cfg g) (wrap_dest cfg g s v, v) = f g (wrap_dest cfg g s v, v)"
proof -
  let ?d = "wrap_dest cfg g s v" and ?o = "getOpposite cfg v"
  have og: "on_grid g ?d" by (rule wrap_on_grid[OF assms(1,3,2)])
  have ov: "?o < nVels cfg" and oo: "getOpposite cfg ?o = v"
    using vel_okD(1,2)[OF assms(1,3)] by simp_all
  have off: "off_grid cfg g (dest_site cfg ?d ?o)" by (rule wrap_back_off[OF assms(1,3,2,4)])
  have np: "\<not> periodic_ok cfg g ?d ?o" using periodic_ok_sym[OF assms(1,3,2)] assms(5) by simp
  show ?thesis using stream_retain[OF assms(1) og ov assms(6) off np] oo by simp
qed

text \<open>
  Claim C3, amended. Take a source site that reaches the destination computation (its
  label is not 2 and it is not a do-nothing inlet) and a direction whose destination is
  off the grid. If periodic boundaries are enabled in a build without MPI, the level is
  the coarsest, and the source and the wrapped destination are both fluid, the pass
  writes the population to the wrapped site, and after the sweep that slot holds it.
  In every other case the pass writes one slot only, the opposite direction of the
  source site, with its own prior value, which it still holds after the sweep; and the
  wrapped destination site, unless labelled 2, holds its own prior value in the
  direction after the sweep.
\<close>

theorem C3_off_grid_stream:
  assumes "vel_ok cfg" and "on_grid g s" and "v < nVels cfg" and "LatTyp g s \<noteq> 2"
    and "\<not> (INLET_ON cfg \<and> INLET_DO_NOTHING cfg \<and> LatTyp g s = 7)"
    and "off_grid cfg g (dest_site cfg s v)"
  shows "(PERIODIC_BOUNDARIES cfg \<and> \<not> BUILD_FOR_MPI cfg \<and> level g = 0
            \<and> LatTyp g s = 1 \<and> LatTyp g (wrap_dest cfg g s v) = 1 \<longrightarrow>
            stream_write cfg g s v = Some ((wrap_dest cfg g s v, v), f g (s, v))
          \<and> f (LBM_stream cfg g) (wrap_dest cfg g s v, v) = f g (s, v))
       \<and> (\<not> (PERIODIC_BOUNDARIES cfg \<and> \<not> BUILD_FOR_MPI cfg \<and> level g = 0
               \<and> LatTyp g s = 1 \<and> LatTyp g (wrap_dest cfg g s v) = 1) \<longrightarrow>
            stream_write cfg g s v = Some ((s, getOpposite cfg v), f g (s, getOpposite cfg v))
          \<and> f (LBM_stream cfg g) (s, getOpposite cfg v) = f g (s, getOpposite cfg v)
          \<and> (LatTyp g (wrap_dest cfg g s v) \<noteq> 2 \<longrightarrow>
               f (LBM_stream cfg g) (wrap_dest cfg g s v, v) = f g (wrap_dest cfg g s v, v)))"
proof (cases "periodic_ok cfg g s v")
  case True
  have "stream_write cfg g s v = Some ((wrap_dest cfg g s v, v), f g (s, v))"
    using stream_write_periodic[OF assms(5,6)] True by simp
  moreover have "f (LBM_stream cfg g) (wrap_dest cfg g s v, v) = f g (s, v)"
    by (rule stream_periodic[OF assms(1,2,3,6) True])
  ultimately show ?thesis using True unfolding periodic_ok_def by blast
next
  case False
  have "stream_write cfg g s v = Some ((s, getOpposite cfg v), f g (s, getOpposite cfg v))"
    using stream_write_periodic[OF assms(5,6)] False by simp
  moreover have "f (LBM_stream cfg g) (s, getOpposite cfg v) = f g (s, getOpposite cfg v)"
    by (rule stream_retain[OF assms(1,2,3,4,6) False])
  moreover have "LatTyp g (wrap_dest cfg g s v) \<noteq> 2 \<longrightarrow>
      f (LBM_stream cfg g) (wrap_dest cfg g s v, v) = f g (wrap_dest cfg g s v, v)"
    using stream_wrapped_kept[OF assms(1,2,3,6) False] by blast
  ultimately show ?thesis using False unfolding periodic_ok_def by blast
qed

lemma demo_sizes:
  "N_lim demo_grid = 2" "M_lim demo_grid = 2" "K_lim demo_grid = 1"
  "N_lim demo_marked = 2" "M_lim demo_marked = 2" "K_lim demo_marked = 1"
  "N_lim demo_tl = 2" "M_lim demo_tl = 2" "K_lim demo_tl = 1"
  by (simp_all add: N_lim_def M_lim_def K_lim_def demo_grid_def demo_marked_def demo_tl_def)

lemma demo_dest_1: "dest_site demo_cfg (1, 0, 0) 0 = (2, 0, 0)"
  "dest_site demo_cfg_mpi (1, 0, 0) 0 = (2, 0, 0)"
  "dest_site demo_cfg (0, 0, 0) 2 = (0, 1, 0)"
  by (simp_all add: dest_site_def demo_cfg_mpi_def demo_cfg_def d2q9_c_def)

lemma demo_wrap_1: "wrap_dest demo_cfg demo_grid (1, 0, 0) 0 = (0, 0, 0)"
  "wrap_dest demo_cfg_mpi demo_marked (1, 0, 0) 0 = (0, 0, 0)"
  by (simp_all add: wrap_dest_def demo_sizes cpp_rem_def demo_cfg_mpi_def demo_cfg_def d2q9_c_def)

lemma demo_on_grid_100: "on_grid demo_grid (1, 0, 0)" "on_grid demo_marked (1, 0, 0)"
  by (simp_all add: on_grid_def demo_sizes)

text \<open>The hypotheses of C3 (amended) hold on the example grid, in the periodic case.\<close>

theorem C3_off_grid_stream_witness:
  "vel_ok demo_cfg \<and> on_grid demo_grid (1, 0, 0) \<and> 0 < nVels demo_cfg
   \<and> LatTyp demo_grid (1, 0, 0) \<noteq> 2
   \<and> \<not> (INLET_ON demo_cfg \<and> INLET_DO_NOTHING demo_cfg \<and> LatTyp demo_grid (1, 0, 0) = 7)
   \<and> off_grid demo_cfg demo_grid (dest_site demo_cfg (1, 0, 0) 0)
   \<and> PERIODIC_BOUNDARIES demo_cfg \<and> \<not> BUILD_FOR_MPI demo_cfg \<and> level demo_grid = 0
   \<and> LatTyp demo_grid (1, 0, 0) = 1 \<and> LatTyp demo_grid (0, 0, 0) = 1
   \<and> wrap_dest demo_cfg demo_grid (1, 0, 0) 0 = (0, 0, 0)
   \<and> f (LBM_stream demo_cfg demo_grid) ((0, 0, 0), 0) = f demo_grid ((1, 0, 0), 0)"
proof -
  have n: "0 < nVels demo_cfg" by (simp add: demo_cfg_def)
  have l: "LatTyp demo_grid (1, 0, 0) \<noteq> 2" by (simp add: demo_grid_def)
  have i: "\<not> (INLET_ON demo_cfg \<and> INLET_DO_NOTHING demo_cfg \<and> LatTyp demo_grid (1, 0, 0) = 7)"
    by (simp add: demo_cfg_def)
  have o: "off_grid demo_cfg demo_grid (dest_site demo_cfg (1, 0, 0) 0)"
    by (simp add: demo_dest_1 off_grid_def demo_sizes)
  show ?thesis
    using C3_off_grid_stream[OF demo_vel_ok demo_on_grid_100(1) n l i o] demo_vel_ok
      demo_on_grid_100(1) o
    by (simp add: demo_wrap_1) (simp add: demo_cfg_def demo_grid_def)
qed

text \<open>
  Claim C3 as stated fails in a build for MPI: periodic boundaries are enabled, the grid
  is the coarsest, source and wrapped destination are fluid, and the marked population
  does not arrive at the wrapped site.
\<close>

theorem C3_mpi_build_retains:
  "PERIODIC_BOUNDARIES demo_cfg_mpi \<and> level demo_marked = 0
   \<and> on_grid demo_marked (1, 0, 0) \<and> 0 < nVels demo_cfg_mpi
   \<and> off_grid demo_cfg_mpi demo_marked (dest_site demo_cfg_mpi (1, 0, 0) 0)
   \<and> LatTyp demo_marked (1, 0, 0) = 1
   \<and> LatTyp demo_marked (wrap_dest demo_cfg_mpi demo_marked (1, 0, 0) 0) = 1
   \<and> f (LBM_stream demo_cfg_mpi demo_marked) (wrap_dest demo_cfg_mpi demo_marked (1, 0, 0) 0, 0)
       \<noteq> f demo_marked ((1, 0, 0), 0)"
proof -
  have v: "vel_ok demo_cfg_mpi" using demo_vel_ok_mpi by (simp add: demo_cfg_mpi_def)
  have n: "0 < nVels demo_cfg_mpi" by (simp add: demo_cfg_mpi_def demo_cfg_def)
  have o: "off_grid demo_cfg_mpi demo_marked (dest_site demo_cfg_mpi (1, 0, 0) 0)"
    by (simp add: demo_dest_1 off_grid_def demo_sizes)
  have np: "\<not> periodic_ok demo_cfg_mpi demo_marked (1, 0, 0) 0"
    by (simp add: periodic_ok_def demo_cfg_mpi_def)
  have l: "LatTyp demo_marked (wrap_dest demo_cfg_mpi demo_marked (1, 0, 0) 0) \<noteq> 2"
    by (simp add: demo_wrap_1 demo_marked_def demo_grid_def)
  have "f (LBM_stream demo_cfg_mpi demo_marked) (wrap_dest demo_cfg_mpi demo_marked (1, 0, 0) 0, 0)
      = f demo_marked (wrap_dest demo_cfg_mpi demo_marked (1, 0, 0) 0, 0)"
    by (rule stream_wrapped_kept[OF v demo_on_grid_100(2) n o np l])
  then show ?thesis
    using demo_on_grid_100(2) n o
    by (simp add: demo_wrap_1) (simp add: demo_cfg_mpi_def demo_cfg_def demo_marked_def demo_grid_def)
qed

lemma LatTyp_LBM_stream: "LatTyp (LBM_stream cfg g) = LatTyp g"
  by (simp add: LBM_stream_def)

text \<open>
  Claim C10. After a streaming sweep every slot that no pass of the sweep wrote holds 0.
  In particular, when a transfer between two sites labelled 4 is skipped, no pass writes
  its destination slot, that slot holds 0 after the sweep, and a following coalesce over
  a region containing the site replaces it by the mean over the covered fine sites.
\<close>

theorem C10_stream_sentinel:
  assumes "vel_ok cfg" and "on_grid g s" and "v < nVels cfg"
    and "LatTyp g s = 4" and "\<not> off_grid cfg g (dest_site cfg s v)"
    and "LatTyp g (dest_site cfg s v) = 4"
    and "\<not> (BUILD_FOR_MPI cfg \<and> mpi_overlap cfg g s (dest_site cfg s v))"
  shows "(\<forall>q. (\<forall>s' v' x. on_grid g s' \<and> v' < nVels cfg \<and> LatTyp g s' \<noteq> 2 \<longrightarrow>
                  stream_write cfg g s' v' \<noteq> Some (q, x)) \<longrightarrow>
              f (LBM_stream cfg g) q = 0)
       \<and> stream_write cfg g s v = None
       \<and> (\<forall>s' v' x. on_grid g s' \<and> v' < nVels cfg \<and> LatTyp g s' \<noteq> 2 \<longrightarrow>
              stream_write cfg g s' v' \<noteq> Some ((dest_site cfg s v, v), x))
       \<and> f (LBM_stream cfg g) (dest_site cfg s v, v) = 0
       \<and> (dest_site cfg s v \<in> set (region_sites fGrid) \<longrightarrow>
            f (LBM_coalesce cfg (LBM_stream cfg g) fGrid) (dest_site cfg s v, v) =
              sum_list (map (\<lambda>sb. f fGrid (sb, v)) (siblings cfg (fine_base fGrid (dest_site cfg s v))))
                / 2 ^ dims cfg)"
proof -
  have p1: "\<forall>q. (\<forall>s' v' x. on_grid g s' \<and> v' < nVels cfg \<and> LatTyp g s' \<noteq> 2 \<longrightarrow>
                  stream_write cfg g s' v' \<noteq> Some (q, x)) \<longrightarrow>
              f (LBM_stream cfg g) q = 0"
    using stream_zero[of g cfg] by blast
  have p2: "stream_write cfg g s v = None"
    using assms(4,5,6,7) by (auto simp add: stream_write_def Let_def)
  have p3: "\<forall>s' v' x. on_grid g s' \<and> v' < nVels cfg \<and> LatTyp g s' \<noteq> 2 \<longrightarrow>
              stream_write cfg g s' v' \<noteq> Some ((dest_site cfg s v, v), x)"
    using stream_tl_nowrite[OF assms] by blast
  have p4: "f (LBM_stream cfg g) (dest_site cfg s v, v) = 0"
    by (rule stream_tl_zero[OF assms])
  have p5: "dest_site cfg s v \<in> set (region_sites fGrid) \<longrightarrow>
            f (LBM_coalesce cfg (LBM_stream cfg g) fGrid) (dest_site cfg s v, v) =
              sum_list (map (\<lambda>sb. f fGrid (sb, v)) (siblings cfg (fine_base fGrid (dest_site cfg s v))))
                / 2 ^ dims cfg"
    using p4 assms(3,6) by (simp add: LBM_coalesce_value LatTyp_LBM_stream)
  show ?thesis using p1 p2 p3 p4 p5 by blast
qed

lemma demo_tl_on_grid: "on_grid demo_tl (0, 0, 0)"
  by (simp add: on_grid_def demo_sizes)

text \<open>The hypotheses of C10 hold on the example grid with every site labelled 4.\<close>

theorem C10_stream_sentinel_witness:
  "vel_ok demo_cfg \<and> on_grid demo_tl (0, 0, 0) \<and> 2 < nVels demo_cfg
   \<and> LatTyp demo_tl (0, 0, 0) = 4 \<and> dest_site demo_cfg (0, 0, 0) 2 = (0, 1, 0)
   \<and> \<not> off_grid demo_cfg demo_tl (0, 1, 0) \<and> LatTyp demo_tl (0, 1, 0) = 4
   \<and> \<not> BUILD_FOR_MPI demo_cfg \<and> (0, 1, 0) \<in> set (region_sites demo_child)
   \<and> stream_write demo_cfg demo_tl (0, 0, 0) 2 = None
   \<and> f (LBM_stream demo_cfg demo_tl) ((0, 1, 0), 2) = 0
   \<and> f (LBM_coalesce demo_cfg (LBM_stream demo_cfg demo_tl) demo_child) ((0, 1, 0), 2) = 7"
proof -
  have n: "2 < nVels demo_cfg" by (simp add: demo_cfg_def)
  have l: "LatTyp demo_tl (0, 0, 0) = 4" by (simp add: demo_tl_def)
  have o: "\<not> off_grid demo_cfg demo_tl (dest_site demo_cfg (0, 0, 0) 2)"
    by (simp add: demo_dest_1 off_grid_def demo_sizes)
  have ld: "LatTyp demo_tl (dest_site demo_cfg (0, 0, 0) 2) = 4" by (simp add: demo_tl_def)
  have m: "\<not> (BUILD_FOR_MPI demo_cfg \<and> mpi_overlap demo_cfg demo_tl (0, 0, 0) (dest_site demo_cfg (0, 0, 0) 2))"
    by (simp add: demo_cfg_def)
  show ?thesis
    using C10_stream_sentinel[OF demo_vel_ok demo_tl_on_grid n l o ld m, of demo_child]
      demo_vel_ok demo_tl_on_grid o demo_region
    by (simp add: demo_dest_1)
       (simp add: demo_cfg_def demo_tl_def demo_child_def siblings_def fine_base_def getFineIndices_def)
qed

subsection \<open>The order of the driver\<close>

lemma same_clock_refl: "same_clock a a"
  by (simp add: same_clock_def)

lemma same_clock_trans: "same_clock a b \<Longrightarrow> same_clock b d \<Longrightarrow> same_clock a d"
  by (simp add: same_clock_def)

lemma forcegrid_dir_clock: "same_clock (forcegrid_dir cfg s g v) g"
  by (simp add: forcegrid_dir_def same_clock_def Let_def)

lemma forcegrid_site_clock: "same_clock (forcegrid_site cfg g s) g"
proof -
  have "same_clock (foldl (forcegrid_dir cfg s) a vs) g" if "same_clock a g" for a vs
    using that
    by (rule foldl_invariant[where P = "\<lambda>a. same_clock a g"])
       (use forcegrid_dir_clock same_clock_trans in blast)
  then show ?thesis by (simp add: forcegrid_site_def same_clock_def)
qed

lemma LBM_forcegrid_clock: "same_clock (LBM_forcegrid cfg r g) g"
proof (cases r)
  case True
  then show ?thesis by (simp add: LBM_forcegrid_def same_clock_def)
next
  case False
  have "same_clock (foldl (forcegrid_site cfg) g (sites g)) g"
    by (rule foldl_invariant[where P = "\<lambda>a. same_clock a g"])
       (use forcegrid_site_clock same_clock_trans same_clock_refl in blast)+
  then show ?thesis using False by (simp add: LBM_forcegrid_def)
qed

lemma LBM_collide_clock: "same_clock (LBM_collide cfg g) g"
  by (subst LBM_collide_frame) (simp add: same_clock_def)

lemma LBM_stream_clock: "same_clock (LBM_stream cfg g) g"
  by (simp add: LBM_stream_def same_clock_def)

lemma coalesce_site_clock: "same_clock (coalesce_site cfg fGrid p s) p"
proof -
  have "same_clock (foldl (\<lambda>pg v. if f pg (s, v) = 0 then pg\<lparr>f := (f pg)((s, v) := val v)\<rparr> else pg) p vs) p"
    for val vs
    by (rule foldl_invariant[where P = "\<lambda>a. same_clock a p"]) (simp_all add: same_clock_def)
  then show ?thesis by (simp add: coalesce_site_def same_clock_refl)
qed

lemma LBM_coalesce_clock: "same_clock (LBM_coalesce cfg p fGrid) p"
  unfolding LBM_coalesce_def
  by (rule foldl_invariant[where P = "\<lambda>a. same_clock a p"])
     (use coalesce_site_clock same_clock_trans same_clock_refl in blast)+

lemma coalesce_regions_clock: "same_clock (coalesce_regions cfg p subs) p"
  unfolding coalesce_regions_def
  by (rule foldl_invariant[where P = "\<lambda>a. same_clock a p"])
     (use LBM_coalesce_clock same_clock_trans same_clock_refl in blast)+

lemma macro_timeav_clock: "same_clock (macro_timeav cfg g s) g"
proof -
  have q: "same_clock (fst (timeav_q s p gn q)) (fst gn)" for p gn q
    by (cases gn) (simp add: timeav_q_def same_clock_def)
  have p: "same_clock (fst (timeav_p cfg s gn p)) (fst gn)" for gn p
  proof -
    obtain b n where gn: "gn = (b, n)" by (cases gn)
    have "same_clock (fst (foldl (timeav_q s p) (b\<lparr>ui_timeav := x\<rparr>, n) qs)) b" for x qs
      by (rule foldl_invariant[where P = "\<lambda>a. same_clock (fst a) b"])
         (use q same_clock_trans in \<open>auto simp add: same_clock_def\<close>)
    then show ?thesis by (simp add: gn timeav_p_def)
  qed
  have "same_clock (fst (foldl (timeav_p cfg s) (g\<lparr>rho_timeav := x\<rparr>, 0) ps)) g" for x ps
    by (rule foldl_invariant[where P = "\<lambda>a. same_clock (fst a) g"])
       (use p same_clock_trans in \<open>auto simp add: same_clock_def\<close>)
  then show ?thesis by (simp add: macro_timeav_def)
qed

lemma macro_step_clock: "same_clock (macro_step cfg g s) g"
proof -
  obtain i j k where s: "s = (i, j, k)" by (cases s)
  have "same_clock (LBM_macro_site cfg g i j k) g"
    by (simp add: LBM_macro_site_def same_clock_def Let_def)
  then show ?thesis
    using macro_timeav_clock[of cfg "LBM_macro_site cfg g i j k" s] same_clock_trans
    by (auto simp add: macro_step_def s)
qed

lemma LBM_macro_clock: "same_clock (LBM_macro cfg g) g"
  unfolding LBM_macro_def
  by (rule foldl_invariant[where P = "\<lambda>a. same_clock a g"])
     (use macro_step_clock same_clock_trans same_clock_refl in blast)+

lemma explode_site_clock: "same_clock (explode_site cfg p a s) a"
proof -
  have "same_clock (foldl (\<lambda>fg v. (let coarse_f = val v in
          fg\<lparr>f := foldl (\<lambda>fn sb. fn((sb, v) := coarse_f)) (f fg) sbs\<rparr>)) a vs) a" for val sbs vs
    by (rule foldl_invariant[where P = "\<lambda>x. same_clock x a"]) (simp_all add: same_clock_def Let_def)
  then show ?thesis by (simp add: explode_site_def same_clock_refl)
qed

lemma LBM_explode_clock: "same_clock (LBM_explode cfg p fGrid) fGrid"
  unfolding LBM_explode_def
  by (rule foldl_invariant[where P = "\<lambda>a. same_clock a fGrid"])
     (use explode_site_clock same_clock_trans same_clock_refl in blast)+

lemma hooks_clock:
  assumes "hooks_ok cfg"
  shows "same_clock (bc_regularised cfg g) g" "same_clock (bc_pre_stream cfg g) g"
    "same_clock (bc_bfl cfg g) g" "same_clock (bc_outlet cfg g) g" "same_clock (mpi_step cfg g) g"
  using assms
  by (simp_all add: hooks_ok_def same_clock_def bc_regularised_def bc_pre_stream_def bc_bfl_def
      bc_outlet_def mpi_step_def Let_def)


lemma kernel_pre_clock:
  assumes "hooks_ok cfg"
  shows "same_clock (LBM_collide cfg (LBM_forcegrid cfg False (bc_regularised cfg s))) s"
  using LBM_collide_clock[of cfg "LBM_forcegrid cfg False (bc_regularised cfg s)"]
    LBM_forcegrid_clock[of cfg False "bc_regularised cfg s"] hooks_clock(1)[OF assms, of s]
  by (simp add: same_clock_def)

lemma kernel_post_clock:
  assumes "hooks_ok cfg"
  shows "same_clock (LBM_macro cfg (bc_outlet cfg (coalesce_regions cfg
            (bc_bfl cfg (LBM_stream cfg (bc_pre_stream cfg s1))) subs1))) s1"
    and "same_clock (LBM_macro cfg (bc_outlet cfg
            (bc_bfl cfg (LBM_stream cfg (bc_pre_stream cfg s1))))) s1"
proof -
  let ?a = "bc_pre_stream cfg s1"
  let ?b = "bc_bfl cfg (LBM_stream cfg ?a)"
  have b: "same_clock ?b s1"
    using hooks_clock(2)[OF assms, of s1] LBM_stream_clock[of cfg ?a]
      hooks_clock(3)[OF assms, of "LBM_stream cfg ?a"]
    by (simp add: same_clock_def)
  show "same_clock (LBM_macro cfg (bc_outlet cfg (coalesce_regions cfg ?b subs1))) s1"
    using b coalesce_regions_clock[of cfg ?b subs1]
      hooks_clock(4)[OF assms, of "coalesce_regions cfg ?b subs1"]
      LBM_macro_clock[of cfg "bc_outlet cfg (coalesce_regions cfg ?b subs1)"]
    by (simp add: same_clock_def)
  show "same_clock (LBM_macro cfg (bc_outlet cfg ?b)) s1"
    using b hooks_clock(4)[OF assms, of ?b] LBM_macro_clock[of cfg "bc_outlet cfg ?b"]
    by (simp add: same_clock_def)
qed

lemma ibm_pre_clock: "same_clock (ibm_pre cfg flag s) s"
  using LBM_forcegrid_clock[of cfg True s] by (simp add: ibm_pre_def same_clock_refl)

lemma ibm_restore_clock:
  assumes "hooks_ok cfg"
  shows "level (ibm_restore cfg s s3) = level s3" "t (ibm_restore cfg s s3) = t s3 - 1"
  using assms LBM_forcegrid_clock[of cfg True s3]
  by (simp_all add: ibm_restore_def hooks_ok_def same_clock_def Let_def)

lemma ibm_move_clock:
  assumes "hooks_ok cfg"
  shows "same_clock (ibm_move_bodies cfg g) g"
  using assms by (simp add: hooks_ok_def same_clock_def)

lemma map_shape_Nil: "map shape_of xs = map shape_of ys \<Longrightarrow> (xs = []) = (ys = [])"
  by (metis map_is_Nil_conv)

lemma run_sched_Nil: "run_sched cfg fl [] g = g"
  by (simp add: run_sched_def)

lemma run_sched_Cons: "run_sched cfg fl (ev # evs) g = run_sched cfg fl evs (exec cfg fl g ev)"
  by (simp add: run_sched_def)

lemma run_sched_append:
  "run_sched cfg fl (xs @ ys) g = run_sched cfg fl ys (run_sched cfg fl xs g)"
  by (simp add: run_sched_def)

lemma exec_here: "exec cfg fl g ([], x) = exec_op cfg fl x g"
  by (simp add: exec_def)

lemma run_below:
  "reg < length subs \<Longrightarrow>
     run_sched cfg fl (map (below reg) evs) (GridObj s subs) =
       GridObj s (subs[reg := run_sched cfg fl evs (subs ! reg)])"
proof (induction evs arbitrary: subs)
  case Nil
  then show ?case by (simp add: run_sched_Nil)
next
  case (Cons ev evs)
  define x where "x = apply_at (fst ev) (exec_op cfg fl (snd ev)) (subs ! reg)"
  have "exec cfg fl (GridObj s subs) (below reg ev) = GridObj s (subs[reg := x])"
    by (simp add: exec_def below_def x_def)
  moreover have "run_sched cfg fl (map (below reg) evs) (GridObj s (subs[reg := x])) =
      GridObj s ((subs[reg := x])[reg := run_sched cfg fl evs ((subs[reg := x]) ! reg)])"
    using Cons.IH[of "subs[reg := x]"] Cons.prems by simp
  ultimately show ?case
    using Cons.prems by (simp add: run_sched_Cons exec_def x_def)
qed

lemma run_coalesce:
  "run_sched cfg fl (map (\<lambda>reg. ([], OpCoalesce reg)) rs) (GridObj s subs) =
     GridObj (foldl (\<lambda>pg reg. LBM_coalesce cfg pg (fields (subs ! reg))) s rs) subs"
  by (induction rs arbitrary: s) (simp_all add: run_sched_Nil run_sched_Cons exec_here)

lemma run_body:
  assumes "run_sched cfg fl (regions_sched L 0 shs) (GridObj s1 subs) = GridObj s1 subs1"
    and "s1 = LBM_collide cfg (LBM_forcegrid cfg False (bc_regularised cfg s))"
    and "length subs1 = length shs"
  shows "run_sched cfg fl (body_sched L (Shape shs)) (GridObj s subs) =
     GridObj (LBM_macro cfg (bc_outlet cfg (coalesce_regions cfg
                (bc_bfl cfg (LBM_stream cfg (bc_pre_stream cfg s1))) subs1))) subs1"
  using assms
  by (simp add: body_sched.simps run_sched_append run_sched_Cons run_sched_Nil exec_here
      run_coalesce coalesce_regions_def)

lemma coalesce_regions_Nil: "coalesce_regions cfg p [] = p"
  by (simp add: coalesce_regions_def)

lemma driver_refines:
  "hooks_ok cfg \<Longrightarrow> levels_ok cfg L g \<Longrightarrow>
     LBM_multi cfg flag g = driver_call cfg flag L g
     \<and> levels_ok cfg L (LBM_multi cfg flag g)
     \<and> shape_of (LBM_multi cfg flag g) = shape_of g
     \<and> t (fields (LBM_multi cfg flag g)) = t (fields g) + (if L = 0 then 1 else 2)"
  "hooks_ok cfg \<Longrightarrow> level s = L \<Longrightarrow>
     (subs \<noteq> [] \<longrightarrow> L < NumLev cfg) \<Longrightarrow> (\<forall>ch \<in> set subs. levels_ok cfg (Suc L) ch) \<Longrightarrow>
     GridObj (fst (LBM_kernel cfg flag s subs)) (snd (LBM_kernel cfg flag s subs)) =
       run_sched cfg flag (body_sched L (Shape (map shape_of subs))) (GridObj s subs)
     \<and> level (fst (LBM_kernel cfg flag s subs)) = L
     \<and> t (fst (LBM_kernel cfg flag s subs)) = t s
     \<and> map shape_of (snd (LBM_kernel cfg flag s subs)) = map shape_of subs
     \<and> (\<forall>ch \<in> set (snd (LBM_kernel cfg flag s subs)). levels_ok cfg (Suc L) ch)"
  "hooks_ok cfg \<Longrightarrow> (\<forall>ch \<in> set chs. levels_ok cfg (Suc L) ch) \<Longrightarrow>
     (\<forall>pre. run_sched cfg flag (regions_sched L (length pre) (map shape_of chs))
              (GridObj p (pre @ chs)) = GridObj p (pre @ LBM_regions cfg flag p chs))
     \<and> map shape_of (LBM_regions cfg flag p chs) = map shape_of chs
     \<and> (\<forall>ch \<in> set (LBM_regions cfg flag p chs). levels_ok cfg (Suc L) ch)"
proof (induct cfg flag g and cfg flag s subs and cfg flag p chs
    arbitrary: L and L and L rule: LBM_multi_LBM_kernel_LBM_regions.induct)
  case (1 cfg IBM_flag s subs)
  note hk = \<open>hooks_ok cfg\<close>
  have lv: "level s = L" and nl: "subs \<noteq> [] \<longrightarrow> L < NumLev cfg"
    and ch: "\<forall>ch \<in> set subs. levels_ok cfg (Suc L) ch"
    using \<open>levels_ok cfg L (GridObj s subs)\<close> by simp_all
  define sh where "sh = Shape (map shape_of subs)"
  define s0 where "s0 = ibm_pre cfg IBM_flag s"
  obtain s1 subs1 where k1: "LBM_kernel cfg IBM_flag s0 subs = (s1, subs1)"
    by (metis surj_pair)
  have c0: "level s0 = L" "t s0 = t s"
    using ibm_pre_clock[of cfg IBM_flag s] lv by (simp_all add: same_clock_def s0_def)
  have q1: "run_sched cfg IBM_flag (body_sched L sh) (GridObj s0 subs) = GridObj s1 subs1"
    "level s1 = L" "t s1 = t s" "map shape_of subs1 = map shape_of subs"
    "\<forall>ch \<in> set subs1. levels_ok cfg (Suc L) ch"
    using "1.hyps"(1)[OF hk c0(1)[unfolded s0_def] nl ch] k1 c0(2) by (simp_all add: s0_def sh_def)
  have n1: "subs1 \<noteq> [] \<longrightarrow> L < NumLev cfg" using nl q1(4) map_shape_Nil by blast
  obtain s2 subs2 where k2: "(if level s1 = 0 then (s1, subs1)
                 else LBM_kernel cfg IBM_flag (tick s1) subs1) = (s2, subs2)"
    by (metis surj_pair)
  have q2: "run_sched cfg IBM_flag (if L = 0 then [] else ([], OpTick) # body_sched L sh) (GridObj s1 subs1)
        = GridObj s2 subs2"
    "level s2 = L" "t s2 = t s + (if L = 0 then 0 else 1)"
    "map shape_of subs2 = map shape_of subs" "\<forall>ch \<in> set subs2. levels_ok cfg (Suc L) ch"
  proof -
    have "run_sched cfg IBM_flag (if L = 0 then [] else ([], OpTick) # body_sched L sh) (GridObj s1 subs1)
        = GridObj s2 subs2
      \<and> level s2 = L \<and> t s2 = t s + (if L = 0 then 0 else 1)
      \<and> map shape_of subs2 = map shape_of subs \<and> (\<forall>ch \<in> set subs2. levels_ok cfg (Suc L) ch)"
    proof (cases "level s1 = 0")
      case True
      then have "s2 = s1" "subs2 = subs1" using k2 by simp_all
      moreover have "L = 0" using q1(2) True by simp
      ultimately show ?thesis using q1 by (simp add: run_sched_Nil)
    next
      case False
      have l1: "level (tick s1) = L" using q1(2) by (simp add: tick_def)
      have "GridObj (fst (LBM_kernel cfg IBM_flag (tick s1) subs1))
               (snd (LBM_kernel cfg IBM_flag (tick s1) subs1)) =
             run_sched cfg IBM_flag (body_sched L (Shape (map shape_of subs1))) (GridObj (tick s1) subs1)
        \<and> level (fst (LBM_kernel cfg IBM_flag (tick s1) subs1)) = L
        \<and> t (fst (LBM_kernel cfg IBM_flag (tick s1) subs1)) = t (tick s1)
        \<and> map shape_of (snd (LBM_kernel cfg IBM_flag (tick s1) subs1)) = map shape_of subs1
        \<and> (\<forall>ch \<in> set (snd (LBM_kernel cfg IBM_flag (tick s1) subs1)). levels_ok cfg (Suc L) ch)"
        using "1.hyps"(2)[OF k1[unfolded s0_def, symmetric] False hk l1 n1 q1(5)] .
      moreover have "LBM_kernel cfg IBM_flag (tick s1) subs1 = (s2, subs2)" using k2 False by simp
      moreover have "L \<noteq> 0" using q1(2) False by simp
      ultimately show ?thesis
        using q1 by (simp add: tick_def run_sched_Cons exec_here sh_def)
    qed
    then show "run_sched cfg IBM_flag (if L = 0 then [] else ([], OpTick) # body_sched L sh) (GridObj s1 subs1)
        = GridObj s2 subs2"
      "level s2 = L" "t s2 = t s + (if L = 0 then 0 else 1)"
      "map shape_of subs2 = map shape_of subs" "\<forall>ch \<in> set subs2. levels_ok cfg (Suc L) ch"
      by simp_all
  qed
  have n2: "subs2 \<noteq> [] \<longrightarrow> L < NumLev cfg" using nl q2(4) map_shape_Nil by blast
  have pass: "run_sched cfg IBM_flag
        (([], OpReset) # body_sched L sh @ (if L = 0 then [] else ([], OpTick) # body_sched L sh)
          @ [([], OpTick)]) (GridObj s subs) = GridObj (tick s2) subs2"
    using q1(1) q2(1)
    by (simp add: run_sched_Cons run_sched_append run_sched_Nil exec_here s0_def)
  show ?case
  proof (cases "IBM_ON cfg \<and> IBM_flag \<and> L = 0")
    case False
    then have nc: "\<not> (IBM_ON cfg \<and> level (tick s2) = 0 \<and> IBM_flag)"
      using q2(2) by (auto simp add: tick_def)
    have nc': "(IBM_ON cfg \<and> level (tick s2) = 0 \<and> IBM_flag) = False" using nc by simp
    have res: "LBM_multi cfg IBM_flag (GridObj s subs) = GridObj (mpi_step cfg (tick s2)) subs2"
      by (subst LBM_multi.simps) (simp only: k1[unfolded s0_def] prod.case k2 nc' if_False)
    have rc: "run_sched cfg IBM_flag (call_sched L sh) (GridObj s subs)
        = GridObj (mpi_step cfg (tick s2)) subs2"
      using pass
      by (simp add: call_sched.simps run_sched_Cons run_sched_append run_sched_Nil exec_here)
    have F': "(IBM_ON cfg \<and> IBM_flag \<and> L = 0) = False" using False by simp
    have dc: "driver_call cfg IBM_flag L (GridObj s subs) = GridObj (mpi_step cfg (tick s2)) subs2"
      unfolding driver_call_def F' if_False shape_of.simps sh_def[symmetric] by (rule rc)
    have cm: "level (mpi_step cfg (tick s2)) = L" "t (mpi_step cfg (tick s2)) = t (tick s2)"
      using hooks_clock(5)[OF hk, of "tick s2"] q2(2) by (simp_all add: same_clock_def tick_def)
    show ?thesis
      unfolding res dc using cm q2 n2 by (simp add: tick_def)
  next
    case True
    then have L0: "L = 0" and fl: "IBM_flag" and ib: "IBM_ON cfg" by simp_all
    have e2: "s2 = s1" "subs2 = subs1" using k2 q1(2) L0 by simp_all
    have tc: "IBM_ON cfg \<and> level (tick s2) = 0 \<and> IBM_flag"
      using True q2(2) by (simp add: tick_def)
    define gr where "gr = GridObj (ibm_restore cfg s (tick s2)) subs2"
    have lr: "level (ibm_restore cfg s (tick s2)) = 0" "t (ibm_restore cfg s (tick s2)) = t s"
      using ibm_restore_clock[OF hk, of s "tick s2"] q2(2,3) L0 by (simp_all add: tick_def)
    have lg: "levels_ok cfg 0 gr" using lr(1) q2(5) n2 L0 by (simp add: gr_def)
    have p6: "LBM_multi cfg False gr = driver_call cfg False 0 gr
       \<and> levels_ok cfg 0 (LBM_multi cfg False gr)
       \<and> shape_of (LBM_multi cfg False gr) = shape_of gr
       \<and> t (fields (LBM_multi cfg False gr)) = t (fields gr) + (if (0::nat) = 0 then 1 else 2)"
      unfolding gr_def
      by (rule "1.hyps"(3)[OF k1[unfolded s0_def, symmetric] k2[symmetric] tc hk lg[unfolded gr_def]])
    obtain s6 subs6 where m: "LBM_multi cfg False gr = GridObj s6 subs6"
      by (metis GridObj.exhaust)
    have tc': "(IBM_ON cfg \<and> level (tick s2) = 0 \<and> IBM_flag) = True" using tc by simp
    have res: "LBM_multi cfg IBM_flag (GridObj s subs) =
        GridObj (mpi_step cfg (ibm_move_bodies cfg s6)) subs6"
      by (subst LBM_multi.simps)
         (simp only: k1[unfolded s0_def] prod.case k2 tc' if_True m[unfolded gr_def] GridObj.case)
    have shg: "shape_of gr = sh" using q2(4) by (simp add: gr_def sh_def)
    have g1: "run_sched cfg True (([], OpReset) # body_sched 0 sh @ [([], OpTick)]) (GridObj s subs)
        = GridObj (tick s2) subs2"
      using pass L0 fl by simp
    have p6a: "driver_call cfg False 0 gr = GridObj s6 subs6"
      using p6[THEN conjunct1] m by simp
    have p6b: "levels_ok cfg 0 (GridObj s6 subs6)"
      using p6[THEN conjunct2, THEN conjunct1] unfolding m .
    have p6c: "shape_of (GridObj s6 subs6) = shape_of gr"
      using p6[THEN conjunct2, THEN conjunct2, THEN conjunct1] unfolding m .
    have p6d: "t (fields (GridObj s6 subs6)) = t (fields gr) + 1"
      using p6[THEN conjunct2, THEN conjunct2, THEN conjunct2] unfolding m by simp
    have rc: "run_sched cfg False (call_sched 0 sh) gr = GridObj s6 subs6"
      using p6a shg by (simp add: driver_call_def)
    have dc: "driver_call cfg IBM_flag L (GridObj s subs) =
        GridObj (mpi_step cfg (ibm_move_bodies cfg s6)) subs6"
      using True g1 rc by (simp add: driver_call_def sh_def[symmetric] gr_def Let_def)
    have l6: "level s6 = 0" "subs6 \<noteq> [] \<longrightarrow> 0 < NumLev cfg"
      "\<forall>ch \<in> set subs6. levels_ok cfg (Suc 0) ch" "map shape_of subs6 = map shape_of subs"
      "t s6 = t s + 1"
      using p6b p6c p6d shg lr(2) by (simp_all add: sh_def gr_def)
    have cm: "level (mpi_step cfg (ibm_move_bodies cfg s6)) = 0"
      "t (mpi_step cfg (ibm_move_bodies cfg s6)) = t s + 1"
      using hooks_clock(5)[OF hk, of "ibm_move_bodies cfg s6"] ibm_move_clock[OF hk, of s6] l6
      by (simp_all add: same_clock_def)
    show ?thesis
      unfolding res dc using cm l6 L0 by simp
  qed
next
  case (2 cfg IBM_flag s subs)
  note hk = \<open>hooks_ok cfg\<close>
  define s1 where "s1 = LBM_collide cfg (LBM_forcegrid cfg False (bc_regularised cfg s))"
  have c1: "level s1 = L" "t s1 = t s"
    using kernel_pre_clock[OF hk, of s] \<open>level s = L\<close> by (simp_all add: same_clock_def s1_def)
  show ?case
  proof (cases "NumLev cfg > level s1")
    case True
    define subs1 where "subs1 = LBM_regions cfg IBM_flag s1 subs"
    have q: "\<forall>pre. run_sched cfg IBM_flag (regions_sched L (length pre) (map shape_of subs))
              (GridObj s1 (pre @ subs)) = GridObj s1 (pre @ subs1)"
      "map shape_of subs1 = map shape_of subs" "\<forall>ch \<in> set subs1. levels_ok cfg (Suc L) ch"
      using "2.hyps"[OF s1_def True hk \<open>\<forall>ch \<in> set subs. levels_ok cfg (Suc L) ch\<close>]
      by (simp_all add: subs1_def)
    have r0: "run_sched cfg IBM_flag (regions_sched L 0 (map shape_of subs)) (GridObj s1 subs)
        = GridObj s1 subs1"
      using q(1)[rule_format, of "[]"] by simp
    have len: "length subs1 = length (map shape_of subs)"
      using q(2) map_eq_imp_length_eq by fastforce
    have k: "LBM_kernel cfg IBM_flag s subs =
       (LBM_macro cfg (bc_outlet cfg (coalesce_regions cfg
            (bc_bfl cfg (LBM_stream cfg (bc_pre_stream cfg s1))) subs1)), subs1)"
      using True by (simp add: LBM_kernel.simps Let_def s1_def subs1_def)
    show ?thesis
      unfolding k fst_conv snd_conv run_body[OF r0 s1_def len]
      using kernel_post_clock(1)[OF hk, of s1 subs1] c1 q(2,3)
      by (simp add: same_clock_def)
  next
    case False
    then have e: "subs = []" using \<open>subs \<noteq> [] \<longrightarrow> L < NumLev cfg\<close> c1 by auto
    have k: "LBM_kernel cfg IBM_flag s subs =
       (LBM_macro cfg (bc_outlet cfg (bc_bfl cfg (LBM_stream cfg (bc_pre_stream cfg s1)))), subs)"
      using False by (simp add: LBM_kernel.simps Let_def s1_def)
    have r0: "run_sched cfg IBM_flag (regions_sched L 0 []) (GridObj s1 []) = GridObj s1 []"
      by (simp add: run_sched_Nil)
    show ?thesis
      unfolding e k[unfolded e] fst_conv snd_conv
      using run_body[OF r0 s1_def, of ] kernel_post_clock(2)[OF hk, of s1] c1
      by (simp add: same_clock_def coalesce_regions_Nil)
  qed
next
  case (3 cfg IBM_flag p)
  then show ?case by (simp add: run_sched_Nil)
next
  case (4 cfg IBM_flag p ch chs)
  note hk = \<open>hooks_ok cfg\<close>
  define ex where "ex = GridObj (LBM_explode cfg p (fields ch)) (subGrid ch)"
  define ch' where "ch' = LBM_multi cfg IBM_flag ex"
  have lc: "levels_ok cfg (Suc L) ex"
    using \<open>\<forall>ch \<in> set (ch # chs). levels_ok cfg (Suc L) ch\<close>
      LBM_explode_clock[of cfg p "fields ch"]
    by (cases ch) (simp add: same_clock_def ex_def)
  have sc: "shape_of ex = shape_of ch" by (cases ch) (simp add: ex_def)
  have q1: "run_sched cfg IBM_flag (call_sched (Suc L) (shape_of ch)) ex = ch'"
    "levels_ok cfg (Suc L) ch'" "shape_of ch' = shape_of ch"
  proof -
    note ih = "4.hyps"(1)[OF hk lc[unfolded ex_def], folded ex_def]
    show "run_sched cfg IBM_flag (call_sched (Suc L) (shape_of ch)) ex = ch'"
      using ih[THEN conjunct1] sc by (simp add: ch'_def driver_call_def)
    show "levels_ok cfg (Suc L) ch'"
      using ih[THEN conjunct2, THEN conjunct1] by (simp add: ch'_def)
    show "shape_of ch' = shape_of ch"
      using ih[THEN conjunct2, THEN conjunct2, THEN conjunct1] sc by (simp add: ch'_def)
  qed
  have q2: "\<forall>pre. run_sched cfg IBM_flag (regions_sched L (length pre) (map shape_of chs))
              (GridObj p (pre @ chs)) = GridObj p (pre @ LBM_regions cfg IBM_flag p chs)"
    "map shape_of (LBM_regions cfg IBM_flag p chs) = map shape_of chs"
    "\<forall>ch \<in> set (LBM_regions cfg IBM_flag p chs). levels_ok cfg (Suc L) ch"
  proof -
    have "\<forall>ch \<in> set chs. levels_ok cfg (Suc L) ch"
      using \<open>\<forall>ch \<in> set (ch # chs). levels_ok cfg (Suc L) ch\<close> by simp
    note ih = "4.hyps"(2)[OF hk this]
    show "\<forall>pre. run_sched cfg IBM_flag (regions_sched L (length pre) (map shape_of chs))
              (GridObj p (pre @ chs)) = GridObj p (pre @ LBM_regions cfg IBM_flag p chs)"
      using ih[THEN conjunct1] .
    show "map shape_of (LBM_regions cfg IBM_flag p chs) = map shape_of chs"
      using ih[THEN conjunct2, THEN conjunct1] .
    show "\<forall>ch \<in> set (LBM_regions cfg IBM_flag p chs). levels_ok cfg (Suc L) ch"
      using ih[THEN conjunct2, THEN conjunct2] .
  qed
  have res: "LBM_regions cfg IBM_flag p (ch # chs) = ch' # LBM_regions cfg IBM_flag p chs"
    by (simp add: ch'_def ex_def)
  have step: "run_sched cfg IBM_flag (regions_sched L (length pre) (map shape_of (ch # chs)))
              (GridObj p (pre @ ch # chs)) = GridObj p (pre @ ch' # LBM_regions cfg IBM_flag p chs)"
    for pre
  proof -
    have a: "exec cfg IBM_flag (GridObj p (pre @ ch # chs)) ([], OpExplode (length pre))
        = GridObj p (pre @ ex # chs)"
      by (simp add: exec_here ex_def)
    have b: "run_sched cfg IBM_flag (map (below (length pre)) (call_sched (Suc L) (shape_of ch)))
          (GridObj p (pre @ ex # chs)) = GridObj p (pre @ ch' # chs)"
      using run_below[of "length pre" "pre @ ex # chs" cfg IBM_flag
          "call_sched (Suc L) (shape_of ch)" p] q1(1)
      by simp
    have d: "run_sched cfg IBM_flag (regions_sched L (Suc (length pre)) (map shape_of chs))
          (GridObj p (pre @ ch' # chs)) = GridObj p (pre @ ch' # LBM_regions cfg IBM_flag p chs)"
      using q2(1)[rule_format, of "pre @ [ch']"] by simp
    show ?thesis
      using a b d by (simp add: run_sched_Cons run_sched_append)
  qed
  show ?case
    unfolding res using step q1 q2 by simp
qed

lemma same_geom_refl: "same_geom a a"
  by (simp add: same_geom_def)

lemma same_geom_trans: "same_geom a b \<Longrightarrow> same_geom b d \<Longrightarrow> same_geom a d"
  by (simp add: same_geom_def)

lemma same_pop_refl: "same_pop a a"
  by (simp add: same_pop_def same_geom_def)

lemma same_pop_trans: "same_pop a b \<Longrightarrow> same_pop b d \<Longrightarrow> same_pop a d"
  by (simp add: same_pop_def same_geom_def)

lemma same_popD: "same_pop a b \<Longrightarrow> same_geom a b" "same_pop a b \<Longrightarrow> f a = f b"
  by (simp_all add: same_pop_def)

lemma same_geom_on_grid: "same_geom a b \<Longrightarrow> on_grid a s = on_grid b s"
  by (cases s) (simp add: same_geom_def on_grid_def N_lim_def M_lim_def K_lim_def)

lemma forcegrid_dir_pop: "same_pop (forcegrid_dir cfg s g v) g"
  by (simp add: forcegrid_dir_def same_pop_def same_geom_def Let_def)

lemma forcegrid_site_pop: "same_pop (forcegrid_site cfg g s) g"
proof -
  have "same_pop (foldl (forcegrid_dir cfg s) a vs) g" if "same_pop a g" for a vs
    using that
    by (rule foldl_invariant[where P = "\<lambda>a. same_pop a g"])
       (use forcegrid_dir_pop same_pop_trans in blast)
  then show ?thesis by (simp add: forcegrid_site_def same_pop_def same_geom_def)
qed

lemma LBM_forcegrid_pop: "same_pop (LBM_forcegrid cfg r g) g"
proof (cases r)
  case True
  then show ?thesis by (simp add: LBM_forcegrid_def same_pop_def same_geom_def)
next
  case False
  have "same_pop (foldl (forcegrid_site cfg) g (sites g)) g"
    by (rule foldl_invariant[where P = "\<lambda>a. same_pop a g"])
       (use forcegrid_site_pop same_pop_trans same_pop_refl in blast)+
  then show ?thesis using False by (simp add: LBM_forcegrid_def)
qed

lemma LBM_collide_geom: "same_geom (LBM_collide cfg g) g"
  by (subst LBM_collide_frame) (simp add: same_geom_def)

lemma LBM_stream_geom: "same_geom (LBM_stream cfg g) g"
  by (simp add: LBM_stream_def same_geom_def)

lemma coalesce_site_geom: "same_geom (coalesce_site cfg fGrid p s) p"
proof -
  have "same_geom (foldl (\<lambda>pg v. if f pg (s, v) = 0 then pg\<lparr>f := (f pg)((s, v) := val v)\<rparr> else pg) p vs) p"
    for val vs
    by (rule foldl_invariant[where P = "\<lambda>a. same_geom a p"]) (simp_all add: same_geom_def)
  then show ?thesis by (simp add: coalesce_site_def same_geom_refl)
qed

lemma LBM_coalesce_geom: "same_geom (LBM_coalesce cfg p fGrid) p"
  unfolding LBM_coalesce_def
  by (rule foldl_invariant[where P = "\<lambda>a. same_geom a p"])
     (use coalesce_site_geom same_geom_trans same_geom_refl in blast)+

lemma macro_timeav_pop: "same_pop (macro_timeav cfg g s) g"
proof -
  have q: "same_pop (fst (timeav_q s p gn q)) (fst gn)" for p gn q
    by (cases gn) (simp add: timeav_q_def same_pop_def same_geom_def)
  have p: "same_pop (fst (timeav_p cfg s gn p)) (fst gn)" for gn p
  proof -
    obtain b n where gn: "gn = (b, n)" by (cases gn)
    have "same_pop (fst (foldl (timeav_q s p) (b\<lparr>ui_timeav := x\<rparr>, n) qs)) b" for x qs
      by (rule foldl_invariant[where P = "\<lambda>a. same_pop (fst a) b"])
         (use q same_pop_trans in \<open>auto simp add: same_pop_def same_geom_def\<close>)
    then show ?thesis by (simp add: gn timeav_p_def)
  qed
  have "same_pop (fst (foldl (timeav_p cfg s) (g\<lparr>rho_timeav := x\<rparr>, 0) ps)) g" for x ps
    by (rule foldl_invariant[where P = "\<lambda>a. same_pop (fst a) g"])
       (use p same_pop_trans in \<open>auto simp add: same_pop_def same_geom_def\<close>)
  then show ?thesis by (simp add: macro_timeav_def)
qed

lemma macro_step_pop: "same_pop (macro_step cfg g s) g"
proof -
  obtain i j k where s: "s = (i, j, k)" by (cases s)
  have "same_pop (LBM_macro_site cfg g i j k) g"
    by (simp add: LBM_macro_site_def same_pop_def same_geom_def Let_def)
  then show ?thesis
    using macro_timeav_pop[of cfg "LBM_macro_site cfg g i j k" s] same_pop_trans
    by (auto simp add: macro_step_def s)
qed

lemma LBM_macro_pop: "same_pop (LBM_macro cfg g) g"
  unfolding LBM_macro_def
  by (rule foldl_invariant[where P = "\<lambda>a. same_pop a g"])
     (use macro_step_pop same_pop_trans same_pop_refl in blast)+

lemma explode_site_geom: "same_geom (explode_site cfg p a s) a"
proof -
  have "same_geom (foldl (\<lambda>fg v. (let coarse_f = val v in
          fg\<lparr>f := foldl (\<lambda>fn sb. fn((sb, v) := coarse_f)) (f fg) sbs\<rparr>)) a vs) a" for val sbs vs
    by (rule foldl_invariant[where P = "\<lambda>x. same_geom x a"]) (simp_all add: same_geom_def Let_def)
  then show ?thesis by (simp add: explode_site_def same_geom_refl)
qed

lemma LBM_explode_geom: "same_geom (LBM_explode cfg p fGrid) fGrid"
  unfolding LBM_explode_def
  by (rule foldl_invariant[where P = "\<lambda>a. same_geom a fGrid"])
     (use explode_site_geom same_geom_trans same_geom_refl in blast)+

lemma tick_pop: "same_pop (tick g) g"
  by (simp add: tick_def same_pop_def same_geom_def)

lemma foldl_keep: "foldl (\<lambda>a d. a) a0 ds = a0"
  by (induction ds) simp_all

lemma forcegrid_dir_zero:
  assumes "force_i g = (\<lambda>q. 0)" "force_xyz g = (\<lambda>q. 0)"
  shows "forcegrid_dir cfg s g v = g"
proof -
  have a: "(\<lambda>q. 0::real)((s, v) := 0) = (\<lambda>q. 0)" by auto
  have b: "g\<lparr>force_i := (\<lambda>q. 0)\<rparr> = g" using assms(1) by (cases g) simp
  show ?thesis
    using assms by (simp add: forcegrid_dir_def Let_def foldl_keep a b)
qed

lemma forcegrid_zero:
  assumes "\<not> GRAVITY_ON cfg" "force_i g = (\<lambda>q. 0)" "force_xyz g = (\<lambda>q. 0)"
  shows "LBM_forcegrid cfg False g = g"
proof -
  have d: "foldl (forcegrid_dir cfg s) g vs = g" for s vs
    by (induction vs) (simp_all add: forcegrid_dir_zero[OF assms(2,3)])
  have "forcegrid_site cfg g s = g" for s
    using assms(1) by (simp add: forcegrid_site_def d)
  then have "foldl (forcegrid_site cfg) g xs = g" for xs
    by (induction xs) simp_all
  then show ?thesis by (simp add: LBM_forcegrid_def)
qed

lemma stream_rest:
  assumes "vel_ok cfg" and "v < nVels cfg"
    and "c cfg 0 v = 0" "c cfg 1 v = 0" "c cfg 2 v = 0"
    and "\<not> BUILD_FOR_MPI cfg" and "\<not> (INLET_ON cfg \<and> INLET_DO_NOTHING cfg)"
    and "on_grid g s" and "LatTyp g s \<noteq> 2" and "LatTyp g s \<noteq> 4"
  shows "f (LBM_stream cfg g) (s, v) = f g (s, v)"
proof -
  have ds: "dest_site cfg s' v = s'" for s'
    using assms(3,4,5) by (cases s') (simp add: dest_site_def)
  have dso: "dest_site cfg s' (getOpposite cfg v) = s'" for s'
    using assms(3,4,5) vel_okD(3,4,5)[OF assms(1,2)] by (cases s') (simp add: dest_site_def)
  have no: "\<not> off_grid cfg g s" by (rule on_grid_not_off[OF assms(8)])
  have w: "stream_write cfg g s v = Some ((s, v), f g (s, v))"
    using assms(6,7,10) no by (auto simp add: stream_write_def Let_def ds)
  have u: "x' = f g (s, v)"
    if h: "on_grid g s'" "v' < nVels cfg" "stream_write cfg g s' v' = Some ((s, v), x')"
    for s' v' x'
    using h(3)
  proof (cases rule: stream_write_elim)
    case inlet
    then show ?thesis using assms(7) by simp
  next
    case per
    then show ?thesis using ds[of s'] on_grid_not_off[OF h(1), of cfg] by simp
  next
    case ret
    have "v' = getOpposite cfg v" using ret(4) vel_okD(2)[OF assms(1) h(2)] by simp
    then show ?thesis using ret(1) dso[of s'] on_grid_not_off[OF h(1), of cfg] by simp
  next
    case mpi
    then show ?thesis using assms(6) by simp
  next
    case plain
    then show ?thesis using ds[of s'] by simp
  qed
  show ?thesis
    by (rule stream_value[OF assms(8,2,9) w]) (use u in blast)
qed

lemma demo_flags:
  "bc_regularised demo_cfg1 g = g" "bc_pre_stream demo_cfg1 g = g" "bc_bfl demo_cfg1 g = g"
  "bc_outlet demo_cfg1 g = g" "mpi_step demo_cfg1 g = g"
  "ibm_pre demo_cfg1 fl g = LBM_forcegrid demo_cfg1 True g"
  by (simp_all add: bc_regularised_def bc_pre_stream_def bc_bfl_def bc_outlet_def mpi_step_def
      ibm_pre_def demo_cfg1_def demo_cfg_def)

lemma leaf_pass_geom: "same_geom (leaf_pass cfg g) g"
  using same_popD(1)[OF LBM_macro_pop[of cfg "LBM_stream cfg (LBM_collide cfg (LBM_forcegrid cfg False g))"]]
    LBM_stream_geom[of cfg "LBM_collide cfg (LBM_forcegrid cfg False g)"]
    LBM_collide_geom[of cfg "LBM_forcegrid cfg False g"]
    same_popD(1)[OF LBM_forcegrid_pop[of cfg False g]]
  by (simp add: same_geom_def leaf_pass_def tick_def)

lemma leaf_pass_rest:
  assumes "vel_ok cfg" and "v < nVels cfg"
    and "c cfg 0 v = 0" "c cfg 1 v = 0" "c cfg 2 v = 0"
    and "\<not> BUILD_FOR_MPI cfg" and "\<not> (INLET_ON cfg \<and> INLET_DO_NOTHING cfg)"
    and "on_grid g s" and "LatTyp g s = 3"
  shows "f (leaf_pass cfg g) (s, v) = f g (s, v)"
proof -
  define a where "a = LBM_forcegrid cfg False g"
  define b where "b = LBM_collide cfg a"
  have pa: "same_pop a g" unfolding a_def by (rule LBM_forcegrid_pop)
  have la: "LatTyp a s = 3" using pa assms(9) by (simp add: same_pop_def same_geom_def)
  have fb: "f b (s, v) = f a (s, v)"
    unfolding b_def f_LBM_collide
    using collide_fold_skip[where g = a and gf = "(a, f a)" and s = s and cfg = cfg
        and xs = "sites a" and v = v, OF only_feq_init] la by simp
  have gb: "same_geom b g"
    using LBM_collide_geom[of cfg a] same_popD(1)[OF pa] same_geom_trans unfolding b_def by blast
  have ob: "on_grid b s" using same_geom_on_grid[OF gb] assms(8) by simp
  have lb: "LatTyp b s = 3" using gb assms(9) by (simp add: same_geom_def)
  have "f (LBM_stream cfg b) (s, v) = f b (s, v)"
    by (rule stream_rest[OF assms(1-7) ob]) (simp_all add: lb)
  moreover have "f (LBM_macro cfg (LBM_stream cfg b)) = f (LBM_stream cfg b)"
    using LBM_macro_pop[of cfg "LBM_stream cfg b"] by (simp add: same_pop_def)
  ultimately show ?thesis
    using fb pa by (simp add: a_def b_def same_pop_def leaf_pass_def tick_def)
qed

lemma demo_vel_ok1: "vel_ok demo_cfg1"
  using demo_vel_ok unfolding vel_ok_def by (simp add: demo_cfg1_def)

lemma demo_cfg1_vals:
  "nVels demo_cfg1 = 9" "dims demo_cfg1 = 2" "c demo_cfg1 0 8 = 0" "c demo_cfg1 1 8 = 0"
  "c demo_cfg1 2 8 = 0" "\<not> BUILD_FOR_MPI demo_cfg1" "\<not> INLET_ON demo_cfg1"
  "\<not> GRAVITY_ON demo_cfg1" "\<not> USE_MRT demo_cfg1" "w demo_cfg1 8 = 4 / 9"
  "c demo_cfg1 (Suc 0) 8 = 0"
  by (simp_all add: demo_cfg1_def demo_cfg_def d2q9_c_def d2q9_w_def)

lemma demo_coarse_reset: "LBM_forcegrid demo_cfg1 True demo_coarse = demo_coarse"
  by (simp add: LBM_forcegrid_def demo_coarse_def demo_grid_def)

lemma demo_coarse_force: "LBM_forcegrid demo_cfg1 False demo_coarse = demo_coarse"
  by (rule forcegrid_zero) (simp_all add: demo_cfg1_vals demo_coarse_def demo_grid_def)

lemma demo_coarse_vals:
  "on_grid demo_coarse (0, 1, 0)" "LatTyp demo_coarse (0, 1, 0) = 4" "omega demo_coarse = 1"
  "force_i demo_coarse q = 0" "f demo_coarse q = 5" "level demo_coarse = 0"
  "t demo_coarse = 0"
  by (simp_all add: demo_coarse_def demo_grid_def on_grid_def N_lim_def M_lim_def K_lim_def)

lemma demo_coarse_feq: "LBM_collide_feq demo_cfg1 demo_coarse 0 1 0 8 = 4 / 9"
  by (simp add: LBM_collide_feq_def demo_cfg1_def demo_cfg_def demo_coarse_def demo_grid_def
      d2q9_w_def d2q9_c_def)

lemma demo_collided:
  "f (LBM_collide demo_cfg1 demo_coarse) ((0, 1, 0), 8) = 4 / 9"
  unfolding f_LBM_collide
  using collide_fold_bgk_value[where g = demo_coarse and gf = "(demo_coarse, f demo_coarse)"
      and xs = "sites demo_coarse" and s = "(0, 1, 0)" and v = 8,
      OF only_feq_init demo_cfg1_vals(9)]
  by (simp add: set_sites demo_coarse_vals demo_cfg1_vals demo_coarse_feq)

lemma demo_fine_vals:
  "LatTyp demo_fine s = 3" "level demo_fine = 1" "t demo_fine = 0"
  "(0, 1, 0) \<in> set (region_sites demo_fine)"
  "siblings demo_cfg1 (fine_base demo_fine (0, 1, 0)) = [(0, 0, 0), (1, 0, 0), (0, 1, 0), (1, 1, 0)]"
  "fst (CoarseLimsZ demo_fine) = snd (CoarseLimsZ demo_fine)"
  "on_grid demo_fine (0, 0, 0)" "on_grid demo_fine (1, 0, 0)" "on_grid demo_fine (0, 1, 0)"
  "on_grid demo_fine (1, 1, 0)"
  by (simp_all add: demo_fine_def demo_child_def set_region_sites siblings_def fine_base_def
      getFineIndices_def demo_cfg1_vals on_grid_def N_lim_def M_lim_def K_lim_def)

lemma same_geom_region:
  assumes "same_geom a b"
  shows "region_sites a = region_sites b" "fine_base a s = fine_base b s"
  using assms by (simp_all add: same_geom_def region_sites_def fine_base_def)

lemma demo_leaf_pass:
  assumes "same_geom g demo_fine"
    and "sb \<in> set [(0, 0, 0), (1, 0, 0), (0, 1, 0), (1, 1, 0)]"
  shows "f (leaf_pass demo_cfg1 g) (sb, 8) = f g (sb, 8)"
    and "same_geom (leaf_pass demo_cfg1 g) demo_fine"
proof -
  have og: "on_grid g sb"
    using assms(2) same_geom_on_grid[OF assms(1), of sb] demo_fine_vals(7-10) by auto
  have lg: "LatTyp g sb = 3" using assms(1) demo_fine_vals(1) by (simp add: same_geom_def)
  show "f (leaf_pass demo_cfg1 g) (sb, 8) = f g (sb, 8)"
    by (rule leaf_pass_rest[OF demo_vel_ok1 _ demo_cfg1_vals(3,4,5,6) _ og lg])
       (simp_all add: demo_cfg1_vals)
  show "same_geom (leaf_pass demo_cfg1 g) demo_fine"
    using leaf_pass_geom[of demo_cfg1 g] assms(1) same_geom_trans by blast
qed

lemma demo_collided_tag: "LatTyp (LBM_collide demo_cfg1 demo_coarse) (0, 1, 0) = 4"
  using LBM_collide_geom[of demo_cfg1 demo_coarse] demo_coarse_vals(2)
  by (simp add: same_geom_def)

lemma demo_fine_final_geom: "same_geom demo_fine_final demo_fine"
proof -
  have "same_geom (LBM_forcegrid demo_cfg1 True
       (LBM_explode demo_cfg1 (LBM_collide demo_cfg1 demo_coarse) demo_fine)) demo_fine"
    using same_popD(1)[OF LBM_forcegrid_pop] LBM_explode_geom same_geom_trans by blast
  then show ?thesis
    unfolding demo_fine_final_def using leaf_pass_geom same_geom_trans by blast
qed

lemma demo_fine_final_rest:
  assumes "sb \<in> set [(0, 0, 0), (1, 0, 0), (0, 1, 0), (1, 1, 0)]"
  shows "f demo_fine_final (sb, 8) = 4 / 9"
proof -
  define s1 where "s1 = LBM_collide demo_cfg1 demo_coarse"
  define ex where "ex = LBM_explode demo_cfg1 s1 demo_fine"
  define e0 where "e0 = LBM_forcegrid demo_cfg1 True ex"
  have sbm: "sb \<in> set (siblings demo_cfg1 (fine_base demo_fine (0, 1, 0)))"
    using assms by (simp add: demo_fine_vals(5))
  have fx: "f ex (sb, 8) = f s1 ((0, 1, 0), 8)"
    unfolding ex_def
    by (rule LBM_explode_hit[OF _ demo_fine_vals(4) demo_collided_tag[folded s1_def]
          demo_fine_vals(1) sbm])
       (simp_all add: demo_fine_vals(6) demo_cfg1_vals)
  have gx: "same_geom ex demo_fine" unfolding ex_def by (rule LBM_explode_geom)
  have p0: "same_pop e0 ex" unfolding e0_def by (rule LBM_forcegrid_pop)
  have g0: "same_geom e0 demo_fine"
    using same_popD(1)[OF p0] gx same_geom_trans by blast
  have f0: "f e0 (sb, 8) = 4 / 9"
    using same_popD(2)[OF p0] fx demo_collided by (simp add: s1_def)
  have f1: "f (leaf_pass demo_cfg1 e0) (sb, 8) = 4 / 9"
    and g1: "same_geom (leaf_pass demo_cfg1 e0) demo_fine"
    using demo_leaf_pass[OF g0 assms] f0 by simp_all
  show ?thesis
    using demo_leaf_pass(1)[OF g1 assms] f1
    by (simp add: demo_fine_final_def e0_def ex_def s1_def)
qed

lemma demo_dest_rest: "dest_site demo_cfg1 (0, 1, 0) 8 = (0, 1, 0)"
  by (simp add: dest_site_def demo_cfg1_vals)

lemma demo_tl_stream:
  assumes "same_geom g demo_coarse"
  shows "f (LBM_stream demo_cfg1 g) ((0, 1, 0), 8) = 0"
proof -
  have og: "on_grid g (0, 1, 0)"
    using same_geom_on_grid[OF assms] demo_coarse_vals(1) by simp
  have lg: "LatTyp g (0, 1, 0) = 4" using assms demo_coarse_vals(2) by (simp add: same_geom_def)
  have "f (LBM_stream demo_cfg1 g) (dest_site demo_cfg1 (0, 1, 0) 8, 8) = 0"
    by (rule stream_tl_zero[OF demo_vel_ok1 og _ lg])
       (simp_all add: demo_cfg1_vals demo_dest_rest lg on_grid_not_off[OF og])
  then show ?thesis by (simp add: demo_dest_rest)
qed

lemma demo_driver_value:
  "f (tick (LBM_macro demo_cfg1 (LBM_coalesce demo_cfg1
        (LBM_stream demo_cfg1 (LBM_collide demo_cfg1 demo_coarse)) demo_fine_final)))
     ((0, 1, 0), 8) = 4 / 9"
proof -
  define st where "st = LBM_stream demo_cfg1 (LBM_collide demo_cfg1 demo_coarse)"
  have z: "f st ((0, 1, 0), 8) = 0"
    unfolding st_def by (rule demo_tl_stream[OF LBM_collide_geom])
  have l: "LatTyp st (0, 1, 0) = 4"
    using LBM_stream_geom[of demo_cfg1 "LBM_collide demo_cfg1 demo_coarse"] demo_collided_tag
    by (simp add: same_geom_def st_def)
  have r: "(0, 1, 0) \<in> set (region_sites demo_fine_final)"
    using same_geom_region(1)[OF demo_fine_final_geom] demo_fine_vals(4) by simp
  have sb: "siblings demo_cfg1 (fine_base demo_fine_final (0, 1, 0)) =
      [(0, 0, 0), (1, 0, 0), (0, 1, 0), (1, 1, 0)]"
    using same_geom_region(2)[OF demo_fine_final_geom] demo_fine_vals(5) by simp
  have "f (LBM_coalesce demo_cfg1 st demo_fine_final) ((0, 1, 0), 8) = 4 / 9"
    unfolding LBM_coalesce_value
    using z l r by (simp add: sb demo_cfg1_vals demo_fine_final_rest)
  moreover have "f (LBM_macro demo_cfg1 (LBM_coalesce demo_cfg1 st demo_fine_final))
      = f (LBM_coalesce demo_cfg1 st demo_fine_final)"
    using LBM_macro_pop[of demo_cfg1 "LBM_coalesce demo_cfg1 st demo_fine_final"]
    by (simp add: same_pop_def)
  ultimately show ?thesis by (simp add: tick_def st_def)
qed

lemma demo_spec_value:
  "f (tick (LBM_macro demo_cfg1 (LBM_stream demo_cfg1
        (LBM_coalesce demo_cfg1 (LBM_collide demo_cfg1 demo_coarse) demo_fine_final))))
     ((0, 1, 0), 8) = 0"
proof -
  define co where "co = LBM_coalesce demo_cfg1 (LBM_collide demo_cfg1 demo_coarse) demo_fine_final"
  have "same_geom co demo_coarse"
    unfolding co_def using LBM_coalesce_geom LBM_collide_geom same_geom_trans by blast
  then have "f (LBM_stream demo_cfg1 co) ((0, 1, 0), 8) = 0" by (rule demo_tl_stream)
  moreover have "f (LBM_macro demo_cfg1 (LBM_stream demo_cfg1 co)) = f (LBM_stream demo_cfg1 co)"
    using LBM_macro_pop[of demo_cfg1 "LBM_stream demo_cfg1 co"] by (simp add: same_pop_def)
  ultimately show ?thesis by (simp add: tick_def co_def)
qed

lemma demo_run:
  "run_sched demo_cfg1 False (call_sched 0 (Shape [Shape []])) demo_tree =
     GridObj (tick (LBM_macro demo_cfg1 (LBM_coalesce demo_cfg1
        (LBM_stream demo_cfg1 (LBM_collide demo_cfg1 demo_coarse)) demo_fine_final)))
       [GridObj demo_fine_final []]"
  by (simp add: call_sched.simps body_sched.simps below_def run_sched_Cons run_sched_Nil
      exec_def demo_flags demo_tree_def demo_coarse_reset demo_coarse_force
      demo_fine_final_def leaf_pass_def)

lemma demo_spec_run:
  "run_sched demo_cfg1 False (spec_call_sched 0 (Shape [Shape []])) demo_tree =
     GridObj (tick (LBM_macro demo_cfg1 (LBM_stream demo_cfg1
        (LBM_coalesce demo_cfg1 (LBM_collide demo_cfg1 demo_coarse) demo_fine_final))))
       [GridObj demo_fine_final []]"
  by (simp add: below_def run_sched_Cons run_sched_Nil
      exec_def demo_flags demo_tree_def demo_coarse_reset demo_coarse_force
      demo_fine_final_def leaf_pass_def)

lemma demo_hooks_ok: "hooks_ok demo_cfg1"
  by (simp add: hooks_ok_def demo_cfg1_def demo_cfg_def)

lemma demo_levels_ok: "levels_ok demo_cfg1 0 demo_tree"
  by (simp add: demo_tree_def demo_coarse_vals demo_fine_vals demo_cfg1_def)

lemma demo_shape: "shape_of demo_tree = Shape [Shape []]"
  by (simp add: demo_tree_def)

lemma demo_no_ibm: "\<not> IBM_ON demo_cfg1"
  by (simp add: demo_cfg1_def demo_cfg_def)

lemma demo_call_sched:
  "call_sched 0 (Shape [Shape []]) =
     [([], OpReset), ([], OpBoundaryIn), ([], OpForce), ([], OpCollide),
      ([], OpExplode 0),
      ([0], OpReset),
      ([0], OpBoundaryIn), ([0], OpForce), ([0], OpCollide), ([0], OpBoundaryPre),
      ([0], OpStream), ([0], OpBoundaryBfl), ([0], OpBoundaryOut), ([0], OpMacro),
      ([0], OpTick),
      ([0], OpBoundaryIn), ([0], OpForce), ([0], OpCollide), ([0], OpBoundaryPre),
      ([0], OpStream), ([0], OpBoundaryBfl), ([0], OpBoundaryOut), ([0], OpMacro),
      ([0], OpTick), ([0], OpMpi),
      ([], OpBoundaryPre), ([], OpStream), ([], OpBoundaryBfl),
      ([], OpCoalesce 0),
      ([], OpBoundaryOut), ([], OpMacro), ([], OpTick), ([], OpMpi)]"
  by (simp add: call_sched.simps body_sched.simps below_def)

text \<open>
  C1 (driver order). On a hierarchy whose grids carry their depth as level, a call of
  \<^verbatim>\<open>LBM_multi\<close> on a grid of level \<open>L\<close> leaves the hierarchy in the state that the steps of
  \<open>driver_call\<close> produce when they are performed one after the other: in one pass of the
  body the collision of the level; for each region in turn the explode into the child
  followed by one driver call on the child, which is two passes of the child's body;
  the streaming of the level; the coalesce of each region in turn; the update of the
  macroscopic quantities. A level other than 0 runs this body twice and advances its
  counter \<open>t\<close> by 2; level 0 runs it once and advances \<open>t\<close> by 1, and in the predictor
  call of an immersed-boundary build it runs the body once, restores its populations
  and its tick and performs the corrector call. The shape of the hierarchy is
  unchanged.
\<close>

theorem C1_driver_order:
  assumes "hooks_ok cfg" and "levels_ok cfg L g"
  shows "LBM_multi cfg IBM_flag g = driver_call cfg IBM_flag L g
     \<and> t (fields (LBM_multi cfg IBM_flag g)) = t (fields g) + (if L = 0 then 1 else 2)
     \<and> shape_of (LBM_multi cfg IBM_flag g) = shape_of g"
  using driver_refines(1)[OF assms, of IBM_flag] by blast

text \<open>
  The example hierarchy: a root whose site \<open>(0, 1, 0)\<close> is on the transition layer, with
  every population at 5, and one child on level 1 whose four sites are on the
  transition layer to the root, with every population at 7. The call performs the 33
  steps listed. The collision of the root sets the rest population of the site to its
  equilibrium \<open>4/9\<close>; the explode copies it to the four sites of the child, whose two
  passes keep it; the streaming of the root leaves the slot at 0 and the coalesce that
  follows fills it with the mean of the child.
\<close>

theorem C1_driver_order_witness:
  "hooks_ok demo_cfg1 \<and> levels_ok demo_cfg1 0 demo_tree
   \<and> LBM_multi demo_cfg1 False demo_tree =
       run_sched demo_cfg1 False
         [([], OpReset), ([], OpBoundaryIn), ([], OpForce), ([], OpCollide),
          ([], OpExplode 0),
          ([0], OpReset),
          ([0], OpBoundaryIn), ([0], OpForce), ([0], OpCollide), ([0], OpBoundaryPre),
          ([0], OpStream), ([0], OpBoundaryBfl), ([0], OpBoundaryOut), ([0], OpMacro),
          ([0], OpTick),
          ([0], OpBoundaryIn), ([0], OpForce), ([0], OpCollide), ([0], OpBoundaryPre),
          ([0], OpStream), ([0], OpBoundaryBfl), ([0], OpBoundaryOut), ([0], OpMacro),
          ([0], OpTick), ([0], OpMpi),
          ([], OpBoundaryPre), ([], OpStream), ([], OpBoundaryBfl),
          ([], OpCoalesce 0),
          ([], OpBoundaryOut), ([], OpMacro), ([], OpTick), ([], OpMpi)]
         demo_tree
   \<and> f (fields (LBM_multi demo_cfg1 False demo_tree)) ((0, 1, 0), 8) = 4 / 9
   \<and> f (fields (hd (subGrid (LBM_multi demo_cfg1 False demo_tree)))) ((0, 0, 0), 8) = 4 / 9
   \<and> t (fields (LBM_multi demo_cfg1 False demo_tree)) = 1
   \<and> shape_of (LBM_multi demo_cfg1 False demo_tree) = Shape [Shape []]"
proof -
  note th = C1_driver_order[OF demo_hooks_ok demo_levels_ok, of False]
  have m: "LBM_multi demo_cfg1 False demo_tree =
      run_sched demo_cfg1 False (call_sched 0 (Shape [Shape []])) demo_tree"
    using th[THEN conjunct1] by (simp add: driver_call_def demo_no_ibm demo_shape)
  have tt: "t (fields (LBM_multi demo_cfg1 False demo_tree)) = 1"
    using th[THEN conjunct2, THEN conjunct1] by (simp add: demo_tree_def demo_coarse_vals)
  have sh: "shape_of (LBM_multi demo_cfg1 False demo_tree) = Shape [Shape []]"
    using th[THEN conjunct2, THEN conjunct2] by (simp add: demo_shape)
  have v1: "f (fields (LBM_multi demo_cfg1 False demo_tree)) ((0, 1, 0), 8) = 4 / 9"
    unfolding m demo_run using demo_driver_value by simp
  have v2: "f (fields (hd (subGrid (LBM_multi demo_cfg1 False demo_tree)))) ((0, 0, 0), 8) = 4 / 9"
    unfolding m demo_run using demo_fine_final_rest[of "(0, 0, 0)"] by simp
  show ?thesis
    using demo_hooks_ok demo_levels_ok m[unfolded demo_call_sched] v1 v2 tt sh by simp
qed

text \<open>
  On the example hierarchy the driver does not perform the steps in the order of the
  description, with the coalesce before the streaming of the level: in that order the
  streaming would leave the rest population of the root site \<open>(0, 1, 0)\<close> at the
  sentinel 0, while the driver returns it with the mean \<open>4/9\<close> of the child.
\<close>

theorem C1_stream_before_coalesce:
  "f (fields (LBM_multi demo_cfg1 False demo_tree)) ((0, 1, 0), 8) = 4 / 9
   \<and> f (fields (run_sched demo_cfg1 False (spec_call_sched 0 (shape_of demo_tree)) demo_tree))
        ((0, 1, 0), 8) = 0
   \<and> LBM_multi demo_cfg1 False demo_tree \<noteq>
        run_sched demo_cfg1 False (spec_call_sched 0 (shape_of demo_tree)) demo_tree"
proof -
  have m: "LBM_multi demo_cfg1 False demo_tree =
      run_sched demo_cfg1 False (call_sched 0 (Shape [Shape []])) demo_tree"
    using driver_refines(1)[OF demo_hooks_ok demo_levels_ok, of False]
    by (simp add: driver_call_def demo_no_ibm demo_shape)
  have v1: "f (fields (LBM_multi demo_cfg1 False demo_tree)) ((0, 1, 0), 8) = 4 / 9"
    unfolding m demo_run using demo_driver_value by simp
  have v2: "f (fields (run_sched demo_cfg1 False (spec_call_sched 0 (shape_of demo_tree))
      demo_tree)) ((0, 1, 0), 8) = 0"
    unfolding demo_shape demo_spec_run using demo_spec_value by simp
  have "LBM_multi demo_cfg1 False demo_tree \<noteq>
        run_sched demo_cfg1 False (spec_call_sched 0 (shape_of demo_tree)) demo_tree"
    using v1 v2 by auto
  then show ?thesis using v1 v2 by simp
qed

end
